(* ===== verification/Go_Prelude.thy ===== *)
theory Go_Prelude
  imports Main "HOL-Library.Word" "HOL-Library.List_Lexorder" "HOL-Library.Char_ord"
    "HOL-Library.AList" "HOL-Library.Sublist"
begin

text \<open>
  The parts of Go and of its standard library that the modelled packages use.

  A Go string is a list of bytes, so \<open>string\<close> (a \<open>char list\<close>, each \<open>char\<close> one byte) is its
  model, and the order of \<open>HOL-Library.List_Lexorder\<close> over \<open>HOL-Library.Char_ord\<close> is Go's
  \<open><\<close> on strings. A Go map is an association list with distinct keys, written with
  \<open>AList.update\<close> and read with \<open>map_of\<close>; \<open>length\<close> is Go's \<open>len\<close>. An error is a value of
  \<open>go_error\<close>, and a fallible function returns \<open>go_error + 'a\<close>.

  The theory holds: byte-level \<open>strings\<close>, \<open>unicode/utf8\<close> and \<open>net/mail\<close> functions, the
  canonical sorted set that the code builds from a map used as a set, the locale of framed
  encodings (whose client lemma is that a concatenation of frames determines the frames), and
  the locale of transition systems with an invariant.
\<close>

named_theorems go_simps "equations of the Go library functions"

section \<open>Errors\<close>

datatype go_error = Err string | SqlError | PanicError

type_synonym 'a result = "go_error + 'a"

type_synonym u64 = "64 word"

text \<open>A loop that maps a fallible function over a slice and stops at the first error.\<close>

fun mapR :: "('a \<Rightarrow> 'b result) \<Rightarrow> 'a list \<Rightarrow> 'b list result" where
  "mapR f [] = Inr []"
| "mapR f (x # xs) =
     (case f x of Inl e \<Rightarrow> Inl e
      | Inr y \<Rightarrow> (case mapR f xs of Inl e \<Rightarrow> Inl e | Inr ys \<Rightarrow> Inr (y # ys)))"

lemma mapR_Inr: "mapR f xs = Inr ys \<longleftrightarrow> map f xs = map Inr ys"
proof (induction xs arbitrary: ys)
  case (Cons x xs)
  then show ?case by (cases ys; cases "f x"; cases "mapR f xs") auto
qed auto

lemma mapR_fixed: "(\<And>x. x \<in> set xs \<Longrightarrow> f x = Inr (g x)) \<Longrightarrow> mapR f xs = Inr (map g xs)"
  by (induction xs) auto

section \<open>Bytes\<close>

abbreviation byte :: "char \<Rightarrow> nat" where
  "byte c \<equiv> of_char c"

definition HasPrefix :: "string \<Rightarrow> string \<Rightarrow> bool" where
  "HasPrefix s p \<longleftrightarrow> take (length p) s = p"

definition HasSuffix :: "string \<Rightarrow> string \<Rightarrow> bool" where
  "HasSuffix s p \<longleftrightarrow> length p \<le> length s \<and> drop (length s - length p) s = p"

fun Contains :: "string \<Rightarrow> string \<Rightarrow> bool" where
  "Contains [] p \<longleftrightarrow> p = []"
| "Contains (c # s) p \<longleftrightarrow> HasPrefix (c # s) p \<or> Contains s p"

text \<open>\<open>strings.TrimSuffix\<close>\<close>

definition TrimSuffix :: "string \<Rightarrow> string \<Rightarrow> string" where
  "TrimSuffix s p = (if HasSuffix s p then take (length s - length p) s else s)"

text \<open>
  \<open>strings.ToLower\<close> and \<open>strings.EqualFold\<close> on ASCII letters. Bytes of multi-byte runes are
  left alone: the Unicode case tables are not modelled.
\<close>

definition lower_char :: "char \<Rightarrow> char" where
  "lower_char c = (if 65 \<le> byte c \<and> byte c \<le> 90 then char_of (byte c + 32) else c)"

definition ToLower :: "string \<Rightarrow> string" where
  "ToLower s = map lower_char s"

definition EqualFold :: "string \<Rightarrow> string \<Rightarrow> bool" where
  "EqualFold s t \<longleftrightarrow> ToLower s = ToLower t"

text \<open>Splitting at the last occurrence of a byte, for the code's use of \<open>LastIndexByte\<close>.\<close>

definition split_last :: "char \<Rightarrow> string \<Rightarrow> (string \<times> string) option" where
  "split_last c s =
     (case dropWhile (\<lambda>x. x \<noteq> c) (rev s) of
        [] \<Rightarrow> None
      | _ # b \<Rightarrow> Some (rev b, rev (takeWhile (\<lambda>x. x \<noteq> c) (rev s))))"

text \<open>Splitting at the first occurrence of a byte.\<close>

definition split_first :: "char \<Rightarrow> string \<Rightarrow> (string \<times> string) option" where
  "split_first c s =
     (case dropWhile (\<lambda>x. x \<noteq> c) s of
        [] \<Rightarrow> None
      | _ # b \<Rightarrow> Some (takeWhile (\<lambda>x. x \<noteq> c) s, b))"

section \<open>White space\<close>

text \<open>
  \<open>space3 a b c\<close> lists the three-byte encodings of the Unicode white-space runes: U+1680,
  U+2000 to U+200A, U+2028, U+2029, U+202F, U+205F and U+3000. The two-byte ones are U+0085
  and U+00A0.
\<close>

definition space1 :: "char \<Rightarrow> bool" where
  "space1 a \<longleftrightarrow> (9 \<le> byte a \<and> byte a \<le> 13) \<or> byte a = 32"

definition space2 :: "char \<Rightarrow> char \<Rightarrow> bool" where
  "space2 a b \<longleftrightarrow> byte a = 0xC2 \<and> (byte b = 0x85 \<or> byte b = 0xA0)"

definition space3 :: "char \<Rightarrow> char \<Rightarrow> char \<Rightarrow> bool" where
  "space3 a b c \<longleftrightarrow>
     (byte a = 0xE1 \<and> byte b = 0x9A \<and> byte c = 0x80)
   \<or> (byte a = 0xE2 \<and> byte b = 0x80 \<and>
        (0x80 \<le> byte c \<and> byte c \<le> 0x8A \<or> byte c = 0xA8 \<or> byte c = 0xA9 \<or> byte c = 0xAF))
   \<or> (byte a = 0xE2 \<and> byte b = 0x81 \<and> byte c = 0x9F)
   \<or> (byte a = 0xE3 \<and> byte b = 0x80 \<and> byte c = 0x80)"

text \<open>Length of the white-space rune at the front of a string, 0 if there is none.\<close>

fun space_len :: "string \<Rightarrow> nat" where
  "space_len [] = 0"
| "space_len [a] = (if space1 a then 1 else 0)"
| "space_len [a, b] = (if space1 a then 1 else if space2 a b then 2 else 0)"
| "space_len (a # b # c # s) =
     (if space1 a then 1 else if space2 a b then 2 else if space3 a b c then 3 else 0)"

text \<open>The same at the end of a string, given reversed.\<close>

fun space_len_end :: "string \<Rightarrow> nat" where
  "space_len_end [] = 0"
| "space_len_end [a] = (if space1 a then 1 else 0)"
| "space_len_end [b, a] = (if space1 b then 1 else if space2 a b then 2 else 0)"
| "space_len_end (c # b # a # s) =
     (if space1 c then 1 else if space2 b c then 2 else if space3 a b c then 3 else 0)"

function trim_left :: "string \<Rightarrow> string" where
  "trim_left s = (if space_len s = 0 then s else trim_left (drop (space_len s) s))"
  by pat_completeness auto
termination
proof (relation "measure length")
  fix s :: string
  assume "space_len s \<noteq> 0"
  then have "s \<noteq> []" by auto
  with \<open>space_len s \<noteq> 0\<close> show "(drop (space_len s) s, s) \<in> measure length" by simp
qed simp

function trim_end :: "string \<Rightarrow> string" where
  "trim_end r = (if space_len_end r = 0 then r else trim_end (drop (space_len_end r) r))"
  by pat_completeness auto
termination
proof (relation "measure length")
  fix s :: string
  assume "space_len_end s \<noteq> 0"
  then have "s \<noteq> []" by auto
  with \<open>space_len_end s \<noteq> 0\<close> show "(drop (space_len_end s) s, s) \<in> measure length" by simp
qed simp

declare trim_left.simps [simp del] trim_end.simps [simp del]

text \<open>\<open>strings.TrimSpace\<close>\<close>

definition TrimSpace :: "string \<Rightarrow> string" where
  "TrimSpace s = rev (trim_end (rev (trim_left s)))"

section \<open>UTF-8\<close>

definition cont :: "char \<Rightarrow> bool" where
  "cont c \<longleftrightarrow> 0x80 \<le> byte c \<and> byte c \<le> 0xBF"

text \<open>Size of the well-formed rune at the front of a string, 0 if it is malformed or empty.\<close>

definition rune_len :: "string \<Rightarrow> nat" where
  "rune_len s =
     (case s of [] \<Rightarrow> 0 | a # t \<Rightarrow>
       if byte a < 0x80 then 1 else
       (case t of [] \<Rightarrow> 0 | b # u \<Rightarrow>
         if 0xC2 \<le> byte a \<and> byte a \<le> 0xDF then (if cont b then 2 else 0) else
         (case u of [] \<Rightarrow> 0 | c # v \<Rightarrow>
           if byte a = 0xE0 then (if 0xA0 \<le> byte b \<and> byte b \<le> 0xBF \<and> cont c then 3 else 0) else
           if byte a = 0xED then (if 0x80 \<le> byte b \<and> byte b \<le> 0x9F \<and> cont c then 3 else 0) else
           if 0xE1 \<le> byte a \<and> byte a \<le> 0xEF then (if cont b \<and> cont c then 3 else 0) else
           (case v of [] \<Rightarrow> 0 | d # _ \<Rightarrow>
             if byte a = 0xF0 then
               (if 0x90 \<le> byte b \<and> byte b \<le> 0xBF \<and> cont c \<and> cont d then 4 else 0) else
             if byte a = 0xF4 then
               (if 0x80 \<le> byte b \<and> byte b \<le> 0x8F \<and> cont c \<and> cont d then 4 else 0) else
             if 0xF1 \<le> byte a \<and> byte a \<le> 0xF3 then
               (if cont b \<and> cont c \<and> cont d then 4 else 0) else 0))))"

text \<open>\<open>utf8.ValidString\<close>\<close>

function ValidString :: "string \<Rightarrow> bool" where
  "ValidString s =
     (if s = [] then True
      else if rune_len s = 0 then False
      else ValidString (drop (rune_len s) s))"
  by pat_completeness auto
termination
proof (relation "measure length")
  fix s :: string
  assume "s \<noteq> []" and "rune_len s \<noteq> 0"
  then show "(drop (rune_len s) s, s) \<in> measure length" by simp
qed simp

declare ValidString.simps [simp del]

text \<open>
  \<open>strings.IndexFunc (s, unicode.IsControl) >= 0\<close> for a well-formed \<open>s\<close>: the control runes are
  U+0000 to U+001F, U+007F and U+0080 to U+009F, the last ones encoded as C2 80 to C2 9F.
\<close>

fun has_control :: "string \<Rightarrow> bool" where
  "has_control [] \<longleftrightarrow> False"
| "has_control (a # s) \<longleftrightarrow>
     byte a < 0x20 \<or> byte a = 0x7F
   \<or> (byte a = 0xC2 \<and> (case s of [] \<Rightarrow> False | b # _ \<Rightarrow> 0x80 \<le> byte b \<and> byte b \<le> 0x9F))
   \<or> has_control s"

section \<open>Mail addresses\<close>

text \<open>
  \<open>net/mail.isAtext\<close> with dots allowed, on one byte. A byte of a multi-byte rune counts as
  atext, as \<open>isVchar\<close> accepts every rune from U+0080 on. The excluded bytes are the
  specials of RFC 5322: the double quote, parentheses, comma, colon, semicolon, angle brackets,
  at sign, square brackets and backslash.
\<close>

definition isAtext :: "char \<Rightarrow> bool" where
  "isAtext c \<longleftrightarrow>
     (33 \<le> byte c \<and> byte c \<le> 126 \<and>
        byte c \<notin> {34, 40, 41, 44, 58, 59, 60, 62, 64, 91, 92, 93}) \<or> 128 \<le> byte c"

text \<open>
  \<open>dot_atom s\<close>: \<open>addrParser.consumeAtom(true, false)\<close> succeeds on \<open>s\<close> and consumes all of it.
\<close>

definition dot_atom :: "string \<Rightarrow> bool" where
  "dot_atom s \<longleftrightarrow> s \<noteq> [] \<and> ValidString s \<and> list_all isAtext s
     \<and> \<not> HasPrefix s ''.'' \<and> \<not> Contains s ''..'' \<and> \<not> HasSuffix s ''.''"

text \<open>
  \<open>plain_address s\<close>: \<open>mail.ParseAddress s\<close> succeeds with an empty name and the address \<open>s\<close>
  itself. The parser drops quotes, comments, angle brackets and spaces from the address it
  returns, so this leaves the inputs that are a dot-atom, \<open>@\<close> and a dot-atom. (A
  domain literal \<open>[...]\<close> cannot occur: the code only passes domains that came out of the
  IDNA lookup profile, whose strict-domain-name rule admits letters, digits, hyphens and dots.)
\<close>

definition plain_address :: "string \<Rightarrow> bool" where
  "plain_address s \<longleftrightarrow>
     (case split_first CHR ''@'' s of None \<Rightarrow> False | Some (l, d) \<Rightarrow> dot_atom l \<and> dot_atom d)"

section \<open>Sets built from Go maps\<close>

text \<open>
  The code collects strings in a map used as a set, copies the keys to a slice and sorts it.
\<close>

definition sorted_set :: "'a::linorder list \<Rightarrow> 'a list" where
  "sorted_set xs = sort (remdups xs)"

text \<open>\<open>sort.SearchStrings\<close>: the least index whose element is not below the target.\<close>

function search :: "'a::linorder list \<Rightarrow> 'a \<Rightarrow> nat \<Rightarrow> nat \<Rightarrow> nat" where
  "search xs x i j =
     (if i < j then
        let h = (i + j) div 2 in
        if xs ! h < x then search xs x (h + 1) j else search xs x i h
      else i)"
  by pat_completeness auto
termination
  by (relation "measure (\<lambda>(xs, x, i, j). j - i)") auto

declare search.simps [simp del]

section \<open>Lemmas on bytes\<close>

lemma split_last_Some_iff:
  "split_last c s = Some (l, d) \<longleftrightarrow> s = l @ c # d \<and> c \<notin> set d"
proof
  assume eq: "split_last c s = Some (l, d)"
  let ?P = "\<lambda>x. x \<noteq> c"
  from eq obtain b x where dw: "dropWhile ?P (rev s) = x # b"
    and l: "l = rev b" and d: "d = rev (takeWhile ?P (rev s))"
    by (auto simp: split_last_def split: list.splits)
  have x: "x = c" using hd_dropWhile [of ?P "rev s"] dw by simp
  have "rev s = takeWhile ?P (rev s) @ c # b"
    using takeWhile_dropWhile_id [of ?P "rev s"] dw x by simp
  then have "s = l @ c # d" using l d
    by (metis append.assoc append_Cons append_Nil rev.simps(2) rev_append rev_rev_ident)
  moreover have "c \<notin> set d" using d by (auto dest: set_takeWhileD)
  ultimately show "s = l @ c # d \<and> c \<notin> set d" by simp
next
  assume "s = l @ c # d \<and> c \<notin> set d"
  then have s: "rev s = rev d @ c # rev l" and c: "c \<notin> set (rev d)" by auto
  have "takeWhile (\<lambda>x. x \<noteq> c) (rev s) = rev d"
    unfolding s using c by (induction "rev d") (auto simp: takeWhile_tail takeWhile_append)
  moreover have "dropWhile (\<lambda>x. x \<noteq> c) (rev s) = c # rev l"
    unfolding s using c by (auto simp: dropWhile_append)
  ultimately show "split_last c s = Some (l, d)" by (simp add: split_last_def)
qed

lemma split_first_Some_iff:
  "split_first c s = Some (l, d) \<longleftrightarrow> s = l @ c # d \<and> c \<notin> set l"
proof
  assume eq: "split_first c s = Some (l, d)"
  let ?P = "\<lambda>x. x \<noteq> c"
  from eq obtain x where dw: "dropWhile ?P s = x # d" and l: "l = takeWhile ?P s"
    by (auto simp: split_first_def split: list.splits)
  have "x = c" using hd_dropWhile [of ?P s] dw by simp
  with dw l takeWhile_dropWhile_id [of ?P s] have "s = l @ c # d" by simp
  moreover have "c \<notin> set l" using l by (auto dest: set_takeWhileD)
  ultimately show "s = l @ c # d \<and> c \<notin> set l" by simp
next
  assume "s = l @ c # d \<and> c \<notin> set l"
  then show "split_first c s = Some (l, d)"
    by (auto simp: split_first_def takeWhile_append dropWhile_append)
qed


lemma lower_char_idem [simp]: "lower_char (lower_char c) = lower_char c"
proof (cases "65 \<le> byte c \<and> byte c \<le> 90")
  case True
  then have "byte (char_of (byte c + 32) :: char) = byte c + 32" by simp
  with True show ?thesis by (simp add: lower_char_def)
next
  case False
  then show ?thesis by (auto simp: lower_char_def)
qed

lemma ToLower_idem [simp]: "ToLower (ToLower s) = ToLower s"
  by (simp add: ToLower_def)

lemma length_ToLower [simp]: "length (ToLower s) = length s"
  by (simp add: ToLower_def)

lemma ToLower_append [simp]: "ToLower (s @ t) = ToLower s @ ToLower t"
  by (simp add: ToLower_def)

lemma HasPrefix_iff: "HasPrefix s p \<longleftrightarrow> (\<exists>t. s = p @ t)"
proof
  assume "HasPrefix s p"
  then have "s = p @ drop (length p) s"
    unfolding HasPrefix_def by (metis append_take_drop_id)
  then show "\<exists>t. s = p @ t" ..
qed (auto simp: HasPrefix_def)

lemma HasSuffix_iff: "HasSuffix s p \<longleftrightarrow> (\<exists>t. s = t @ p)"
proof
  assume "HasSuffix s p"
  then have "s = take (length s - length p) s @ p"
    unfolding HasSuffix_def by (metis append_take_drop_id)
  then show "\<exists>t. s = t @ p" ..
qed (auto simp: HasSuffix_def)

lemma TrimSuffix_append [simp]: "TrimSuffix (s @ p) p = s"
  by (simp add: TrimSuffix_def HasSuffix_def)

lemma Contains_iff: "Contains s p \<longleftrightarrow> (\<exists>a b. s = a @ p @ b)"
proof (induction s)
  case Nil
  then show ?case by auto
next
  case (Cons c s)
  show ?case
  proof
    assume "Contains (c # s) p"
    then consider "HasPrefix (c # s) p" | "Contains s p" by auto
    then show "\<exists>a b. c # s = a @ p @ b"
    proof cases
      case 1
      then show ?thesis using HasPrefix_iff [of "c # s" p] by (metis append_Nil)
    next
      case 2
      then show ?thesis using Cons.IH by (metis append_Cons)
    qed
  next
    assume "\<exists>a b. c # s = a @ p @ b"
    then obtain a b where ab: "c # s = a @ p @ b" by blast
    show "Contains (c # s) p"
    proof (cases a)
      case Nil
      then have "HasPrefix (c # s) p" using ab by (simp add: HasPrefix_def)
      then show ?thesis by simp
    next
      case (Cons x a')
      then show ?thesis using ab Cons.IH by auto
    qed
  qed
qed

section \<open>Lemmas on trimming\<close>

lemma space_len_take: "space_len (take k s) \<noteq> 0 \<Longrightarrow> space_len s \<noteq> 0"
  by (induction s rule: space_len.induct)
    (auto simp: take_Cons split: nat.splits if_splits)

lemma trim_left_suffix: "\<exists>p. s = p @ trim_left s"
proof (induction s rule: trim_left.induct)
  case (1 s)
  show ?case
  proof (cases "space_len s = 0")
    case True
    then show ?thesis by (simp add: trim_left.simps [of s])
  next
    case False
    then obtain p where "drop (space_len s) s = p @ trim_left (drop (space_len s) s)"
      using 1 by blast
    then have "s = (take (space_len s) s @ p) @ trim_left s"
      using False by (metis append.assoc append_take_drop_id trim_left.simps)
    then show ?thesis ..
  qed
qed

lemma trim_end_suffix: "\<exists>p. r = p @ trim_end r"
proof (induction r rule: trim_end.induct)
  case (1 r)
  show ?case
  proof (cases "space_len_end r = 0")
    case True
    then show ?thesis by (simp add: trim_end.simps [of r])
  next
    case False
    then obtain p where "drop (space_len_end r) r = p @ trim_end (drop (space_len_end r) r)"
      using 1 by blast
    then have "r = (take (space_len_end r) r @ p) @ trim_end r"
      using False by (metis append.assoc append_take_drop_id trim_end.simps)
    then show ?thesis ..
  qed
qed

lemma space_len_trim_left [simp]: "space_len (trim_left s) = 0"
  by (induction s rule: trim_left.induct) (metis trim_left.simps)

lemma space_len_end_trim_end [simp]: "space_len_end (trim_end r) = 0"
  by (induction r rule: trim_end.induct) (metis trim_end.simps)

lemma TrimSpace_infix: "\<exists>p q. s = p @ TrimSpace s @ q"
proof -
  obtain p where p: "s = p @ trim_left s" using trim_left_suffix by blast
  obtain q where "rev (trim_left s) = q @ trim_end (rev (trim_left s))"
    using trim_end_suffix by blast
  then have "trim_left s = TrimSpace s @ rev q"
    by (metis TrimSpace_def rev_append rev_rev_ident)
  with p show ?thesis by metis
qed

lemma set_TrimSpace: "set (TrimSpace s) \<subseteq> set s"
proof -
  obtain p q where "s = p @ TrimSpace s @ q" using TrimSpace_infix by blast
  then have "set s = set p \<union> set (TrimSpace s) \<union> set q" by (metis Un_assoc set_append)
  then show ?thesis by blast
qed

lemma length_TrimSpace: "length (TrimSpace s) \<le> length s"
proof -
  obtain p q where "s = p @ TrimSpace s @ q" using TrimSpace_infix by blast
  then have "length s = length p + length (TrimSpace s) + length q"
    by (metis add.assoc length_append)
  then show ?thesis by simp
qed

definition trimmed :: "string \<Rightarrow> bool" where
  "trimmed s \<longleftrightarrow> space_len s = 0 \<and> space_len_end (rev s) = 0"

lemma TrimSpace_trimmed: "trimmed s \<Longrightarrow> TrimSpace s = s"
  by (simp add: trimmed_def TrimSpace_def trim_left.simps trim_end.simps)

lemma trimmed_TrimSpace [simp]: "trimmed (TrimSpace s)"
proof -
  obtain q where q: "rev (trim_left s) = q @ trim_end (rev (trim_left s))"
    using trim_end_suffix by blast
  then have "trim_left s = TrimSpace s @ rev q"
    by (metis TrimSpace_def rev_append rev_rev_ident)
  then have "TrimSpace s = take (length (TrimSpace s)) (trim_left s)"
    by (metis append_eq_conv_conj)
  then have "space_len (TrimSpace s) = 0"
    using space_len_take [of "length (TrimSpace s)" "trim_left s"] by fastforce
  then show ?thesis by (simp add: trimmed_def) (simp add: TrimSpace_def)
qed

lemma TrimSpace_idem [simp]: "TrimSpace (TrimSpace s) = TrimSpace s"
  by (simp add: TrimSpace_trimmed)

text \<open>A string whose first and last bytes are printable ASCII has nothing to trim.\<close>

definition graph :: "char \<Rightarrow> bool" where
  "graph c \<longleftrightarrow> 33 \<le> byte c \<and> byte c \<le> 126"

lemma space_len_graph: "graph a \<Longrightarrow> space_len (a # s) = 0"
  by (cases "a # s" rule: space_len.cases)
    (auto simp: graph_def space1_def space2_def space3_def)

lemma space_len_end_graph: "graph c \<Longrightarrow> space_len_end (c # s) = 0"
  by (cases "c # s" rule: space_len_end.cases)
    (auto simp: graph_def space1_def space2_def space3_def)

lemma trimmed_graph: "s \<noteq> [] \<Longrightarrow> graph (hd s) \<Longrightarrow> graph (last s) \<Longrightarrow> trimmed s"
proof -
  assume s: "s \<noteq> []" "graph (hd s)" "graph (last s)"
  have "space_len s = 0" using s space_len_graph [of "hd s" "tl s"] by simp
  moreover have "rev s = last s # rev (butlast s)"
    using s by simp
  then have "space_len_end (rev s) = 0"
    using s space_len_end_graph [of "last s" "rev (butlast s)"] by (simp only:)
  ultimately show ?thesis by (simp add: trimmed_def)
qed

section \<open>Lemmas on sorted sets and search\<close>

lemma set_sorted_set [simp]: "set (sorted_set xs) = set xs"
  by (simp add: sorted_set_def)

lemma distinct_sorted_set [simp]: "distinct (sorted_set xs)"
  by (simp add: sorted_set_def)

lemma sorted_sorted_set [simp]: "sorted (sorted_set xs)"
  by (simp add: sorted_set_def)

lemma sorted_set_eq: "set xs = set ys \<Longrightarrow> sorted_set xs = sorted_set ys"
  by (rule sorted_distinct_set_unique) auto

lemma sorted_set_fixed: "sorted xs \<Longrightarrow> distinct xs \<Longrightarrow> sorted_set xs = xs"
  by (rule sorted_distinct_set_unique) auto

lemma sorted_set_Nil_iff [simp]: "sorted_set xs = [] \<longleftrightarrow> xs = []"
  by (metis set_empty set_sorted_set)

lemma length_sorted_set: "length (sorted_set xs) \<le> length xs"
  by (simp add: sorted_set_def length_remdups_leq)

lemma search_bounds: "i \<le> j \<Longrightarrow> i \<le> search xs x i j \<and> search xs x i j \<le> j"
proof (induction xs x i j rule: search.induct)
  case (1 xs x i j)
  show ?case
  proof (cases "i < j")
    case True
    define h where "h = (i + j) div 2"
    have h: "i \<le> h" "h < j" using True by (auto simp: h_def)
    show ?thesis
    proof (cases "xs ! h < x")
      case True': True
      have "h + 1 \<le> search xs x (h + 1) j \<and> search xs x (h + 1) j \<le> j"
        using "1.IH"(1) [OF True h_def True'] h by simp
      then show ?thesis
        using True True' h by (simp add: search.simps [of xs x i j] h_def [symmetric])
    next
      case False
      have "i \<le> search xs x i h \<and> search xs x i h \<le> h"
        using "1.IH"(2) [OF True h_def False] h by simp
      then show ?thesis
        using True False h by (simp add: search.simps [of xs x i j] h_def [symmetric])
    qed
  next
    case False
    with "1.prems" have "i = j" by simp
    then show ?thesis by (simp add: search.simps [of xs x j j])
  qed
qed

text \<open>Everything before the result is below the target, everything from it on is not.\<close>

lemma search_splits:
  assumes "sorted xs" and "i \<le> j" and "j \<le> length xs"
    and "\<forall>k < i. xs ! k < x" and "\<forall>k. j \<le> k \<and> k < length xs \<longrightarrow> \<not> xs ! k < x"
  shows "(\<forall>k < search xs x i j. xs ! k < x) \<and>
         (\<forall>k. search xs x i j \<le> k \<and> k < length xs \<longrightarrow> \<not> xs ! k < x)"
  using assms
proof (induction xs x i j rule: search.induct)
  case (1 xs x i j)
  show ?case
  proof (cases "i < j")
    case True
    define h where "h = (i + j) div 2"
    have h: "i \<le> h" "h < j" using True by (auto simp: h_def)
    show ?thesis
    proof (cases "xs ! h < x")
      case True': True
      have low: "\<forall>k < h + 1. xs ! k < x"
      proof (intro allI impI)
        fix k assume "k < h + 1"
        then have "xs ! k \<le> xs ! h" using "1.prems" h by (intro sorted_nth_mono) auto
        with True' show "xs ! k < x" by simp
      qed
      have eq: "search xs x i j = search xs x (h + 1) j"
        using True True' by (simp add: search.simps [of xs x i j] h_def [symmetric])
      have "h + 1 \<le> j" using h by simp
      from "1.IH"(1) [OF True h_def True' "1.prems"(1) this "1.prems"(3) low "1.prems"(5)]
      show ?thesis unfolding eq .
    next
      case False
      have up: "\<forall>k. h \<le> k \<and> k < length xs \<longrightarrow> \<not> xs ! k < x"
      proof (intro allI impI)
        fix k assume "h \<le> k \<and> k < length xs"
        then have "xs ! h \<le> xs ! k" using "1.prems"(1) by (intro sorted_nth_mono) auto
        with False show "\<not> xs ! k < x" by simp
      qed
      have eq: "search xs x i j = search xs x i h"
        using True False by (simp add: search.simps [of xs x i j] h_def [symmetric])
      have "h \<le> length xs" using h "1.prems"(3) by simp
      from "1.IH"(2) [OF True h_def False "1.prems"(1) h(1) this "1.prems"(4) up]
      show ?thesis unfolding eq .
    qed
  next
    case False
    with "1.prems" have "i = j" by simp
    with "1.prems" show ?thesis by (simp add: search.simps [of xs x j j])
  qed
qed

lemma search_member:
  assumes "sorted xs"
  shows "(let k = search xs x 0 (length xs) in k < length xs \<and> xs ! k = x) \<longleftrightarrow> x \<in> set xs"
proof -
  define k where "k = search xs x 0 (length xs)"
  have splits: "(\<forall>i < k. xs ! i < x) \<and> (\<forall>i. k \<le> i \<and> i < length xs \<longrightarrow> \<not> xs ! i < x)"
    unfolding k_def by (rule search_splits) (use assms in auto)
  have "x \<in> set xs \<Longrightarrow> k < length xs \<and> xs ! k = x"
  proof -
    assume "x \<in> set xs"
    then obtain i where i: "i < length xs" "xs ! i = x" by (auto simp: in_set_conv_nth)
    have "k \<le> i" using splits i by (metis leI less_irrefl)
    then have "xs ! k \<le> x" using i sorted_nth_mono [OF assms, of k i] by simp
    moreover have "\<not> xs ! k < x" using splits i \<open>k \<le> i\<close> by simp
    ultimately show ?thesis using i \<open>k \<le> i\<close> by simp
  qed
  moreover have "k < length xs \<and> xs ! k = x \<Longrightarrow> x \<in> set xs" by auto
  ultimately show ?thesis unfolding k_def [symmetric] Let_def by blast
qed

section \<open>Maps used as sets\<close>

lemma set_update_distinct:
  "distinct (map fst al) \<Longrightarrow> set (AList.update k v al) = insert (k, v) {p \<in> set al. fst p \<noteq> k}"
  by (induction al) (auto simp: image_iff)

definition keyed :: "('a \<Rightarrow> 'k) \<Rightarrow> ('k \<times> 'a) list \<Rightarrow> bool" where
  "keyed key m \<longleftrightarrow> distinct (map fst m) \<and> (\<forall>p\<in>set m. fst p = key (snd p))"

lemma fold_update_keys:
  assumes "keyed key m"
    and "inj_on key (snd ` set m \<union> set ss)"
  defines "m' \<equiv> fold (\<lambda>s m. AList.update (key s) s m) ss m"
  shows "keyed key m' \<and> snd ` set m' = snd ` set m \<union> set ss"
  unfolding m'_def using assms(1,2)
proof (induction ss arbitrary: m)
  case (Cons s ss)
  let ?u = "AList.update (key s) s m"
  have set: "set ?u = insert (key s, s) {p \<in> set m. fst p \<noteq> key s}"
    using Cons.prems(1) by (simp add: keyed_def set_update_distinct)
  have inj: "inj_on key (snd ` set m \<union> set (s # ss))" by (rule Cons.prems(2))
  have snd: "snd ` set ?u = insert s (snd ` set m)"
  proof (intro equalityI subsetI)
    fix x assume "x \<in> insert s (snd ` set m)"
    then consider "x = s" | p where "p \<in> set m" "x = snd p" "x \<noteq> s" by blast
    then show "x \<in> snd ` set ?u"
    proof cases
      case 2
      then have "key x \<noteq> key s" using inj by (auto simp: inj_on_def)
      then have "fst p \<noteq> key s" using Cons.prems(1) 2 unfolding keyed_def by metis
      then show ?thesis using set 2 by auto
    qed (simp add: set)
  qed (auto simp: set)
  have "keyed key ?u" using Cons.prems(1) unfolding keyed_def set by (auto simp: distinct_update)
  moreover have "inj_on key (snd ` set ?u \<union> set ss)" using inj by (simp add: snd)
  ultimately show ?case using Cons.IH [of ?u] by (simp add: snd)
qed auto

lemma fold_update_values:
  assumes "inj_on key (set ss)"
  shows "distinct (map snd (fold (\<lambda>s m. AList.update (key s) s m) ss []))"
    and "set (map snd (fold (\<lambda>s m. AList.update (key s) s m) ss [])) = set ss"
proof -
  let ?m = "fold (\<lambda>s m. AList.update (key s) s m) ss []"
  have m: "keyed key ?m" "snd ` set ?m = set ss"
    using fold_update_keys [of key "[]" ss] assms by (simp_all add: keyed_def)
  have "map fst ?m = map key (map snd ?m)" using m(1) by (simp add: keyed_def)
  moreover have "distinct (map fst ?m)" using m(1) by (simp only: keyed_def)
  ultimately have "distinct (map key (map snd ?m))" by (simp only:)
  then show "distinct (map snd ?m)" unfolding distinct_map [of key] ..
  show "set (map snd ?m) = set ss" using m(2) by simp
qed

lemma sort_eq_sorted_set: "distinct xs \<Longrightarrow> set xs = set ys \<Longrightarrow> sort xs = sorted_set ys"
  by (simp add: sorted_set_def sorted_distinct_set_unique)

section \<open>Decimal text\<close>

text \<open>\<open>strconv.FormatUint\<close> and \<open>strconv.FormatInt\<close> in base 10.\<close>

fun FormatUint :: "nat \<Rightarrow> string" where
  "FormatUint n =
     (if n < 10 then [char_of (48 + n)] else FormatUint (n div 10) @ [char_of (48 + n mod 10)])"

declare FormatUint.simps [simp del]

definition FormatInt :: "int \<Rightarrow> string" where
  "FormatInt i = (if i < 0 then CHR ''-'' # FormatUint (nat (- i)) else FormatUint (nat i))"

definition decimal_value :: "string \<Rightarrow> nat" where
  "decimal_value s = foldl (\<lambda>a c. a * 10 + (byte c - 48)) 0 s"

lemma byte_digit: "d < 10 \<Longrightarrow> byte (char_of (48 + d) :: char) = 48 + d"
  by simp

lemma decimal_value_FormatUint [simp]: "decimal_value (FormatUint n) = n"
proof (induction n rule: FormatUint.induct)
  case (1 n)
  show ?case
  proof (cases "n < 10")
    case True
    then show ?thesis by (simp add: FormatUint.simps [of n] decimal_value_def)
  next
    case False
    have "decimal_value (FormatUint n) = decimal_value (FormatUint (n div 10)) * 10 + n mod 10"
      using False by (simp add: FormatUint.simps [of n] decimal_value_def)
    then show ?thesis using 1 False by simp
  qed
qed

lemma FormatUint_inj: "FormatUint n = FormatUint m \<longleftrightarrow> n = m"
  by (metis decimal_value_FormatUint)

lemma FormatUint_digits: "c \<in> set (FormatUint n) \<Longrightarrow> 48 \<le> byte c \<and> byte c \<le> 57"
proof (induction n rule: FormatUint.induct)
  case (1 n)
  show ?case
  proof (cases "n < 10")
    case True
    then show ?thesis using "1.prems" by (auto simp: FormatUint.simps [of n])
  next
    case False
    then show ?thesis using 1 by (auto simp: FormatUint.simps [of n])
  qed
qed

lemma FormatUint_not_minus: "FormatUint n \<noteq> CHR ''-'' # s"
proof
  assume "FormatUint n = CHR ''-'' # s"
  then have "CHR ''-'' \<in> set (FormatUint n)" by simp
  from FormatUint_digits [OF this] show False by simp
qed

lemma FormatInt_inj: "FormatInt i = FormatInt j \<longleftrightarrow> i = j"
  by (auto simp: FormatInt_def FormatUint_inj FormatUint_not_minus FormatUint_not_minus [symmetric] split: if_splits)

section \<open>Framed encodings\<close>

text \<open>
  An encoding whose code words can be told apart at the front of a longer string. The digests
  of the queue and policy packages hash a concatenation of such words; the client lemma is that
  the concatenation determines the words.
\<close>

locale framed =
  fixes enc :: "'a \<Rightarrow> string" and ok :: "'a \<Rightarrow> bool"
  assumes enc_front: "ok x \<Longrightarrow> ok y \<Longrightarrow> enc x @ r = enc y @ s \<Longrightarrow> x = y \<and> r = s"
    and enc_nonempty: "ok x \<Longrightarrow> enc x \<noteq> []"
begin

lemma concat_inj:
  "list_all ok xs \<Longrightarrow> list_all ok ys \<Longrightarrow>
   concat (map enc xs) = concat (map enc ys) \<Longrightarrow> xs = ys"
proof (induction xs arbitrary: ys)
  case Nil
  then show ?case by (cases ys) (auto simp: enc_nonempty)
next
  case (Cons x xs)
  then obtain y ys' where ys: "ys = y # ys'" by (cases ys) (auto simp: enc_nonempty)
  with Cons.prems have "x = y \<and> concat (map enc xs) = concat (map enc ys')"
    using enc_front [of x y "concat (map enc xs)" "concat (map enc ys')"] by simp
  with Cons ys show ?case by simp
qed

end

section \<open>Transition systems with an invariant\<close>

locale invariant_system =
  fixes init :: "'s \<Rightarrow> bool" and step :: "'s \<Rightarrow> 's \<Rightarrow> bool" and inv :: "'s \<Rightarrow> bool"
  assumes init_inv: "init s \<Longrightarrow> inv s"
    and step_inv: "inv s \<Longrightarrow> step s t \<Longrightarrow> inv t"
begin

lemma run_inv: "step\<^sup>*\<^sup>* s t \<Longrightarrow> inv s \<Longrightarrow> inv t"
  by (induction rule: rtranclp_induct) (auto intro: step_inv)

lemma reachable_inv: "init s \<Longrightarrow> step\<^sup>*\<^sup>* s t \<Longrightarrow> inv t"
  using run_inv init_inv by blast

end

end
