(* ===== verification/Digest.thy ===== *)
theory Digest
  imports Go_Prelude
begin

text \<open>
  \<open>crypto/sha256\<close>, \<open>encoding/hex\<close> and \<open>encoding/binary\<close> as the packages use them, and the
  length-framed transcripts of \<^verbatim>\<open>digestStrings\<close>, \<^verbatim>\<open>digestSources\<close> and
  \<^verbatim>\<open>writePolicyStateDigest\<close>. SHA-256 is the full function of FIPS 180-4 on 32-bit words;
  no lemma relies on it being free of collisions. What is proved is that the transcript that is
  hashed determines the hashed values, so that two different inputs have the same digest only
  when SHA-256 itself collides on two different byte strings.
\<close>

unbundle bit_operations_syntax

section \<open>SHA-256\<close>

type_synonym w32 = "32 word"

definition rotr :: "nat \<Rightarrow> w32 \<Rightarrow> w32" where
  "rotr n x = drop_bit n x OR push_bit (32 - n) x"

text \<open>
  The constants of the standard: the first 32 bits of the fractional parts of the cube roots of
  the first 64 primes and of the square roots of the first eight. \<open>root_search\<close> finds the integer
  part of a root bit by bit.
\<close>

fun root_search :: "nat \<Rightarrow> nat \<Rightarrow> nat \<Rightarrow> nat \<Rightarrow> nat" where
  "root_search k n 0 r = r"
| "root_search k n (Suc b) r = root_search k n b (if (r + 2 ^ b) ^ k \<le> n then r + 2 ^ b else r)"

definition root_bits :: "nat \<Rightarrow> nat \<Rightarrow> w32" where
  "root_bits k p = of_nat (root_search k (p * 2 ^ (32 * k)) 38 0)"

definition sha_primes :: "nat list" where
  "sha_primes =
    [2, 3, 5, 7, 11, 13, 17, 19, 23, 29, 31, 37, 41, 43, 47, 53,
     59, 61, 67, 71, 73, 79, 83, 89, 97, 101, 103, 107, 109, 113, 127, 131,
     137, 139, 149, 151, 157, 163, 167, 173, 179, 181, 191, 193, 197, 199, 211, 223,
     227, 229, 233, 239, 241, 251, 257, 263, 269, 271, 277, 281, 283, 293, 307, 311]"

definition sha_K :: "w32 list" where
  "sha_K = map (root_bits 3) sha_primes"

definition sha_H0 :: "w32 \<times> w32 \<times> w32 \<times> w32 \<times> w32 \<times> w32 \<times> w32 \<times> w32" where
  "sha_H0 =
     (root_bits 2 2, root_bits 2 3, root_bits 2 5, root_bits 2 7,
      root_bits 2 11, root_bits 2 13, root_bits 2 17, root_bits 2 19)"

text \<open>The message schedule, extended one word at a time; the list holds the last 16 words first.\<close>

fun sha_extend :: "nat \<Rightarrow> w32 list \<Rightarrow> w32 list" where
  "sha_extend 0 ws = ws"
| "sha_extend (Suc n) ws =
     (let w15 = ws ! 14; w2 = ws ! 1;
          s0 = rotr 7 w15 XOR rotr 18 w15 XOR drop_bit 3 w15;
          s1 = rotr 17 w2 XOR rotr 19 w2 XOR drop_bit 10 w2
      in sha_extend n ((ws ! 15 + s0 + ws ! 6 + s1) # ws))"

type_synonym sha_state = "w32 \<times> w32 \<times> w32 \<times> w32 \<times> w32 \<times> w32 \<times> w32 \<times> w32"

definition sha_round :: "w32 \<times> w32 \<Rightarrow> sha_state \<Rightarrow> sha_state" where
  "sha_round kw hs =
     (let (k, w) = kw; (a, b, c, d, e, f, g, h) = hs;
          s1 = rotr 6 e XOR rotr 11 e XOR rotr 25 e;
          ch = (e AND f) XOR (NOT e AND g);
          t1 = h + s1 + ch + k + w;
          s0 = rotr 2 a XOR rotr 13 a XOR rotr 22 a;
          maj = (a AND b) XOR (a AND c) XOR (b AND c);
          t2 = s0 + maj
      in (t1 + t2, a, b, c, d + t1, e, f, g))"

definition sha_block :: "sha_state \<Rightarrow> w32 list \<Rightarrow> sha_state" where
  "sha_block hs block =
     (let (a, b, c, d, e, f, g, h) = hs;
          (a', b', c', d', e', f', g', h') =
            fold sha_round (zip sha_K (rev (sha_extend 48 (rev block)))) hs
      in (a + a', b + b', c + c', d + d', e + e', f + f', g + g', h + h'))"

definition be32 :: "w32 \<Rightarrow> string" where
  "be32 w = map (\<lambda>i. char_of (unat w div 256 ^ i)) [3, 2, 1, 0]"

fun words_of :: "string \<Rightarrow> w32 list" where
  "words_of (a # b # c # d # s) =
     word_of_nat (((byte a * 256 + byte b) * 256 + byte c) * 256 + byte d) # words_of s"
| "words_of s = []"

text \<open>\<open>binary.BigEndian.PutUint64\<close> of a length, a Go \<open>uint64\<close>.\<close>

definition be64 :: "nat \<Rightarrow> string" where
  "be64 n = map (\<lambda>i. char_of (n div 256 ^ i)) [7, 6, 5, 4, 3, 2, 1, 0]"

definition sha_pad :: "string \<Rightarrow> string" where
  "sha_pad m = m @ CHR 0x80 # replicate ((119 - length m mod 64) mod 64) (CHR 0x00) @ be64 (8 * length m)"

fun sha_blocks :: "nat \<Rightarrow> sha_state \<Rightarrow> w32 list \<Rightarrow> sha_state" where
  "sha_blocks 0 hs ws = hs"
| "sha_blocks (Suc n) hs ws = sha_blocks n (sha_block hs (take 16 ws)) (drop 16 ws)"

definition sha256 :: "string \<Rightarrow> string" where
  "sha256 m =
     (let p = sha_pad m;
          (a, b, c, d, e, f, g, h) = sha_blocks (length p div 64) sha_H0 (words_of p)
      in concat (map be32 [a, b, c, d, e, f, g, h]))"

section \<open>Hexadecimal text\<close>

definition hex_digit :: "nat \<Rightarrow> char" where
  "hex_digit n = (if n < 10 then char_of (48 + n) else char_of (87 + n))"

definition hex_encode :: "string \<Rightarrow> string" where
  "hex_encode s = concat (map (\<lambda>c. [hex_digit (byte c div 16), hex_digit (byte c mod 16)]) s)"

definition is_lower_hex :: "char \<Rightarrow> bool" where
  "is_lower_hex c \<longleftrightarrow> (48 \<le> byte c \<and> byte c \<le> 57) \<or> (97 \<le> byte c \<and> byte c \<le> 102)"

definition validLowerHexDigest :: "string \<Rightarrow> bool" where
  "validLowerHexDigest value \<longleftrightarrow> length value = 64 \<and> list_all is_lower_hex value"

text \<open>\<open>hex.DecodeString\<close>: pairs of digits of either case, an odd length is an error.\<close>

definition hex_value :: "char \<Rightarrow> nat option" where
  "hex_value c =
     (if 48 \<le> byte c \<and> byte c \<le> 57 then Some (byte c - 48)
      else if 97 \<le> byte c \<and> byte c \<le> 102 then Some (byte c - 87)
      else if 65 \<le> byte c \<and> byte c \<le> 70 then Some (byte c - 55)
      else None)"

fun hex_decode :: "string \<Rightarrow> string option" where
  "hex_decode [] = Some []"
| "hex_decode [c] = None"
| "hex_decode (a # b # s) =
     (case (hex_value a, hex_value b, hex_decode s) of
        (Some x, Some y, Some r) \<Rightarrow> Some (char_of (16 * x + y) # r)
      | _ \<Rightarrow> None)"

section \<open>Length-framed transcripts\<close>

definition frame :: "string \<Rightarrow> string" where
  "frame s = be64 (length s) @ s"

definition transcript :: "string list \<Rightarrow> string" where
  "transcript vs = concat (map frame vs)"

definition digestStrings :: "string list \<Rightarrow> string" where
  "digestStrings vs = hex_encode (sha256 (transcript vs))"

text \<open>A string that fits in the address space: its length is a \<open>uint64\<close>.\<close>

definition framable :: "string \<Rightarrow> bool" where
  "framable s \<longleftrightarrow> length s < 2 ^ 64"

section \<open>Lemmas\<close>

lemma length_be32 [simp]: "length (be32 w) = 4"
  by (simp add: be32_def)

lemma length_sha256 [simp]: "length (sha256 m) = 32"
  by (simp add: sha256_def Let_def split: prod.split)

lemma length_hex_encode [simp]: "length (hex_encode s) = 2 * length s"
  by (induction s) (simp_all add: hex_encode_def)

lemma hex_digit_lower: "n < 16 \<Longrightarrow> is_lower_hex (hex_digit n)"
  by (auto simp: hex_digit_def is_lower_hex_def)

lemma byte_div_16: "byte c div 16 < 16"
  using nat_of_char_less_256 [of c] by linarith

lemma list_all_hex_encode: "list_all is_lower_hex (hex_encode s)"
  by (induction s) (simp_all add: hex_encode_def hex_digit_lower byte_div_16)

lemma validLowerHexDigest_digest [simp]: "validLowerHexDigest (hex_encode (sha256 m))"
  by (simp add: validLowerHexDigest_def list_all_hex_encode)

lemma validLowerHexDigest_digestStrings [simp]: "validLowerHexDigest (digestStrings vs)"
  by (simp add: digestStrings_def)

lemma hex_value_hex_digit: "n < 16 \<Longrightarrow> hex_value (hex_digit n) = Some n"
  by (auto simp: hex_value_def hex_digit_def)

text \<open>Hexadecimal text round-trips.\<close>

lemma hex_decode_encode [simp]: "hex_decode (hex_encode s) = Some s"
proof (induction s)
  case Nil
  then show ?case by (simp add: hex_encode_def)
next
  case (Cons c s)
  have "16 * (byte c div 16) + byte c mod 16 = byte c" by simp
  then have "char_of (16 * (byte c div 16) + byte c mod 16) = c" by (simp only: char_of_char)
  with Cons show ?case
    by (simp add: hex_encode_def hex_value_hex_digit byte_div_16)
qed

lemma hex_encode_inj: "hex_encode s = hex_encode t \<Longrightarrow> s = t"
  by (metis hex_decode_encode option.inject)

text \<open>Big-endian lengths round-trip below \<open>2 ^ 64\<close>.\<close>

definition be_value :: "string \<Rightarrow> nat" where
  "be_value bs = foldl (\<lambda>a c. a * 256 + byte c) 0 bs"

fun be_digits :: "nat \<Rightarrow> nat \<Rightarrow> string" where
  "be_digits 0 n = []"
| "be_digits (Suc k) n = be_digits k (n div 256) @ [char_of n]"

lemma be_value_be_digits: "be_value (be_digits k n) = n mod 256 ^ k"
proof (induction k arbitrary: n)
  case 0
  then show ?case by (simp add: be_value_def)
next
  case (Suc k)
  have "n mod (256 * 256 ^ k) = 256 * (n div 256 mod 256 ^ k) + n mod 256"
    by (rule mod_mult2_eq)
  with Suc show ?case by (simp add: be_value_def mult.commute)
qed

lemma be64_digits: "be64 n = be_digits (Suc (Suc (Suc (Suc (Suc (Suc (Suc (Suc 0)))))))) n"
  by (simp add: be64_def div_mult2_eq [symmetric])

lemma be_value_be64: "n < 2 ^ 64 \<Longrightarrow> be_value (be64 n) = n"
  unfolding be64_digits be_value_be_digits by simp

lemma be64_inj: "be64 n = be64 m \<Longrightarrow> n < 2 ^ 64 \<Longrightarrow> m < 2 ^ 64 \<Longrightarrow> n = m"
  by (metis be_value_be64)

lemma length_be64 [simp]: "length (be64 n) = 8"
  by (simp add: be64_def)

lemma frame_front:
  assumes "framable x" "framable y" "frame x @ r = frame y @ s"
  shows "x = y \<and> r = s"
proof -
  have eq: "be64 (length x) @ x @ r = be64 (length y) @ y @ s"
    using assms(3) by (simp add: frame_def)
  then have "be64 (length x) = be64 (length y)" and rest: "x @ r = y @ s"
    by (simp_all add: append_eq_append_conv)
  then have "length x = length y"
    using be64_inj assms(1,2) by (simp add: framable_def)
  with rest show ?thesis by simp
qed

interpretation strings: framed frame framable
proof unfold_locales
  show "framable x \<Longrightarrow> framable y \<Longrightarrow> frame x @ r = frame y @ s \<Longrightarrow> x = y \<and> r = s"
    for x y r s by (rule frame_front)
  show "framable x \<Longrightarrow> frame x \<noteq> []" for x by (simp add: frame_def be64_def)
qed

text \<open>
  Two particular messages with one digest. Equal digests of different values always exhibit such a
  pair: the transcripts of the two values.
\<close>

definition collides :: "string \<Rightarrow> string \<Rightarrow> bool" where
  "collides a b \<longleftrightarrow> a \<noteq> b \<and> sha256 a = sha256 b"

lemma digest_eq: "hex_encode (sha256 a) = hex_encode (sha256 b) \<longleftrightarrow> a = b \<or> collides a b"
  by (auto simp: collides_def dest: hex_encode_inj)

lemma digestStrings_binds:
  assumes "list_all framable xs" "list_all framable ys" "digestStrings xs = digestStrings ys"
  shows "xs = ys \<or> collides (transcript xs) (transcript ys)"
  using assms digest_eq strings.concat_inj
  unfolding digestStrings_def transcript_def by blast

end
