(* ===== verification/Policy.thy ===== *)
theory Policy
  imports Digest
begin

text \<open>
  The policy core: \<^verbatim>\<open>internal/outboundpolicy/policy.go\<close>, \<^verbatim>\<open>authority.go\<close> and
  \<^verbatim>\<open>automatic.go\<close>, and the address canonicalisation of \<^verbatim>\<open>queue.go\<close> that everything
  else is built on. \<open>Evaluate\<close> is the decision function; \<open>recipient_admissible\<close> is its
  specification, stated over the set of governing domains.
\<close>

section \<open>Code outside the repository\<close>

text \<open>
  \<open>to_ascii\<close> is the lookup profile of \<open>golang.org/x/net/idna\<close> (\<open>None\<close> for an error).
  \<open>collate\<close> is the order PostgreSQL's \<open>ORDER BY\<close> uses on a text column, and \<open>cntrl\<close> whether a text
  matches the regular expression \<open>[[:cntrl:]]\<close>; both depend on the locale of the database.
\<close>

record external =
  to_ascii :: "string \<Rightarrow> string option"
  collate :: "string \<Rightarrow> string \<Rightarrow> bool"
  cntrl :: "string \<Rightarrow> bool"

subsection \<open>The IDNA lookup profile\<close>

text \<open>
  What the code relies on of \<open>golang.org/x/net/idna\<close>: the A-label form is in lower case and made of
  letters, digits, hyphens and dots (strict domain names), within the 253 bytes of a DNS name; mapping it
  again changes nothing; and a name keeps its form when the dot of the root is left out.
\<close>

definition ldh_dot :: "char \<Rightarrow> bool" where
  "ldh_dot c \<longleftrightarrow>
     48 \<le> byte c \<and> byte c \<le> 57 \<or> 65 \<le> byte c \<and> byte c \<le> 90 \<or> 97 \<le> byte c \<and> byte c \<le> 122
     \<or> c = CHR ''-'' \<or> c = CHR ''.''"

definition idna_lookup :: "external \<Rightarrow> bool" where
  "idna_lookup X \<longleftrightarrow>
     (\<forall>s a. to_ascii X s = Some a \<longrightarrow>
        list_all ldh_dot a \<and> ToLower a = a \<and> to_ascii X a = Some a
        \<and> length (TrimSuffix a ''.'') \<le> 253) \<and>
     (\<forall>s. to_ascii X (s @ ''.'') = Some (s @ ''.'') \<longrightarrow> s \<noteq> [] \<longrightarrow> to_ascii X s = Some s)"

text \<open>A concrete profile on ASCII names, with the bytewise collation, for witnesses.\<close>

definition ascii_external :: external where
  "ascii_external =
     \<lparr>to_ascii = (\<lambda>s. if s \<noteq> [] \<and> length s \<le> 253 \<and> list_all ldh_dot s then Some (ToLower s) else None),
      collate = (\<le>), cntrl = has_control\<rparr>"

section \<open>Closed vocabularies\<close>

type_synonym Scope = string
type_synonym Stage = string
type_synonym Action = string
type_synonym Reason = string

abbreviation ScopeUnrestricted :: Scope where "ScopeUnrestricted \<equiv> ''unrestricted''"
abbreviation ScopeSameDomainOnly :: Scope where "ScopeSameDomainOnly \<equiv> ''same_domain_only''"

abbreviation StageSubmission :: Stage where "StageSubmission \<equiv> ''submission''"
abbreviation StageTransport :: Stage where "StageTransport \<equiv> ''transport''"

abbreviation ActionOK :: Action where "ActionOK \<equiv> ''ok''"
abbreviation ActionReject :: Action where "ActionReject \<equiv> ''reject''"
abbreviation ActionDefer :: Action where "ActionDefer \<equiv> ''defer''"

abbreviation ReasonUnrestricted :: Reason where
  "ReasonUnrestricted \<equiv> ''outbound_scope_unrestricted''"
abbreviation ReasonSameDomain :: Reason where
  "ReasonSameDomain \<equiv> ''same_domain''"
abbreviation ReasonRecipientForbidden :: Reason where
  "ReasonRecipientForbidden \<equiv> ''recipient_domain_forbidden''"
abbreviation ReasonCrossDomainConflict :: Reason where
  "ReasonCrossDomainConflict \<equiv> ''cross_domain_policy_conflict''"
abbreviation ReasonPolicyHold :: Reason where
  "ReasonPolicyHold \<equiv> ''recipient_domain_policy_hold''"
abbreviation ReasonUnavailable :: Reason where
  "ReasonUnavailable \<equiv> ''outbound_policy_unavailable''"

type_synonym revisions = "(string \<times> u64) list"

record GoverningDomain =
  gd_domain :: string
  gd_scope :: Scope
  gd_revision :: u64

record Request =
  rq_stage :: Stage
  rq_queue_id :: string
  rq_recipient :: string
  rq_governing :: "GoverningDomain list"

record Decision =
  dec_action :: Action
  dec_reason :: Reason
  dec_revisions :: revisions

definition maxEnvelopeRecipientBytes :: nat where "maxEnvelopeRecipientBytes = 254"
definition maxGoverningDomains :: nat where "maxGoverningDomains = 64"
definition maxPostfixQueueIDBytes :: nat where "maxPostfixQueueIDBytes = 100"

lemmas policy_limits [go_simps] =
  maxEnvelopeRecipientBytes_def maxGoverningDomains_def maxPostfixQueueIDBytes_def

section \<open>Operations\<close>

definition NormalizeDomain :: "external \<Rightarrow> string \<Rightarrow> string result" where
  "NormalizeDomain X raw0 =
     (let raw = TrimSpace raw0 in
      if raw = [] then Inl (Err ''domain required'')
      else case to_ascii X raw of
        None \<Rightarrow> Inl (Err ''invalid domain'')
      | Some ascii0 \<Rightarrow>
          let ascii1 = ToLower ascii0;
              ascii = (if HasSuffix ascii1 ''.'' then TrimSuffix ascii1 ''.'' else ascii1)
          in if ascii = [] \<or> HasPrefix ascii ''.'' \<or> HasSuffix ascii ''.'' \<or> Contains ascii ''..''
             then Inl (Err ''invalid domain'')
             else Inr ascii)"

definition recipientDomain :: "external \<Rightarrow> string \<Rightarrow> string result" where
  "recipientDomain X raw =
     (let trimmed = TrimSpace raw in
      if length trimmed = 0 \<or> length trimmed > maxEnvelopeRecipientBytes
      then Inl (Err ''invalid envelope recipient'')
      else case split_last CHR ''@'' trimmed of
        None \<Rightarrow> Inl (Err ''invalid envelope recipient'')
      | Some (local, rest) \<Rightarrow>
          if local = [] \<or> rest = [] then Inl (Err ''invalid envelope recipient'')
          else case NormalizeDomain X rest of
            Inl _ \<Rightarrow> Inl (Err ''invalid envelope recipient'')
          | Inr domain \<Rightarrow>
              if plain_address (local @ ''@'' @ domain) then Inr domain
              else Inl (Err ''invalid envelope recipient''))"

definition long_queue_alphabet :: string where
  "long_queue_alphabet = ''0123456789BCDFGHJKLMNPQRSTVWXYZbcdfghjklmnpqrstvwxyz''"

text \<open>The loop of \<open>validLongQueueID\<close> from index \<open>i\<close> on, \<open>n\<close> the length of the whole ID.\<close>

fun queueIDLoop :: "nat \<Rightarrow> string \<Rightarrow> nat \<Rightarrow> bool \<Rightarrow> bool" where
  "queueIDLoop n [] i separator = separator"
| "queueIDLoop n (c # s) i separator =
     (if c \<notin> set long_queue_alphabet then False
      else queueIDLoop n s (i + 1)
             (if c = CHR ''z'' \<and> i \<ge> 10 \<and> i < n - 1 then True else separator))"

definition validLongQueueID :: "string \<Rightarrow> bool" where
  "validLongQueueID queueID =
     (if length queueID < 12 \<or> length queueID > maxPostfixQueueIDBytes then False
      else queueIDLoop (length queueID) queueID 0 False)"

definition validScope :: "Scope \<Rightarrow> bool" where
  "validScope scope \<longleftrightarrow> scope = ScopeUnrestricted \<or> scope = ScopeSameDomainOnly"

text \<open>
  The loop of \<open>Evaluate\<close> over the governing domains; \<open>None\<close> is its early return of a deferral.
\<close>

fun collectGoverning ::
  "external \<Rightarrow> GoverningDomain list \<Rightarrow> (string \<times> Scope \<times> u64) list \<Rightarrow> revisions \<Rightarrow> revisions option"
where
  "collectGoverning X [] authoritative restricted = Some restricted"
| "collectGoverning X (g # gs) authoritative restricted =
     (case NormalizeDomain X (gd_domain g) of
        Inl _ \<Rightarrow> None
      | Inr domain \<Rightarrow>
          if gd_revision g = 0 \<or> \<not> validScope (gd_scope g) then None
          else case map_of authoritative domain of
            Some prior \<Rightarrow>
              if prior \<noteq> (gd_scope g, gd_revision g) then None
              else collectGoverning X gs authoritative restricted
          | None \<Rightarrow>
              collectGoverning X gs
                (AList.update domain (gd_scope g, gd_revision g) authoritative)
                (if gd_scope g = ScopeSameDomainOnly
                 then AList.update domain (gd_revision g) restricted
                 else restricted))"

definition deferUnavailable :: Decision where
  "deferUnavailable =
     \<lparr>dec_action = ActionDefer, dec_reason = ReasonUnavailable, dec_revisions = []\<rparr>"

definition Evaluate :: "external \<Rightarrow> Request \<Rightarrow> Decision" where
  "Evaluate X req =
     (if rq_stage req \<noteq> StageSubmission \<and> rq_stage req \<noteq> StageTransport then deferUnavailable
      else if rq_stage req = StageTransport \<and> \<not> validLongQueueID (rq_queue_id req)
      then deferUnavailable
      else if length (rq_governing req) = 0 \<or> length (rq_governing req) > maxGoverningDomains
      then deferUnavailable
      else case recipientDomain X (rq_recipient req) of
        Inl _ \<Rightarrow> deferUnavailable
      | Inr recipient \<Rightarrow>
         (case collectGoverning X (rq_governing req) [] [] of
            None \<Rightarrow> deferUnavailable
          | Some restricted \<Rightarrow>
              if length restricted = 0
              then \<lparr>dec_action = ActionOK, dec_reason = ReasonUnrestricted, dec_revisions = []\<rparr>
              else if length restricted > 1 then
                (if rq_stage req = StageTransport
                 then \<lparr>dec_action = ActionDefer, dec_reason = ReasonPolicyHold,
                       dec_revisions = restricted\<rparr>
                 else \<lparr>dec_action = ActionReject, dec_reason = ReasonCrossDomainConflict,
                       dec_revisions = restricted\<rparr>)
              else if list_ex (\<lambda>(domain, _). recipient = domain) restricted
              then \<lparr>dec_action = ActionOK, dec_reason = ReasonSameDomain,
                    dec_revisions = restricted\<rparr>
              else if rq_stage req = StageTransport
              then \<lparr>dec_action = ActionDefer, dec_reason = ReasonPolicyHold,
                    dec_revisions = restricted\<rparr>
              else \<lparr>dec_action = ActionReject, dec_reason = ReasonRecipientForbidden,
                    dec_revisions = restricted\<rparr>))"

text \<open>\<open>normalizeQueueRecipient\<close> of \<^verbatim>\<open>queue.go\<close>: the canonical address and its domain.\<close>

definition normalizeQueueRecipient :: "external \<Rightarrow> string \<Rightarrow> (string \<times> string) result" where
  "normalizeQueueRecipient X raw =
     (case recipientDomain X raw of
        Inl _ \<Rightarrow> Inl (Err ''invalid queue recipient'')
      | Inr domain \<Rightarrow>
          (case split_last CHR ''@'' (TrimSpace raw) of
             None \<Rightarrow> Inr (domain, domain)
           | Some (local, _) \<Rightarrow> Inr (local @ ''@'' @ domain, domain)))"

definition AuthenticatedIdentity :: "string \<Rightarrow> string \<times> string" where
  "AuthenticatedIdentity identity =
     (if HasPrefix identity ''system:'' then ([], identity) else (identity, []))"

subsection \<open>Automatic mail\<close>

type_synonym AutomaticKind = string

record AutomaticOutcome =
  ao_disposition :: string
  ao_generate_bounce :: bool

definition validAutomaticKind :: "AutomaticKind \<Rightarrow> bool" where
  "validAutomaticKind kind \<longleftrightarrow>
     kind = ''notification'' \<or> kind = ''autoresponder'' \<or> kind = ''dsn'' \<or> kind = ''bounce''"

definition ClassifyAutomaticDecision ::
  "AutomaticKind \<Rightarrow> Decision \<Rightarrow> go_error option \<Rightarrow> AutomaticOutcome result"
where
  "ClassifyAutomaticDecision kind decision policyErr =
     (if \<not> validAutomaticKind kind then Inl (Err ''invalid automatic mail kind'')
      else if policyErr \<noteq> None \<or> dec_action decision = ActionDefer
      then Inr \<lparr>ao_disposition = ''retry'', ao_generate_bounce = False\<rparr>
      else if dec_action decision = ActionReject
      then Inr \<lparr>ao_disposition = ''policy_blocked'', ao_generate_bounce = False\<rparr>
      else if dec_action decision \<noteq> ActionOK
      then Inr \<lparr>ao_disposition = ''retry'', ao_generate_bounce = False\<rparr>
      else Inr \<lparr>ao_disposition = ''admitted'', ao_generate_bounce = False\<rparr>)"

section \<open>The specification of a decision\<close>

text \<open>
  What the governing domains of a request say, as sets: each is a valid domain with a valid scope
  and a revision, and two entries of one domain agree. \<open>restricted_domains\<close> are the domains that
  confine the message to themselves.
\<close>

definition governing_ok :: "external \<Rightarrow> GoverningDomain \<Rightarrow> bool" where
  "governing_ok X g \<longleftrightarrow>
     (\<exists>d. NormalizeDomain X (gd_domain g) = Inr d) \<and> gd_revision g \<noteq> 0 \<and> validScope (gd_scope g)"

definition authority_ok :: "external \<Rightarrow> GoverningDomain set \<Rightarrow> bool" where
  "authority_ok X G \<longleftrightarrow>
     (\<forall>g\<in>G. governing_ok X g) \<and>
     (\<forall>g\<in>G. \<forall>h\<in>G. NormalizeDomain X (gd_domain g) = NormalizeDomain X (gd_domain h) \<longrightarrow>
        gd_scope g = gd_scope h \<and> gd_revision g = gd_revision h)"

definition restricted_domains :: "external \<Rightarrow> GoverningDomain set \<Rightarrow> string set" where
  "restricted_domains X G =
     {d. \<exists>g\<in>G. NormalizeDomain X (gd_domain g) = Inr d \<and> gd_scope g = ScopeSameDomainOnly}"

definition request_ok :: "external \<Rightarrow> Request \<Rightarrow> bool" where
  "request_ok X req \<longleftrightarrow>
     (rq_stage req = StageSubmission \<or>
      rq_stage req = StageTransport \<and> validLongQueueID (rq_queue_id req)) \<and>
     rq_governing req \<noteq> [] \<and> length (rq_governing req) \<le> maxGoverningDomains \<and>
     authority_ok X (set (rq_governing req)) \<and>
     (\<exists>d. recipientDomain X (rq_recipient req) = Inr d)"

definition spec_verdict :: "external \<Rightarrow> Request \<Rightarrow> Action \<times> Reason" where
  "spec_verdict X req =
     (let R = restricted_domains X (set (rq_governing req)) in
      if \<not> request_ok X req then (ActionDefer, ReasonUnavailable)
      else if R = {} then (ActionOK, ReasonUnrestricted)
      else if R = {projr (recipientDomain X (rq_recipient req))} then (ActionOK, ReasonSameDomain)
      else if rq_stage req = StageTransport then (ActionDefer, ReasonPolicyHold)
      else if (\<exists>d. R = {d}) then (ActionReject, ReasonRecipientForbidden)
      else (ActionReject, ReasonCrossDomainConflict))"

section \<open>Lemmas\<close>

subsection \<open>The loop over the governing domains\<close>

text \<open>
  \<open>A\<close> is the scope and revision the entries give each domain. The loop succeeds exactly when such an \<open>A\<close>
  exists, and returns its restricted part.
\<close>

definition entry_of :: "external \<Rightarrow> (string \<rightharpoonup> Scope \<times> u64) \<Rightarrow> GoverningDomain \<Rightarrow> bool" where
  "entry_of X A g \<longleftrightarrow>
     (\<exists>d. NormalizeDomain X (gd_domain g) = Inr d \<and> A d = Some (gd_scope g, gd_revision g))
     \<and> gd_revision g \<noteq> 0 \<and> validScope (gd_scope g)"

definition restricted_part :: "(string \<rightharpoonup> Scope \<times> u64) \<Rightarrow> string \<rightharpoonup> u64" where
  "restricted_part A d =
     (case A d of Some (s, v) \<Rightarrow> if s = ScopeSameDomainOnly then Some v else None | None \<Rightarrow> None)"

definition domain_of :: "external \<Rightarrow> GoverningDomain \<Rightarrow> string" where
  "domain_of X g = projr (NormalizeDomain X (gd_domain g))"

lemma restricted_part_update:
  "restricted_part (A(d \<mapsto> (s, v))) =
     (if s = ScopeSameDomainOnly then (restricted_part A)(d \<mapsto> v) else (restricted_part A)(d := None))"
  by (auto simp: restricted_part_def fun_eq_iff)

lemma restricted_part_None: "A d = None \<Longrightarrow> (restricted_part A)(d := None) = restricted_part A"
  by (auto simp: restricted_part_def fun_eq_iff)

lemma collectGoverning_complete:
  assumes "\<forall>g\<in>set gs. entry_of X A g" and "map_of auth \<subseteq>\<^sub>m A"
  shows "\<exists>r. collectGoverning X gs auth restr = Some r"
  using assms
proof (induction X gs auth restr rule: collectGoverning.induct)
  case (2 X g gs auth restr)
  from "2.prems" obtain d where d: "NormalizeDomain X (gd_domain g) = Inr d"
    and A: "A d = Some (gd_scope g, gd_revision g)"
    and ok: "gd_revision g \<noteq> 0" "validScope (gd_scope g)"
    by (auto simp: entry_of_def)
  show ?case
  proof (cases "map_of auth d")
    case None
    have "map_of (AList.update d (gd_scope g, gd_revision g) auth) \<subseteq>\<^sub>m A"
      using "2.prems"(2) A by (auto simp: update_conv' map_le_def)
    then show ?thesis using 2 d ok None by simp
  next
    case (Some p)
    then have "p = (gd_scope g, gd_revision g)"
      using "2.prems"(2) A by (force simp: map_le_def dom_def)
    then show ?thesis using 2 d ok Some by simp
  qed
qed simp

lemma collectGoverning_sound:
  assumes "collectGoverning X gs auth restr = Some r"
    and "map_of restr = restricted_part (map_of auth)" and "distinct (map fst restr)"
  shows "\<exists>A. (\<forall>g\<in>set gs. entry_of X A g) \<and> map_of auth \<subseteq>\<^sub>m A
           \<and> dom A = dom (map_of auth) \<union> domain_of X ` set gs
           \<and> map_of r = restricted_part A \<and> distinct (map fst r)"
  using assms
proof (induction X gs auth restr rule: collectGoverning.induct)
  case (1 X auth restr)
  then show ?case by (intro exI [of _ "map_of auth"]) auto
next
  case (2 X g gs auth restr)
  from "2.prems"(1) obtain d where d: "NormalizeDomain X (gd_domain g) = Inr d"
    and ok: "gd_revision g \<noteq> 0" "validScope (gd_scope g)"
    by (auto split: sum.splits if_splits)
  have dom: "domain_of X g = d" using d by (simp add: domain_of_def)
  show ?case
  proof (cases "map_of auth d")
    case None
    let ?auth = "AList.update d (gd_scope g, gd_revision g) auth"
    let ?restr = "if gd_scope g = ScopeSameDomainOnly
                  then AList.update d (gd_revision g) restr else restr"
    have "map_of ?restr = restricted_part (map_of ?auth)"
      using "2.prems"(2) None
      by (simp add: update_conv' restricted_part_update restricted_part_None)
    moreover have "distinct (map fst ?restr)"
      using "2.prems"(3) by (simp add: distinct_update)
    moreover have "collectGoverning X gs ?auth ?restr = Some r"
      using "2.prems"(1) d ok None by simp
    ultimately obtain A where A: "\<forall>h\<in>set gs. entry_of X A h" "map_of ?auth \<subseteq>\<^sub>m A"
      "dom A = dom (map_of ?auth) \<union> domain_of X ` set gs"
      "map_of r = restricted_part A" "distinct (map fst r)"
      using "2.IH"(1) d ok None by auto
    have Ad: "A d = Some (gd_scope g, gd_revision g)"
      using A(2) by (simp add: map_le_def update_conv')
    have le: "map_of auth \<subseteq>\<^sub>m A"
      using A(2) None by (auto simp: map_le_def update_conv' dom_def split: if_splits)
    have "entry_of X A g" using d ok Ad by (auto simp: entry_of_def)
    then show ?thesis using A le dom by (intro exI [of _ A]) (auto simp: update_conv')
  next
    case (Some p)
    then have p: "p = (gd_scope g, gd_revision g)" and r: "collectGoverning X gs auth restr = Some r"
      using "2.prems"(1) d ok by (auto split: if_splits)
    have g: "\<not> (gd_revision g = 0 \<or> \<not> validScope (gd_scope g))"
      and np: "\<not> p \<noteq> (gd_scope g, gd_revision g)" using ok p by simp_all
    obtain A where A: "\<forall>h\<in>set gs. entry_of X A h" "map_of auth \<subseteq>\<^sub>m A"
      "dom A = dom (map_of auth) \<union> domain_of X ` set gs"
      "map_of r = restricted_part A" "distinct (map fst r)"
      using "2.IH"(2) [OF d g Some np r "2.prems"(2,3)] by (elim exE conjE)
    have "A d = Some p" using A(2) Some by (force simp: map_le_def dom_def)
    then have "entry_of X A g" using d ok p by (auto simp: entry_of_def)
    then show ?thesis using A Some dom by (intro exI [of _ A]) auto
  qed
qed

lemma entries_exist_iff: "(\<exists>A. \<forall>g\<in>G. entry_of X A g) \<longleftrightarrow> authority_ok X G"
proof
  assume "\<exists>A. \<forall>g\<in>G. entry_of X A g"
  then obtain A where A: "\<And>g. g \<in> G \<Longrightarrow> entry_of X A g" by blast
  have "gd_scope g = gd_scope h \<and> gd_revision g = gd_revision h"
    if "g \<in> G" "h \<in> G" "NormalizeDomain X (gd_domain g) = NormalizeDomain X (gd_domain h)" for g h
    using A [OF that(1)] A [OF that(2)] that(3) by (auto simp: entry_of_def)
  moreover have "governing_ok X g" if "g \<in> G" for g
    using A [OF that] by (auto simp: entry_of_def governing_ok_def)
  ultimately show "authority_ok X G" unfolding authority_ok_def by blast
next
  assume ok: "authority_ok X G"
  define A where "A d = (if \<exists>g\<in>G. NormalizeDomain X (gd_domain g) = Inr d
     then Some (let g = SOME g. g \<in> G \<and> NormalizeDomain X (gd_domain g) = Inr d
                in (gd_scope g, gd_revision g)) else None)" for d
  have "entry_of X A g" if g: "g \<in> G" for g
  proof -
    obtain d where d: "NormalizeDomain X (gd_domain g) = Inr d"
      using ok g unfolding authority_ok_def governing_ok_def by blast
    define h where "h = (SOME h. h \<in> G \<and> NormalizeDomain X (gd_domain h) = Inr d)"
    have h: "h \<in> G \<and> NormalizeDomain X (gd_domain h) = Inr d"
      unfolding h_def by (rule someI [of _ g]) (simp add: g d)
    have "gd_scope h = gd_scope g \<and> gd_revision h = gd_revision g"
      using ok g d h unfolding authority_ok_def by metis
    moreover have "A d = Some (gd_scope h, gd_revision h)"
      using g d unfolding A_def h_def [symmetric] Let_def by auto
    ultimately have "A d = Some (gd_scope g, gd_revision g)" by simp
    moreover have "governing_ok X g" using ok g unfolding authority_ok_def by blast
    ultimately show ?thesis using d unfolding entry_of_def governing_ok_def by blast
  qed
  then show "\<exists>A. \<forall>g\<in>G. entry_of X A g" by blast
qed

lemma authority_okD:
  assumes "authority_ok X G" and "g \<in> G"
  shows "NormalizeDomain X (gd_domain g) = Inr (domain_of X g)"
    and "gd_revision g \<noteq> 0" and "validScope (gd_scope g)"
proof -
  have "governing_ok X g" using assms unfolding authority_ok_def by blast
  then show "NormalizeDomain X (gd_domain g) = Inr (domain_of X g)"
    and "gd_revision g \<noteq> 0" and "validScope (gd_scope g)"
    by (auto simp: governing_ok_def domain_of_def)
qed

lemma restricted_domains_iff:
  assumes "authority_ok X G"
  shows "d \<in> restricted_domains X G \<longleftrightarrow>
     (\<exists>g\<in>G. domain_of X g = d \<and> gd_scope g = ScopeSameDomainOnly)"
  unfolding restricted_domains_def using authority_okD(1) [OF assms] by auto

lemma collectGoverning_sound_init:
  assumes "collectGoverning X gs [] [] = Some r"
  shows "\<exists>A. (\<forall>g\<in>set gs. entry_of X A g) \<and> dom A = domain_of X ` set gs
           \<and> map_of r = restricted_part A \<and> distinct (map fst r)"
  using collectGoverning_sound [OF assms] by (auto simp: restricted_part_def fun_eq_iff)

lemma collectGoverning_None:
  assumes "\<not> authority_ok X (set gs)"
  shows "collectGoverning X gs [] [] = None"
proof (cases "collectGoverning X gs [] []")
  case (Some r)
  from collectGoverning_sound_init [OF this] have "authority_ok X (set gs)"
    using entries_exist_iff by blast
  with assms show ?thesis by blast
qed

text \<open>What the loop collects for valid authority: the restricted domains and their revisions.\<close>

definition revisions_of :: "external \<Rightarrow> GoverningDomain set \<Rightarrow> revisions \<Rightarrow> bool" where
  "revisions_of X G r \<longleftrightarrow>
     distinct (map fst r) \<and> fst ` set r = restricted_domains X G \<and>
     (\<forall>g\<in>G. gd_scope g = ScopeSameDomainOnly \<longrightarrow> map_of r (domain_of X g) = Some (gd_revision g))"

lemma collectGoverning_Some:
  assumes ok: "authority_ok X (set gs)"
  shows "\<exists>r. collectGoverning X gs [] [] = Some r \<and> revisions_of X (set gs) r"
proof -
  obtain B where "\<forall>g\<in>set gs. entry_of X B g" using ok entries_exist_iff by blast
  then obtain r where r: "collectGoverning X gs [] [] = Some r"
    using collectGoverning_complete [of gs X B "[]" "[]"] by auto
  from collectGoverning_sound_init [OF this] obtain A where
    A: "\<forall>g\<in>set gs. entry_of X A g" and dom: "dom A = domain_of X ` set gs"
    and mr: "map_of r = restricted_part A" and dist: "distinct (map fst r)"
    by blast
  have ent: "A (domain_of X g) = Some (gd_scope g, gd_revision g)" if "g \<in> set gs" for g
    using A that by (auto simp: entry_of_def domain_of_def)
  have "d \<in> dom (restricted_part A) \<longleftrightarrow> d \<in> restricted_domains X (set gs)" for d
  proof -
    have "d \<in> dom (restricted_part A) \<longleftrightarrow> (\<exists>v. A d = Some (ScopeSameDomainOnly, v))"
      by (auto simp: restricted_part_def split: option.splits if_splits)
    also have "\<dots> \<longleftrightarrow> (\<exists>g\<in>set gs. domain_of X g = d \<and> gd_scope g = ScopeSameDomainOnly)"
    proof
      assume "\<exists>v. A d = Some (ScopeSameDomainOnly, v)"
      then obtain v where v: "A d = Some (ScopeSameDomainOnly, v)" ..
      then obtain g where "g \<in> set gs" "d = domain_of X g" using dom by auto
      then show "\<exists>g\<in>set gs. domain_of X g = d \<and> gd_scope g = ScopeSameDomainOnly"
        using v ent [of g] by auto
    qed (use ent in auto)
    finally show ?thesis using restricted_domains_iff [OF ok] by simp
  qed
  then have "fst ` set r = restricted_domains X (set gs)"
    using mr by (simp add: set_eq_iff flip: dom_map_of_conv_image_fst)
  moreover have "map_of r (domain_of X g) = Some (gd_revision g)"
    if "g \<in> set gs" "gd_scope g = ScopeSameDomainOnly" for g
    using mr ent [OF that(1)] that(2) by (simp add: restricted_part_def)
  ultimately show ?thesis using r dist unfolding revisions_of_def by blast
qed

subsection \<open>Evaluate\<close>

lemma Evaluate_unavailable:
  assumes "\<not> request_ok X req"
  shows "Evaluate X req = deferUnavailable"
  using assms collectGoverning_None [of X "rq_governing req"]
  unfolding request_ok_def Evaluate_def by (auto split: sum.splits option.splits)

definition outcome :: "Stage \<Rightarrow> string \<Rightarrow> revisions \<Rightarrow> Decision" where
  "outcome stage d r =
     (if r = [] then \<lparr>dec_action = ActionOK, dec_reason = ReasonUnrestricted, dec_revisions = []\<rparr>
      else if map fst r = [d]
      then \<lparr>dec_action = ActionOK, dec_reason = ReasonSameDomain, dec_revisions = r\<rparr>
      else if stage = StageTransport
      then \<lparr>dec_action = ActionDefer, dec_reason = ReasonPolicyHold, dec_revisions = r\<rparr>
      else \<lparr>dec_action = ActionReject,
            dec_reason = if length r = 1 then ReasonRecipientForbidden else ReasonCrossDomainConflict,
            dec_revisions = r\<rparr>)"

lemma Evaluate_outcome:
  assumes ok: "request_ok X req"
  shows "\<exists>r d. recipientDomain X (rq_recipient req) = Inr d
    \<and> revisions_of X (set (rq_governing req)) r \<and> Evaluate X req = outcome (rq_stage req) d r"
proof -
  have auth: "authority_ok X (set (rq_governing req))" using ok by (simp add: request_ok_def)
  obtain d where d: "recipientDomain X (rq_recipient req) = Inr d"
    using ok by (auto simp: request_ok_def)
  obtain r where r: "collectGoverning X (rq_governing req) [] [] = Some r"
    and rev: "revisions_of X (set (rq_governing req)) r"
    using collectGoverning_Some [OF auth] by blast
  have stage: "rq_stage req = StageSubmission \<or> rq_stage req = StageTransport"
    "rq_stage req = StageTransport \<longrightarrow> validLongQueueID (rq_queue_id req)"
    "rq_governing req \<noteq> []" "length (rq_governing req) \<le> maxGoverningDomains"
    using ok by (auto simp: request_ok_def)
  have "Evaluate X req = outcome (rq_stage req) d r"
  proof (cases r)
    case (Cons p ps)
    then show ?thesis using stage d r by (cases ps) (auto simp: Evaluate_def outcome_def split_def)
  qed (use stage d r in \<open>auto simp: Evaluate_def outcome_def\<close>)
  then show ?thesis using d rev by blast
qed

lemma singleton_keys:
  assumes "distinct (map fst r)"
  shows "length r = 1 \<longleftrightarrow> (\<exists>d. fst ` set r = {d})" and "map fst r = [d] \<longleftrightarrow> fst ` set r = {d}"
proof -
  have card: "card (fst ` set r) = length r" using distinct_card [OF assms] by simp
  then show "length r = 1 \<longleftrightarrow> (\<exists>d. fst ` set r = {d})"
    using card_1_singleton_iff [of "fst ` set r"] by simp
  show "map fst r = [d] \<longleftrightarrow> fst ` set r = {d}"
  proof
    assume "fst ` set r = {d}"
    then have "length r = 1" using card by simp
    then show "map fst r = [d]" using \<open>fst ` set r = {d}\<close> by (cases r) auto
  qed (metis image_set list.set(1) list.set(2))
qed

lemma Evaluate_verdict:
  "(dec_action (Evaluate X req), dec_reason (Evaluate X req)) = spec_verdict X req"
proof (cases "request_ok X req")
  case False
  then show ?thesis by (simp add: Evaluate_unavailable deferUnavailable_def spec_verdict_def)
next
  case True
  then obtain r d where d: "recipientDomain X (rq_recipient req) = Inr d"
    and rev: "revisions_of X (set (rq_governing req)) r"
    and ev: "Evaluate X req = outcome (rq_stage req) d r"
    using Evaluate_outcome by blast
  have keys: "restricted_domains X (set (rq_governing req)) = fst ` set r"
    and dist: "distinct (map fst r)"
    using rev by (auto simp: revisions_of_def)
  show ?thesis
    using True d unfolding ev spec_verdict_def outcome_def Let_def keys
    using singleton_keys(1) [OF dist] by (simp add: singleton_keys(2) [OF dist])
qed

lemma outcome_revisions: "dec_revisions (outcome stage d r) = r"
  by (simp add: outcome_def)

lemma revisions_of_unique:
  assumes ok: "authority_ok X G" and r: "revisions_of X G r" and r': "revisions_of X G r'"
  shows "map_of r = map_of r'"
proof
  fix d
  show "map_of r d = map_of r' d"
  proof (cases "d \<in> restricted_domains X G")
    case True
    then obtain g where "g \<in> G" "domain_of X g = d" "gd_scope g = ScopeSameDomainOnly"
      using restricted_domains_iff [OF ok] by blast
    then show ?thesis using r r' unfolding revisions_of_def by metis
  next
    case False
    then show ?thesis using r r' unfolding revisions_of_def by (metis map_of_eq_None_iff)
  qed
qed

section \<open>Properties\<close>

text \<open>C14: \<open>Evaluate\<close>, which walks the governing domains with two maps and returns early, computes the
  verdict the specification gives over the set of governing domains, for every request: a
  malformed request or contradictory authority defers, no restriction admits, a
  single restricting domain admits exactly its own recipients, and everything else is held in
  transport and rejected at submission with the reason that applies.\<close>

theorem Evaluate_meets_spec:
  "(dec_action (Evaluate X req), dec_reason (Evaluate X req)) = spec_verdict X req"
  by (rule Evaluate_verdict)

lemma Evaluate_OK:
  "dec_action (Evaluate X req) = ActionOK \<longleftrightarrow>
     request_ok X req \<and>
     restricted_domains X (set (rq_governing req)) \<subseteq> {projr (recipientDomain X (rq_recipient req))}"
  using Evaluate_verdict [of X req]
  by (auto simp: spec_verdict_def Let_def subset_singleton_iff split: if_splits)

text \<open>C15: Confinement. When \<open>Evaluate\<close> admits a recipient, that recipient lies in the domain of every
  governing domain with the scope \<open>same_domain_only\<close>, and that domain is listed with its revision
  in the decision.\<close>

theorem Evaluate_confines:
  assumes "dec_action (Evaluate X req) = ActionOK"
    and "g \<in> set (rq_governing req)" and "gd_scope g = ScopeSameDomainOnly"
  shows "NormalizeDomain X (gd_domain g) = recipientDomain X (rq_recipient req)
    \<and> map_of (dec_revisions (Evaluate X req)) (projr (NormalizeDomain X (gd_domain g)))
        = Some (gd_revision g)"
proof -
  have ok: "request_ok X req"
    and sub: "restricted_domains X (set (rq_governing req)) \<subseteq> {projr (recipientDomain X (rq_recipient req))}"
    using assms(1) Evaluate_OK by blast+
  have auth: "authority_ok X (set (rq_governing req))" using ok by (simp add: request_ok_def)
  obtain r d where d: "recipientDomain X (rq_recipient req) = Inr d"
    and rev: "revisions_of X (set (rq_governing req)) r"
    and ev: "Evaluate X req = outcome (rq_stage req) d r"
    using Evaluate_outcome [OF ok] by blast
  have g: "NormalizeDomain X (gd_domain g) = Inr (domain_of X g)" by (rule authority_okD [OF auth assms(2)])
  have "domain_of X g \<in> restricted_domains X (set (rq_governing req))"
    using restricted_domains_iff [OF auth] assms(2,3) by blast
  then have "domain_of X g = d" using sub d by auto
  moreover have m: "map_of r (domain_of X g) = Some (gd_revision g)"
    using rev assms(2,3) by (auto simp: revisions_of_def)
  ultimately show ?thesis using g d ev by (auto simp: outcome_def)
qed

definition sample_request :: "Stage \<Rightarrow> string \<Rightarrow> Request" where
  "sample_request stage recipient =
     \<lparr>rq_stage = stage, rq_queue_id = ''4bXyzT3GkRz2cB'', rq_recipient = recipient,
      rq_governing =
        [\<lparr>gd_domain = ''Example.com'', gd_scope = ScopeSameDomainOnly, gd_revision = 3\<rparr>,
         \<lparr>gd_domain = ''open.net'', gd_scope = ScopeUnrestricted, gd_revision = 1\<rparr>]\<rparr>"

theorem Evaluate_confines_witness:
  "dec_action (Evaluate ascii_external (sample_request StageTransport ''bob@EXAMPLE.com'')) = ActionOK
   \<and> NormalizeDomain ascii_external ''Example.com'' = recipientDomain ascii_external ''bob@EXAMPLE.com''"
proof -
  let ?g = "\<lparr>gd_domain = ''Example.com'', gd_scope = ScopeSameDomainOnly, gd_revision = 3\<rparr>"
  have ok: "dec_action (Evaluate ascii_external (sample_request StageTransport ''bob@EXAMPLE.com'')) = ActionOK"
    by code_simp
  have g: "?g \<in> set (rq_governing (sample_request StageTransport ''bob@EXAMPLE.com''))"
    by (simp add: sample_request_def)
  have s: "gd_scope ?g = ScopeSameDomainOnly" by simp
  from Evaluate_confines [OF ok g s] ok show ?thesis by (simp add: sample_request_def)
qed

text \<open>Fail closed. Adding governing domains to a request never turns a decision that is not an
  admission into one: restrictions only accumulate, and an invalid or contradictory entry spoils
  the whole request. The larger request is admitted only if the smaller one, when not empty, is.\<close>

theorem Evaluate_antitone:
  assumes "dec_action (Evaluate X (req\<lparr>rq_governing := gs @ hs\<rparr>)) = ActionOK" and "gs \<noteq> []"
  shows "dec_action (Evaluate X (req\<lparr>rq_governing := gs\<rparr>)) = ActionOK"
proof -
  have ok: "request_ok X (req\<lparr>rq_governing := gs @ hs\<rparr>)"
    and sub: "restricted_domains X (set gs \<union> set hs) \<subseteq> {projr (recipientDomain X (rq_recipient req))}"
    using assms(1) unfolding Evaluate_OK by auto
  have "authority_ok X (set gs \<union> set hs)" using ok by (simp add: request_ok_def)
  then have "authority_ok X (set gs)" unfolding authority_ok_def by blast
  then have "request_ok X (req\<lparr>rq_governing := gs\<rparr>)" using ok assms(2) by (simp add: request_ok_def)
  moreover have "restricted_domains X (set gs) \<subseteq> restricted_domains X (set gs \<union> set hs)"
    unfolding restricted_domains_def by blast
  ultimately show ?thesis using sub unfolding Evaluate_OK by auto
qed

theorem Evaluate_antitone_witness:
  "dec_action (Evaluate ascii_external
     ((sample_request StageSubmission ''bob@example.com'')
        \<lparr>rq_governing := [\<lparr>gd_domain = ''open.net'', gd_scope = ScopeUnrestricted, gd_revision = 1\<rparr>]\<rparr>))
   = ActionOK"
  by (rule Evaluate_antitone
        [where hs = "[\<lparr>gd_domain = ''example.com'', gd_scope = ScopeSameDomainOnly, gd_revision = 3\<rparr>]"])
    code_simp+

text \<open>The decision depends on the governing domains as a set: permuting or repeating entries (within
  the limit of 64) changes neither the action nor the reason, and the revision maps agree.\<close>

theorem Evaluate_set_based:
  assumes "set gs = set hs" and "length gs \<le> maxGoverningDomains" and "length hs \<le> maxGoverningDomains"
  shows "dec_action (Evaluate X (req\<lparr>rq_governing := gs\<rparr>)) = dec_action (Evaluate X (req\<lparr>rq_governing := hs\<rparr>))
    \<and> dec_reason (Evaluate X (req\<lparr>rq_governing := gs\<rparr>)) = dec_reason (Evaluate X (req\<lparr>rq_governing := hs\<rparr>))
    \<and> map_of (dec_revisions (Evaluate X (req\<lparr>rq_governing := gs\<rparr>)))
      = map_of (dec_revisions (Evaluate X (req\<lparr>rq_governing := hs\<rparr>)))"
proof -
  let ?g = "req\<lparr>rq_governing := gs\<rparr>" and ?h = "req\<lparr>rq_governing := hs\<rparr>"
  have ne: "gs = [] \<longleftrightarrow> hs = []" using assms(1) by auto
  have ok: "request_ok X ?g \<longleftrightarrow> request_ok X ?h" using assms ne by (simp add: request_ok_def)
  have verdict: "spec_verdict X ?g = spec_verdict X ?h" using ok assms(1) by (simp add: spec_verdict_def Let_def)
  have "map_of (dec_revisions (Evaluate X ?g)) = map_of (dec_revisions (Evaluate X ?h))"
  proof (cases "request_ok X ?g")
    case True
    then obtain r d r' d' where "revisions_of X (set gs) r" "Evaluate X ?g = outcome (rq_stage req) d r"
      "revisions_of X (set gs) r'" "Evaluate X ?h = outcome (rq_stage req) d' r'"
      and "authority_ok X (set gs)"
      using Evaluate_outcome [of X ?g] Evaluate_outcome [of X ?h] ok assms(1)
      by (auto simp: request_ok_def)
    moreover have "map_of r = map_of r'"
      using revisions_of_unique calculation by blast
    ultimately show ?thesis by (simp add: outcome_revisions)
  qed (use ok in \<open>simp add: Evaluate_unavailable\<close>)
  moreover have "(dec_action (Evaluate X ?g), dec_reason (Evaluate X ?g))
      = (dec_action (Evaluate X ?h), dec_reason (Evaluate X ?h))"
    unfolding Evaluate_verdict by (rule verdict)
  ultimately show ?thesis by simp
qed

theorem Evaluate_set_based_witness:
  "dec_reason (Evaluate ascii_external ((sample_request StageTransport ''x@y.z'')
     \<lparr>rq_governing := [\<lparr>gd_domain = ''a.b'', gd_scope = ScopeSameDomainOnly, gd_revision = 3\<rparr>,
                      \<lparr>gd_domain = ''c.d'', gd_scope = ScopeSameDomainOnly, gd_revision = 4\<rparr>,
                      \<lparr>gd_domain = ''a.b'', gd_scope = ScopeSameDomainOnly, gd_revision = 3\<rparr>]\<rparr>))
   = ReasonPolicyHold"
  (is "dec_reason (Evaluate _ (_\<lparr>rq_governing := [?g, ?h, ?g]\<rparr>)) = _")
proof -
  have "dec_reason (Evaluate ascii_external
      ((sample_request StageTransport ''x@y.z'')\<lparr>rq_governing := [?h, ?g]\<rparr>)) = ReasonPolicyHold"
    by code_simp
  then show ?thesis
    using Evaluate_set_based [of "[?g, ?h, ?g]" "[?h, ?g]" ascii_external
        "sample_request StageTransport ''x@y.z''"]
    by (auto simp: maxGoverningDomains_def)
qed

text \<open>Stage discipline. \<open>Evaluate\<close> never rejects in transport (a refused message is held, not
  bounced) and never holds at submission, and each action carries only its own reasons.\<close>

theorem Evaluate_stage_discipline:
  "(dec_action (Evaluate X req), dec_reason (Evaluate X req)) \<in>
     {(ActionOK, ReasonUnrestricted), (ActionOK, ReasonSameDomain), (ActionDefer, ReasonUnavailable)} \<union>
     (if rq_stage req = StageTransport then {(ActionDefer, ReasonPolicyHold)}
      else {(ActionReject, ReasonRecipientForbidden), (ActionReject, ReasonCrossDomainConflict)})"
  unfolding Evaluate_verdict spec_verdict_def by (simp add: Let_def)

text \<open>Automatic mail (notifications, autoresponders, delivery reports, bounces) is admitted exactly
  when the policy lookup succeeded and the decision is \<open>ok\<close>, and no outcome ever asks for a bounce,
  so a policy refusal cannot start a loop.\<close>

theorem ClassifyAutomaticDecision_no_loop:
  "(case ClassifyAutomaticDecision kind decision policyErr of
      Inl _ \<Rightarrow> \<not> validAutomaticKind kind
    | Inr out \<Rightarrow> validAutomaticKind kind \<and> \<not> ao_generate_bounce out
        \<and> (ao_disposition out = ''admitted'' \<longleftrightarrow> policyErr = None \<and> dec_action decision = ActionOK)
        \<and> (ao_disposition out = ''policy_blocked'' \<longleftrightarrow> policyErr = None \<and> dec_action decision = ActionReject)
        \<and> ao_disposition out \<in> {''admitted'', ''policy_blocked'', ''retry''})"
  by (auto simp: ClassifyAutomaticDecision_def)

end
