(* ===== verification/Canonical.thy ===== *)
theory Canonical
  imports Policy
begin

text \<open>
  Canonical domains, addresses and queue IDs: what \<open>NormalizeDomain\<close>, \<open>recipientDomain\<close> and
  \<open>normalizeQueueRecipient\<close> return, that they leave their own results unchanged, and that the
  scanner \<open>validLongQueueID\<close> decides the regular expression the database checks.
\<close>

section \<open>Domains\<close>

lemma ldh_dot_graph: "ldh_dot c \<Longrightarrow> graph c"
  by (auto simp: ldh_dot_def graph_def)

lemma ldh_dot_lower: "ldh_dot c \<Longrightarrow> ldh_dot (lower_char c)"
  by (auto simp: ldh_dot_def lower_char_def)

lemma ldh_dot_isAtext: "ldh_dot c \<Longrightarrow> isAtext c"
  by (auto simp: ldh_dot_def isAtext_def)

lemma ldh_dot_not_at: "list_all ldh_dot s \<Longrightarrow> CHR ''@'' \<notin> set s"
  by (auto simp: list_all_iff ldh_dot_def)

lemma ValidString_ascii: "(\<forall>c\<in>set s. byte c < 128) \<Longrightarrow> ValidString s"
proof (induction s)
  case Nil
  show ?case by (simp add: ValidString.simps)
next
  case (Cons a s)
  then have "rune_len (a # s) = 1" by (simp add: rune_len_def)
  with Cons show ?case by (subst ValidString.simps) simp
qed

lemma trimmed_ldh: "list_all ldh_dot s \<Longrightarrow> trimmed s"
proof (cases "s = []")
  case False
  assume "list_all ldh_dot s"
  then have "graph (hd s)" "graph (last s)"
    using False by (auto simp: list_all_iff intro: ldh_dot_graph)
  with False show ?thesis by (rule trimmed_graph)
qed (simp add: trimmed_def)

text \<open>The domains the code compares: non-empty A-labels without an empty label.\<close>

definition canonical_domain :: "external \<Rightarrow> string \<Rightarrow> bool" where
  "canonical_domain X d \<longleftrightarrow>
     d \<noteq> [] \<and> length d \<le> 253 \<and> list_all ldh_dot d \<and> ToLower d = d \<and> to_ascii X d = Some d
     \<and> \<not> HasPrefix d ''.'' \<and> \<not> HasSuffix d ''.'' \<and> \<not> Contains d ''..''"

lemma NormalizeDomain_fixed: "canonical_domain X d \<Longrightarrow> NormalizeDomain X d = Inr d"
  unfolding canonical_domain_def NormalizeDomain_def
  using TrimSpace_trimmed [OF trimmed_ldh, of d] by simp

lemma NormalizeDomain_canonical:
  assumes "idna_lookup X" and "NormalizeDomain X raw = Inr d"
  shows "canonical_domain X d"
proof -
  from assms(2) obtain a where a: "to_ascii X (TrimSpace raw) = Some a"
    and d: "d = (if HasSuffix (ToLower a) ''.'' then TrimSuffix (ToLower a) ''.'' else ToLower a)"
    and ok: "d \<noteq> []" "\<not> HasPrefix d ''.''" "\<not> HasSuffix d ''.''" "\<not> Contains d ''..''"
    by (auto simp: NormalizeDomain_def Let_def split: if_splits option.splits)
  have a': "list_all ldh_dot a" "ToLower a = a" "to_ascii X a = Some a"
    "length (TrimSuffix a ''.'') \<le> 253"
    using assms(1) a unfolding idna_lookup_def by blast+
  show ?thesis
  proof (cases "HasSuffix a ''.''")
    case True
    then obtain t where t: "a = t @ ''.''" by (auto simp: HasSuffix_iff)
    then have dt: "d = t" using d a'(2) True by simp
    have "to_ascii X t = Some t"
      using assms(1) a'(3) ok(1) unfolding idna_lookup_def t dt by blast
    then show ?thesis using a' ok unfolding canonical_domain_def t dt by simp
  next
    case False
    then have "TrimSuffix a ''.'' = a" by (simp add: TrimSuffix_def)
    then show ?thesis using a' ok d False unfolding canonical_domain_def by simp
  qed
qed

lemma canonical_domain_dot_atom: "canonical_domain X d \<Longrightarrow> dot_atom d"
  unfolding canonical_domain_def dot_atom_def
  by (auto simp: list_all_iff intro!: ValidString_ascii intro: ldh_dot_isAtext)
    (auto dest!: bspec ldh_dot_graph simp: graph_def)

section \<open>Addresses\<close>

lemma dot_atom_not_at: "dot_atom l \<Longrightarrow> CHR ''@'' \<notin> set l"
  by (auto simp: dot_atom_def list_all_iff isAtext_def)

lemma plain_address_iff:
  assumes "dot_atom d"
  shows "plain_address (l @ ''@'' @ d) \<longleftrightarrow> dot_atom l"
proof
  assume "plain_address (l @ ''@'' @ d)"
  then obtain l' d' where sp: "split_first CHR ''@'' (l @ ''@'' @ d) = Some (l', d')"
    and at: "dot_atom l'" "dot_atom d'"
    by (auto simp: plain_address_def split: option.splits)
  have eq: "l @ CHR ''@'' # d = l' @ CHR ''@'' # d'" using sp by (simp add: split_first_Some_iff)
  have "split_last CHR ''@'' (l @ CHR ''@'' # d) = Some (l, d)"
    using dot_atom_not_at [OF assms] by (simp add: split_last_Some_iff)
  moreover have "split_last CHR ''@'' (l @ CHR ''@'' # d) = Some (l', d')"
    using dot_atom_not_at [OF at(2)] eq by (simp add: split_last_Some_iff)
  ultimately show "dot_atom l" using at by simp
next
  assume "dot_atom l"
  then have "split_first CHR ''@'' (l @ ''@'' @ d) = Some (l, d)"
    using dot_atom_not_at by (simp add: split_first_Some_iff)
  then show "plain_address (l @ ''@'' @ d)" using assms \<open>dot_atom l\<close> by (simp add: plain_address_def)
qed

lemma recipientDomain_iff:
  assumes "idna_lookup X"
  shows "recipientDomain X raw = Inr d \<longleftrightarrow>
    (\<exists>l dd. TrimSpace raw = l @ CHR ''@'' # dd \<and> CHR ''@'' \<notin> set dd \<and> dot_atom l
        \<and> NormalizeDomain X dd = Inr d \<and> length (TrimSpace raw) \<le> maxEnvelopeRecipientBytes)"
    (is "?L \<longleftrightarrow> ?R")
proof
  assume ?L
  then obtain l dd where "split_last CHR ''@'' (TrimSpace raw) = Some (l, dd)"
    and nd: "NormalizeDomain X dd = Inr d" and pa: "plain_address (l @ ''@'' @ d)"
    and len: "length (TrimSpace raw) \<le> maxEnvelopeRecipientBytes"
    by (auto simp: recipientDomain_def Let_def split: if_splits option.splits sum.splits)
  moreover have "dot_atom d" using nd NormalizeDomain_canonical [OF assms] canonical_domain_dot_atom by blast
  ultimately show ?R using plain_address_iff by (auto simp: split_last_Some_iff)
next
  assume ?R
  then obtain l dd where r: "TrimSpace raw = l @ CHR ''@'' # dd" "CHR ''@'' \<notin> set dd" "dot_atom l"
    "NormalizeDomain X dd = Inr d" "length (TrimSpace raw) \<le> maxEnvelopeRecipientBytes" by blast
  then have sp: "split_last CHR ''@'' (TrimSpace raw) = Some (l, dd)" by (simp add: split_last_Some_iff)
  have "dot_atom d" using r(4) NormalizeDomain_canonical [OF assms] canonical_domain_dot_atom by blast
  moreover have "dd \<noteq> []" using r(4) by (auto simp: NormalizeDomain_def TrimSpace_trimmed trimmed_def)
  moreover have "l \<noteq> []" using r(3) by (simp add: dot_atom_def)
  ultimately show ?L using r sp plain_address_iff [of d l] by (simp add: recipientDomain_def)
qed

text \<open>An address as the queue stores it, with its domain.\<close>

definition canonical_address :: "external \<Rightarrow> string \<Rightarrow> string \<Rightarrow> bool" where
  "canonical_address X a d \<longleftrightarrow>
     (\<exists>l. a = l @ CHR ''@'' # d \<and> dot_atom l \<and> space_len (l @ ''@'') = 0 \<and> canonical_domain X d)"

lemma space_len_at: "space_len (l @ CHR ''@'' # t) = 0 \<Longrightarrow> space_len (l @ CHR ''@'' # u) = 0"
proof (induction l rule: space_len.induct)
  case (4 a b c s)
  then show ?case by simp
qed (cases t; cases "tl t"; cases u; cases "tl u";
     auto simp: space1_def space2_def space3_def split: if_splits)+

lemma trimmed_address:
  assumes "space_len (l @ ''@'') = 0" and "canonical_domain X d"
  shows "trimmed (l @ CHR ''@'' # d)"
proof -
  have "d \<noteq> []" "graph (last d)"
    using assms(2) by (auto simp: canonical_domain_def list_all_iff intro!: ldh_dot_graph)
  then obtain c r where "rev d = c # r" "graph c" by (metis hd_rev list.exhaust_sel rev_is_Nil_conv)
  then have "space_len_end (rev (l @ CHR ''@'' # d)) = 0"
    using space_len_end_graph by simp
  then show ?thesis using space_len_at [of l "[]" d] assms(1) by (simp add: trimmed_def)
qed

lemma normalizeQueueRecipient_iff:
  assumes "idna_lookup X"
  shows "normalizeQueueRecipient X raw = Inr (a, d) \<longleftrightarrow>
    (\<exists>l dd. TrimSpace raw = l @ CHR ''@'' # dd \<and> CHR ''@'' \<notin> set dd \<and> dot_atom l
        \<and> NormalizeDomain X dd = Inr d \<and> length (TrimSpace raw) \<le> maxEnvelopeRecipientBytes
        \<and> a = l @ CHR ''@'' # d)" (is "?L \<longleftrightarrow> ?R")
proof
  assume ?L
  then have "recipientDomain X raw = Inr d"
    by (auto simp: normalizeQueueRecipient_def split: sum.splits option.splits)
  then obtain l dd where r: "TrimSpace raw = l @ CHR ''@'' # dd" "CHR ''@'' \<notin> set dd" "dot_atom l"
    "NormalizeDomain X dd = Inr d" "length (TrimSpace raw) \<le> maxEnvelopeRecipientBytes"
    using recipientDomain_iff [OF assms] by blast
  then have "split_last CHR ''@'' (TrimSpace raw) = Some (l, dd)" by (simp add: split_last_Some_iff)
  with \<open>?L\<close> \<open>recipientDomain X raw = Inr d\<close> have "a = l @ CHR ''@'' # d"
    by (simp add: normalizeQueueRecipient_def)
  with r show ?R by blast
next
  assume ?R
  then obtain l dd where r: "TrimSpace raw = l @ CHR ''@'' # dd" "CHR ''@'' \<notin> set dd"
    "a = l @ CHR ''@'' # d" and "recipientDomain X raw = Inr d"
    using recipientDomain_iff [OF assms] by blast
  moreover have "split_last CHR ''@'' (TrimSpace raw) = Some (l, dd)"
    using r by (simp add: split_last_Some_iff)
  ultimately show ?L by (simp add: normalizeQueueRecipient_def)
qed

lemma normalizeQueueRecipient_canonical:
  assumes X: "idna_lookup X" and "normalizeQueueRecipient X raw = Inr (a, d)"
  shows "canonical_address X a d"
proof -
  obtain l dd where r: "TrimSpace raw = l @ CHR ''@'' # dd" "dot_atom l"
    "NormalizeDomain X dd = Inr d" "a = l @ CHR ''@'' # d"
    using assms(2) normalizeQueueRecipient_iff [OF X] by blast
  have "space_len (l @ CHR ''@'' # dd) = 0" using trimmed_TrimSpace [of raw] r(1) by (simp add: trimmed_def)
  then have "space_len (l @ ''@'') = 0" by (rule space_len_at)
  then show ?thesis using r NormalizeDomain_canonical [OF X r(3)] by (auto simp: canonical_address_def)
qed

lemma normalizeQueueRecipient_fixed:
  assumes X: "idna_lookup X" and a: "canonical_address X a d"
    and len: "length a \<le> maxEnvelopeRecipientBytes"
  shows "normalizeQueueRecipient X a = Inr (a, d)"
proof -
  obtain l where l: "a = l @ CHR ''@'' # d" "dot_atom l" "space_len (l @ ''@'') = 0" "canonical_domain X d"
    using a by (auto simp: canonical_address_def)
  have "TrimSpace a = a" using trimmed_address [OF l(3,4)] l(1) by (simp add: TrimSpace_trimmed)
  moreover have "CHR ''@'' \<notin> set d" using l(4) ldh_dot_not_at by (simp add: canonical_domain_def)
  ultimately show ?thesis
    using l len NormalizeDomain_fixed [OF l(4)] by (auto simp: normalizeQueueRecipient_iff [OF X])
qed

lemma recipientDomain_address:
  assumes "idna_lookup X" and "canonical_address X a d" and "length a \<le> maxEnvelopeRecipientBytes"
  shows "recipientDomain X a = Inr d"
  using normalizeQueueRecipient_fixed [OF assms]
  by (auto simp: normalizeQueueRecipient_def split: sum.splits option.splits)

section \<open>Queue IDs\<close>

text \<open>The \<open>CHECK\<close> constraints of \<^verbatim>\<open>migrations/0009_outbound_queue.sql\<close> on a queue ID.\<close>

definition sql_queue_id_check :: "string \<Rightarrow> bool" where
  "sql_queue_id_check s \<longleftrightarrow>
     12 \<le> length s \<and> length s \<le> 100 \<and>
     (\<exists>u v. s = u @ ''z'' @ v \<and> 10 \<le> length u \<and> 1 \<le> length v
        \<and> set u \<subseteq> set long_queue_alphabet \<and> set v \<subseteq> set long_queue_alphabet)"

lemma queueIDLoop_iff:
  "queueIDLoop n s i b \<longleftrightarrow> set s \<subseteq> set long_queue_alphabet \<and>
     (b \<or> (\<exists>k < length s. s ! k = CHR ''z'' \<and> 10 \<le> i + k \<and> i + k < n - 1))"
proof (induction s arbitrary: i b)
  case (Cons c s)
  have "(\<exists>k < length (c # s). (c # s) ! k = CHR ''z'' \<and> 10 \<le> i + k \<and> i + k < n - 1) \<longleftrightarrow>
     c = CHR ''z'' \<and> 10 \<le> i \<and> i < n - 1 \<or>
     (\<exists>k < length s. s ! k = CHR ''z'' \<and> 10 \<le> i + 1 + k \<and> i + 1 + k < n - 1)"
    unfolding length_Cons Ex_less_Suc2 by simp
  then show ?case by (auto simp: Cons.IH)
qed simp

lemma validLongQueueID_regex: "validLongQueueID s \<longleftrightarrow> sql_queue_id_check s"
proof -
  have z: "CHR ''z'' \<in> set long_queue_alphabet" by code_simp
  have "(\<exists>k < length s. s ! k = CHR ''z'' \<and> 10 \<le> k \<and> k < length s - 1) \<longleftrightarrow>
     (\<exists>u v. s = u @ ''z'' @ v \<and> 10 \<le> length u \<and> 1 \<le> length v)" (is "?L \<longleftrightarrow> ?R")
  proof
    assume ?L
    then obtain k where k: "k < length s" "s ! k = CHR ''z''" "10 \<le> k" "k < length s - 1" by blast
    then have "s = take k s @ ''z'' @ drop (Suc k) s" using id_take_nth_drop [OF k(1)] by simp
    with k show ?R by (intro exI [of _ "take k s"] exI [of _ "drop (Suc k) s"]) auto
  next
    assume ?R
    then obtain u v where "s = u @ ''z'' @ v" "10 \<le> length u" "1 \<le> length v" by blast
    then show ?L by (intro exI [of _ "length u"]) auto
  qed
  moreover have "set s \<subseteq> set long_queue_alphabet \<and> ?R \<longleftrightarrow>
     (\<exists>u v. s = u @ ''z'' @ v \<and> 10 \<le> length u \<and> 1 \<le> length v
        \<and> set u \<subseteq> set long_queue_alphabet \<and> set v \<subseteq> set long_queue_alphabet)" (is "_ \<longleftrightarrow> ?S")
    using z by (auto 0 3)
  ultimately have "queueIDLoop (length s) s 0 False \<longleftrightarrow> ?S" unfolding queueIDLoop_iff by simp
  then show ?thesis
    unfolding validLongQueueID_def sql_queue_id_check_def maxPostfixQueueIDBytes_def by auto
qed

section \<open>Properties\<close>

text \<open>\<open>NormalizeDomain\<close> is idempotent: the domain it returns is returned unchanged when it is
  normalised again, so two canonical domains are compared as they are.\<close>

theorem NormalizeDomain_idempotent:
  assumes "idna_lookup X" and "NormalizeDomain X raw = Inr d"
  shows "NormalizeDomain X d = Inr d"
  using NormalizeDomain_fixed NormalizeDomain_canonical [OF assms] by blast

lemma ascii_external_idna: "idna_lookup ascii_external"
  by (auto simp: idna_lookup_def ascii_external_def ToLower_def list_all_iff
      TrimSuffix_def intro: ldh_dot_lower split: if_splits)

theorem NormalizeDomain_idempotent_witness:
  "NormalizeDomain ascii_external ''example.com'' = Inr ''example.com''"
proof -
  have "NormalizeDomain ascii_external '' Example.COM. '' = Inr ''example.com''" by code_simp
  from NormalizeDomain_idempotent [OF ascii_external_idna this] show ?thesis .
qed

text \<open>\<open>normalizeQueueRecipient\<close> leaves the address it returned, and its domain, unchanged, as long as
  that address keeps to the 254 bytes of an envelope address. The local part is never altered.\<close>

theorem normalizeQueueRecipient_idempotent:
  assumes "idna_lookup X" and "normalizeQueueRecipient X raw = Inr (a, d)"
    and "length a \<le> maxEnvelopeRecipientBytes"
  shows "normalizeQueueRecipient X a = Inr (a, d) \<and> recipientDomain X a = Inr d
    \<and> (\<exists>l dd. TrimSpace raw = l @ ''@'' @ dd \<and> a = l @ ''@'' @ d)"
proof -
  have c: "canonical_address X a d" by (rule normalizeQueueRecipient_canonical [OF assms(1,2)])
  have "\<exists>l dd. TrimSpace raw = l @ ''@'' @ dd \<and> a = l @ ''@'' @ d"
    using assms(2) normalizeQueueRecipient_iff [OF assms(1)] by auto
  then show ?thesis
    using normalizeQueueRecipient_fixed [OF assms(1) c assms(3)]
      recipientDomain_address [OF assms(1) c assms(3)] by blast
qed

theorem normalizeQueueRecipient_idempotent_witness:
  "normalizeQueueRecipient ascii_external ''Ann.B@example.com'' = Inr (''Ann.B@example.com'', ''example.com'')"
proof -
  have n: "normalizeQueueRecipient ascii_external '' Ann.B@Example.COM. ''
      = Inr (''Ann.B@example.com'', ''example.com'')"
    by code_simp
  have l: "length ''Ann.B@example.com'' \<le> maxEnvelopeRecipientBytes" by code_simp
  from normalizeQueueRecipient_idempotent [OF ascii_external_idna n l] show ?thesis by blast
qed

text \<open>C29: \<open>validLongQueueID\<close>, a single scan with a flag, accepts exactly the queue IDs that the
  \<open>CHECK\<close> constraints of the queue table accept: a regular expression with at least ten digits of the
  alphabet, the separator \<open>z\<close> and at least one more digit, within 12 to 100 bytes.\<close>

theorem validLongQueueID_correct: "validLongQueueID s \<longleftrightarrow> sql_queue_id_check s"
  by (rule validLongQueueID_regex)

end
