(* ===== verification/Audit_Log.thy ===== *)
theory Audit_Log
  imports Digest
begin

text \<open>
  \<^verbatim>\<open>internal/audit/audit.go\<close>: audit events, their redaction and the writers. A value of type \<open>any\<close> is
  modelled by what \<open>json.Marshal\<close> followed by \<open>json.Unmarshal\<close> makes of it, which is how \<open>Redact\<close>
  looks at it; an object is an association list with distinct keys. (Numbers are exact: the rounding
  of \<open>float64\<close> above $2^{53}$ is not modelled.)
\<close>

section \<open>Values and redaction\<close>

datatype json = JNull | JBool bool | JNum int | JStr string | JArr "json list" | JObj "(string \<times> json) list"

definition secretKeys :: "string list" where
  "secretKeys =
     [''password'', ''token'', ''secret'', ''private_key'', ''client_secret'', ''app_password'',
      ''verifier'', ''key'']"

definition isSecret :: "string \<Rightarrow> bool" where
  "isSecret k = list_ex (\<lambda>s. Contains (ToLower k) s) secretKeys"

fun redactValue :: "json \<Rightarrow> json" where
  "redactValue (JObj kvs) =
     JObj (map (\<lambda>kv. (fst kv, if isSecret (fst kv) then JStr ''[REDACTED]'' else redactValue (snd kv))) kvs)"
| "redactValue (JArr vs) = JArr (map redactValue vs)"
| "redactValue v = v"

definition Redact :: "json \<Rightarrow> json" where
  "Redact v = redactValue v"

fun containsSecretValue :: "json \<Rightarrow> string list \<Rightarrow> bool" where
  "containsSecretValue (JObj kvs) needles = list_ex (\<lambda>kv. containsSecretValue (snd kv) needles) kvs"
| "containsSecretValue (JArr vs) needles = list_ex (\<lambda>v. containsSecretValue v needles) vs"
| "containsSecretValue (JStr t) needles = list_ex (\<lambda>n. Contains (ToLower t) (ToLower n)) needles"
| "containsSecretValue _ needles = False"

definition ContainsSecretJSON :: "json \<Rightarrow> string list \<Rightarrow> bool" where
  "ContainsSecretJSON v needles = containsSecretValue v needles"

section \<open>Events\<close>

record ActorRef =
  actor_type :: string
  actor_id :: string

record ResourceRef =
  res_type :: string
  res_id :: string

record RequestSource =
  src_ip :: string
  src_user_agent :: string

text \<open>Times are microseconds since Go's zero time, so \<open>IsZero\<close> is a comparison with 0.\<close>

record Event =
  ev_id :: string
  ev_time :: int
  ev_actor :: ActorRef
  ev_source :: "RequestSource option"
  ev_action :: string
  ev_resource :: ResourceRef
  ev_before :: json
  ev_after :: json
  ev_correlation :: string
  ev_result :: string
  ev_error_code :: string

text \<open>\<open>newUUID\<close> over the 16 random bytes, \<open>None\<close> when the random source fails.\<close>

definition newUUID :: "8 word list option \<Rightarrow> string" where
  "newUUID rnd =
     (case rnd of
        None \<Rightarrow> ''00000000-0000-4000-8000-000000000000''
      | Some b \<Rightarrow>
          let b1 = b[6 := or (and (b ! 6) 0x0f) 0x40];
              b2 = b1[8 := or (and (b1 ! 8) 0x3f) 0x80];
              s = hex_encode (map (\<lambda>w. char_of (unat w)) b2)
          in take 8 s @ ''-'' @ take 4 (drop 8 s) @ ''-'' @ take 4 (drop 12 s) @ ''-''
             @ take 4 (drop 16 s) @ ''-'' @ take 12 (drop 20 s))"

definition Normalize :: "8 word list option \<Rightarrow> int \<Rightarrow> Event \<Rightarrow> Event" where
  "Normalize rnd now e =
     (let e1 = (if ev_id e = [] then e\<lparr>ev_id := newUUID rnd\<rparr> else e);
          e2 = (if ev_time e1 = 0 then e1\<lparr>ev_time := now\<rparr> else e1)
      in e2\<lparr>ev_before := Redact (ev_before e2), ev_after := Redact (ev_after e2)\<rparr>)"

text \<open>\<open>MemoryWriter.Write\<close>, on the slice of events.\<close>

definition memoryWrite :: "8 word list option \<Rightarrow> int \<Rightarrow> Event \<Rightarrow> Event list \<Rightarrow> Event list" where
  "memoryWrite rnd now e events = events @ [Normalize rnd now e]"

text \<open>The row \<open>WriteSQL\<close> inserts; a null column is \<open>None\<close>.\<close>

record AuditRow =
  ar_id :: string
  ar_time :: int
  ar_actor :: ActorRef
  ar_source_ip :: "string option"
  ar_source_ua :: "string option"
  ar_action :: string
  ar_resource :: ResourceRef
  ar_before :: json
  ar_after :: json
  ar_correlation :: string
  ar_result :: string
  ar_error_code :: "string option"

definition nullString :: "string \<Rightarrow> string option" where
  "nullString s = (if s \<noteq> [] then Some s else None)"

definition audit_row :: "8 word list option \<Rightarrow> int \<Rightarrow> Event \<Rightarrow> AuditRow" where
  "audit_row rnd now e0 =
     (let e = Normalize rnd now e0 in
      \<lparr>ar_id = ev_id e, ar_time = ev_time e, ar_actor = ev_actor e,
       ar_source_ip = (case ev_source e of None \<Rightarrow> None | Some s \<Rightarrow> nullString (src_ip s)),
       ar_source_ua = (case ev_source e of None \<Rightarrow> None | Some s \<Rightarrow> nullString (src_user_agent s)),
       ar_action = ev_action e, ar_resource = ev_resource e,
       ar_before = ev_before e, ar_after = ev_after e,
       ar_correlation = ev_correlation e, ar_result = ev_result e,
       ar_error_code = nullString (ev_error_code e)\<rparr>)"

section \<open>What redaction leaves\<close>

text \<open>A position in a value is a path of object keys and array indexes.\<close>

datatype step = Key string | Idx nat

fun json_at :: "json \<Rightarrow> step list \<Rightarrow> json option" where
  "json_at v [] = Some v"
| "json_at (JObj kvs) (Key k # p) = (case map_of kvs k of None \<Rightarrow> None | Some v \<Rightarrow> json_at v p)"
| "json_at (JArr vs) (Idx i # p) = (if i < length vs then json_at (vs ! i) p else None)"
| "json_at _ _ = None"

definition secret_step :: "step \<Rightarrow> bool" where
  "secret_step s = (case s of Key k \<Rightarrow> isSecret k | Idx _ \<Rightarrow> False)"

lemma map_of_redact:
  "map_of (map (\<lambda>kv. (fst kv, if isSecret (fst kv) then JStr ''[REDACTED]'' else redactValue (snd kv))) kvs) k
   = map_option (\<lambda>v. if isSecret k then JStr ''[REDACTED]'' else redactValue v) (map_of kvs k)"
  by (induction kvs) auto

lemma json_at_redact_open:
  "list_all (\<lambda>s. \<not> secret_step s) p \<Longrightarrow> json_at (redactValue v) p = map_option redactValue (json_at v p)"
  by (induction v p rule: json_at.induct)
    (auto simp: map_of_redact secret_step_def split: option.splits)

lemma json_at_redact:
  "json_at (redactValue v) p =
     (if list_all (\<lambda>s. \<not> secret_step s) p then map_option redactValue (json_at v p)
      else if list_all (\<lambda>s. \<not> secret_step s) (butlast p) \<and> json_at v p \<noteq> None
      then Some (JStr ''[REDACTED]'') else None)"
proof (induction v p rule: json_at.induct)
  case (2 kvs k p)
  then show ?case
    by (cases p) (auto simp: map_of_redact secret_step_def split: option.splits)
next
  case (3 vs i p)
  then show ?case by (cases p) (auto simp: secret_step_def)
qed auto

lemma redactValue_idem: "redactValue (redactValue v) = redactValue v"
  by (induction v rule: redactValue.induct) auto


section \<open>Properties\<close>


text \<open>A revision map is an object keyed by domain names, and \<open>isSecret\<close> looks for the word \<open>key\<close> anywhere
  in a key. The audit trail of a hold or of a rejection therefore loses the policy revision of every
  domain whose name contains such a word, as in \<open>turkey.example\<close>.\<close>

theorem Redact_hides_revision:
  "Redact (JObj [(''reason'', JStr ''recipient_domain_policy_hold''),
                 (''revisions'', JObj [(''turkey.example'', JNum 7), (''example.com'', JNum 3)])])
   = JObj [(''reason'', JStr ''recipient_domain_policy_hold''),
           (''revisions'', JObj [(''turkey.example'', JStr ''[REDACTED]''), (''example.com'', JNum 3)])]"
  by code_simp

end
