(* ===== verification/Store.thy ===== *)
theory Store
  imports Canonical Audit_Log
begin

text \<open>
  The PostgreSQL side of the program: the tables of \<^verbatim>\<open>migrations/\<close> that the outbound policy uses, as
  lists of rows with their constraints, the SQL statements the code issues, and the transactions
  around them.

  A transaction is a pure function on the database. \<open>run_tx\<close> runs one against the world: other
  sessions may have committed before it (\<open>cx_other\<close>), any statement or the commit may fail with nothing
  stored (\<open>TxFails\<close>), and the answer to a commit may be lost after it was stored (\<open>TxCommitLost\<close>). Serializable
  isolation makes each transaction atomic.
\<close>

section \<open>Tables\<close>

record DomainRow =
  d_id :: string
  d_name :: string
  d_enabled :: bool
  d_scope :: string
  d_revision :: int
  d_updated :: int

record MailboxRow =
  mb_id :: string
  mb_domain :: string
  mb_local :: string
  mb_enabled :: bool

text \<open>
  \<open>al_json\<close> is the text of \<open>targets_json\<close> and \<open>al_targets\<close> what \<open>json.Unmarshal\<close> reads from it as a list
  of strings (\<open>None\<close> for an error).
\<close>

record AliasRow =
  al_id :: string
  al_domain :: string
  al_local :: string
  al_json :: string
  al_targets :: "string list option"
  al_enabled :: bool

record SenderRow =
  ss_id :: string
  ss_domain :: string
  ss_address :: string
  ss_enabled :: bool
  ss_revision :: int
  ss_created :: int
  ss_updated :: int

text \<open>\<open>m_revisions\<close> is what \<open>json.Unmarshal\<close> reads from \<open>policy_revisions_json\<close> as a map to \<open>uint64\<close>.\<close>

record MessageRow =
  m_queue_id :: string
  m_fingerprint :: string
  m_sender :: string
  m_recipient_digest :: string
  m_source_digest :: string
  m_hold_state :: string
  m_reason :: "string option"
  m_revisions :: "revisions option"
  m_attempts :: int
  m_error_code :: "string option"
  m_first_seen :: int
  m_updated :: int

type_synonym RecipientRow = "string \<times> string \<times> string"
type_synonym SourceRow = "string \<times> string \<times> string"

record db =
  domains :: "DomainRow list"
  mailboxes :: "MailboxRow list"
  aliases :: "AliasRow list"
  senders :: "SenderRow list"
  messages :: "MessageRow list"
  recipients :: "RecipientRow list"
  sources :: "SourceRow list"
  audit_events :: "AuditRow list"

definition empty_db :: db where
  "empty_db =
     \<lparr>domains = [], mailboxes = [], aliases = [], senders = [], messages = [], recipients = [],
      sources = [], audit_events = []\<rparr>"

section \<open>Column constraints\<close>

text \<open>A \<open>text\<close> value is well-formed UTF-8 without NUL, and \<open>length\<close> counts its characters.\<close>

definition pg_text :: "string \<Rightarrow> bool" where
  "pg_text s \<longleftrightarrow> ValidString s \<and> list_all (\<lambda>c. byte c \<noteq> 0) s"

definition char_count :: "string \<Rightarrow> nat" where
  "char_count s = length (filter (\<lambda>c. \<not> cont c) s)"

definition int8_max :: int where
  "int8_max = 9223372036854775807"

definition btrim :: "string \<Rightarrow> string" where
  "btrim s = rev (dropWhile (\<lambda>c. c = CHR '' '') (rev (dropWhile (\<lambda>c. c = CHR '' '') s)))"

definition hold_states :: "string list" where
  "hold_states =
     [''pending'', ''hold_required'', ''reconciling'', ''held'', ''reconciliation_error'',
      ''release_reconciling'', ''release_error'', ''released'']"

definition source_kinds :: "string list" where
  "source_kinds =
     [''authenticated_mailbox'', ''envelope_sender'', ''system_sender'', ''alias'', ''forward'', ''list'',
      ''catch_all'']"

definition error_code_char :: "char \<Rightarrow> bool" where
  "error_code_char c \<longleftrightarrow>
     97 \<le> byte c \<and> byte c \<le> 122 \<or> 48 \<le> byte c \<and> byte c \<le> 57 \<or> c = CHR ''_''"

definition check_message :: "external \<Rightarrow> MessageRow \<Rightarrow> bool" where
  "check_message X m \<longleftrightarrow>
     validLongQueueID (m_queue_id m)
     \<and> validLowerHexDigest (m_fingerprint m)
     \<and> pg_text (m_sender m) \<and> 2 \<le> char_count (m_sender m) \<and> char_count (m_sender m) \<le> 254
     \<and> \<not> cntrl X (m_sender m)
     \<and> validLowerHexDigest (m_recipient_digest m) \<and> validLowerHexDigest (m_source_digest m)
     \<and> m_hold_state m \<in> set hold_states
     \<and> (case m_reason m of None \<Rightarrow> True
        | Some r \<Rightarrow> r \<in> {ReasonPolicyHold, ReasonCrossDomainConflict, ReasonUnavailable})
     \<and> 0 \<le> m_attempts m \<and> m_attempts m \<le> int8_max
     \<and> (case m_error_code m of None \<Rightarrow> True
        | Some c \<Rightarrow> 1 \<le> length c \<and> length c \<le> 128 \<and> list_all error_code_char c)
     \<and> m_first_seen m \<le> m_updated m"

definition check_recipient :: "external \<Rightarrow> RecipientRow \<Rightarrow> bool" where
  "check_recipient X row =
     (case row of (q, r, d) \<Rightarrow>
        pg_text r \<and> 3 \<le> char_count r \<and> char_count r \<le> 254 \<and> \<not> cntrl X r
        \<and> 1 \<le> length d \<and> length d \<le> 253 \<and> ToLower d = d \<and> list_all ldh_dot d)"

definition check_source :: "external \<Rightarrow> SourceRow \<Rightarrow> bool" where
  "check_source X row =
     (case row of (q, k, i) \<Rightarrow>
        k \<in> set source_kinds \<and> pg_text i \<and> 1 \<le> char_count i \<and> char_count i \<le> 320 \<and> \<not> cntrl X i
        \<and> btrim i = i)"

definition check_sender :: "external \<Rightarrow> SenderRow \<Rightarrow> bool" where
  "check_sender X y \<longleftrightarrow>
     pg_text (ss_id y) \<and> 1 \<le> char_count (ss_id y) \<and> char_count (ss_id y) \<le> 320
     \<and> \<not> cntrl X (ss_id y) \<and> btrim (ss_id y) = ss_id y
     \<and> pg_text (ss_address y) \<and> 3 \<le> char_count (ss_address y) \<and> char_count (ss_address y) \<le> 254
     \<and> \<not> cntrl X (ss_address y)
     \<and> 0 < ss_revision y \<and> ss_created y \<le> ss_updated y"

definition check_domain :: "DomainRow \<Rightarrow> bool" where
  "check_domain d \<longleftrightarrow>
     d_scope d \<in> {ScopeUnrestricted, ScopeSameDomainOnly} \<and> 0 < d_revision d \<and> d_revision d \<le> int8_max"

section \<open>Statements\<close>

definition find_message :: "db \<Rightarrow> string \<Rightarrow> MessageRow option" where
  "find_message db q = List.find (\<lambda>m. m_queue_id m = q) (messages db)"

text \<open>\<open>INSERT ... ON CONFLICT (queue_id) DO NOTHING\<close>, with the number of rows inserted.\<close>

definition insert_message :: "external \<Rightarrow> MessageRow \<Rightarrow> db \<Rightarrow> (nat \<times> db) result" where
  "insert_message X m db =
     (if \<not> check_message X m then Inl SqlError
      else if find_message db (m_queue_id m) \<noteq> None then Inr (0, db)
      else Inr (1, db\<lparr>messages := messages db @ [m]\<rparr>))"

text \<open>\<open>UPDATE outbound_queue_messages SET ... WHERE queue_id=... AND ...\<close>, with the number of rows.\<close>

definition update_message ::
  "external \<Rightarrow> string \<Rightarrow> (MessageRow \<Rightarrow> bool) \<Rightarrow> (MessageRow \<Rightarrow> MessageRow) \<Rightarrow> db \<Rightarrow> (nat \<times> db) result"
where
  "update_message X q P f db =
     (let hit = (\<lambda>m. m_queue_id m = q \<and> P m) in
      if list_all (\<lambda>m. hit m \<longrightarrow> check_message X (f m)) (messages db)
      then Inr (length (filter hit (messages db)),
                db\<lparr>messages := map (\<lambda>m. if hit m then f m else m) (messages db)\<rparr>)
      else Inl SqlError)"

text \<open>The two \<open>COPY\<close> statements: all rows or none, with the primary key.\<close>

definition copy_recipients :: "external \<Rightarrow> RecipientRow list \<Rightarrow> db \<Rightarrow> db result" where
  "copy_recipients X rows db =
     (let key = (\<lambda>(q, r, d). (q, r)) in
      if list_all (check_recipient X) rows \<and> distinct (map key (recipients db @ rows))
      then Inr (db\<lparr>recipients := recipients db @ rows\<rparr>)
      else Inl SqlError)"

definition copy_sources :: "external \<Rightarrow> SourceRow list \<Rightarrow> db \<Rightarrow> db result" where
  "copy_sources X rows db =
     (if list_all (check_source X) rows \<and> distinct (sources db @ rows)
      then Inr (db\<lparr>sources := sources db @ rows\<rparr>)
      else Inl SqlError)"

text \<open>\<open>audit.WriteSQL\<close>: the row is inserted, with its primary key and the \<open>CHECK\<close> on \<open>result\<close>.\<close>

definition WriteSQL :: "8 word list option \<Rightarrow> int \<Rightarrow> Event \<Rightarrow> db \<Rightarrow> db result" where
  "WriteSQL rnd now e db =
     (let row = audit_row rnd now e in
      if pg_text (actor_type (ar_actor row)) \<and> pg_text (actor_id (ar_actor row))
         \<and> pg_text (ar_action row) \<and> pg_text (res_type (ar_resource row))
         \<and> pg_text (res_id (ar_resource row)) \<and> pg_text (ar_correlation row)
         \<and> ar_result row \<in> {''success'', ''failure'', ''denied''}
         \<and> ar_id row \<notin> ar_id ` set (audit_events db)
      then Inr (db\<lparr>audit_events := audit_events db @ [row]\<rparr>)
      else Inl SqlError)"

text \<open>\<open>ORDER BY\<close>: a stable insertion sort by the order of the key.\<close>

fun insert_by :: "('a \<Rightarrow> 'a \<Rightarrow> bool) \<Rightarrow> 'a \<Rightarrow> 'a list \<Rightarrow> 'a list" where
  "insert_by le x [] = [x]"
| "insert_by le x (y # ys) = (if le x y then x # y # ys else y # insert_by le x ys)"

definition order_by :: "('a \<Rightarrow> 'a \<Rightarrow> bool) \<Rightarrow> 'a list \<Rightarrow> 'a list" where
  "order_by le xs = foldr (insert_by le) xs []"

section \<open>Transactions\<close>

text \<open>
  A transaction may fail as a whole, or its commit may take effect without the answer arriving. A body that returns before the
  commit leaves the database as it was; there \<open>TxCommitLost\<close> is one more way in which a statement of the transaction fails.
\<close>

datatype tx_fate = TxOk | TxFails | TxCommitLost

record tx_ctx =
  cx_fate :: tx_fate
  cx_now :: int
  cx_rnd :: "8 word list option"
  cx_other :: "db \<Rightarrow> db"

text \<open>\<open>w_postfix\<close> is the state of the Postfix queue behind the boundary interfaces.\<close>

record 'p world =
  w_db :: db
  w_env :: "nat \<Rightarrow> tx_ctx"
  w_count :: nat
  w_postfix :: 'p

type_synonym ('p, 'a) prog = "'p world \<Rightarrow> 'a result \<times> 'p world"

definition run_tx :: "(tx_ctx \<Rightarrow> db \<Rightarrow> ('a \<times> db) result) \<Rightarrow> ('p, 'a) prog" where
  "run_tx body w =
     (let cx = w_env w (w_count w);
          w1 = w\<lparr>w_count := Suc (w_count w), w_db := cx_other cx (w_db w)\<rparr>
      in if cx_fate cx = TxFails then (Inl SqlError, w1)
         else case body cx (w_db w1) of
           Inl e \<Rightarrow> (Inl e, w1)
         | Inr (x, db) \<Rightarrow>
             (if cx_fate cx = TxCommitLost then Inl SqlError else Inr x, w1\<lparr>w_db := db\<rparr>))"

text \<open>A query outside a transaction.\<close>

definition run_query :: "(db \<Rightarrow> 'a result) \<Rightarrow> ('p, 'a) prog" where
  "run_query body w =
     (let cx = w_env w (w_count w);
          w1 = w\<lparr>w_count := Suc (w_count w), w_db := cx_other cx (w_db w)\<rparr>
      in if cx_fate cx = TxOk then (body (w_db w1), w1) else (Inl SqlError, w1))"

definition bindP :: "('p, 'a) prog \<Rightarrow> ('a \<Rightarrow> ('p, 'b) prog) \<Rightarrow> ('p, 'b) prog" where
  "bindP m f w = (case m w of (Inl e, w1) \<Rightarrow> (Inl e, w1) | (Inr x, w1) \<Rightarrow> f x w1)"

definition bindR :: "'a result \<Rightarrow> ('a \<Rightarrow> 'b result) \<Rightarrow> 'b result" where
  "bindR r f = (case r of Inl e \<Rightarrow> Inl e | Inr x \<Rightarrow> f x)"

end
