(* ===== verification/Queue.thy ===== *)
theory Queue
  imports Store
begin

text \<open>
  \<^verbatim>\<open>internal/outboundpolicy/queue.go\<close>: the durable record of a message in the Postfix queue, its
  canonicalisation and digests, \<open>Register\<close> and \<open>Load\<close>; and the revision maps of \<^verbatim>\<open>reconcile.go\<close> that the
  record stores.
\<close>

section \<open>Data\<close>

type_synonym SourceKind = string
type_synonym HoldState = string

abbreviation SourceAuthenticatedMailbox :: SourceKind where
  "SourceAuthenticatedMailbox \<equiv> ''authenticated_mailbox''"
abbreviation SourceEnvelopeSender :: SourceKind where "SourceEnvelopeSender \<equiv> ''envelope_sender''"
abbreviation SourceSystemSender :: SourceKind where "SourceSystemSender \<equiv> ''system_sender''"
abbreviation SourceAlias :: SourceKind where "SourceAlias \<equiv> ''alias''"
abbreviation SourceForward :: SourceKind where "SourceForward \<equiv> ''forward''"
abbreviation SourceList :: SourceKind where "SourceList \<equiv> ''list''"
abbreviation SourceCatchAll :: SourceKind where "SourceCatchAll \<equiv> ''catch_all''"

abbreviation HoldPending :: HoldState where "HoldPending \<equiv> ''pending''"
abbreviation HoldRequired :: HoldState where "HoldRequired \<equiv> ''hold_required''"
abbreviation HoldReconciling :: HoldState where "HoldReconciling \<equiv> ''reconciling''"
abbreviation HoldApplied :: HoldState where "HoldApplied \<equiv> ''held''"
abbreviation HoldReconciliationError :: HoldState where
  "HoldReconciliationError \<equiv> ''reconciliation_error''"
abbreviation HoldReleaseReconciling :: HoldState where
  "HoldReleaseReconciling \<equiv> ''release_reconciling''"
abbreviation HoldReleaseError :: HoldState where "HoldReleaseError \<equiv> ''release_error''"
abbreviation HoldReleased :: HoldState where "HoldReleased \<equiv> ''released''"

definition maxQueueRecipients :: nat where "maxQueueRecipients = 10000"
definition maxQueueSources :: nat where "maxQueueSources = 64"
definition maxQueueObjectID :: nat where "maxQueueObjectID = 320"

lemmas queue_limits [go_simps] =
  maxQueueRecipients_def maxQueueSources_def maxQueueObjectID_def

datatype QueueSource = QueueSource (src_kind: SourceKind) (src_object: string)

text \<open>The order of the code's \<open>sort.Slice\<close>: by kind, then by object ID.\<close>

instantiation QueueSource :: linorder
begin

definition less_eq_QueueSource :: "QueueSource \<Rightarrow> QueueSource \<Rightarrow> bool" where
  "less_eq_QueueSource a b \<longleftrightarrow>
     (if src_kind a = src_kind b then src_object a \<le> src_object b else src_kind a < src_kind b)"

definition less_QueueSource :: "QueueSource \<Rightarrow> QueueSource \<Rightarrow> bool" where
  "less_QueueSource a b \<longleftrightarrow>
     (if src_kind a = src_kind b then src_object a < src_object b else src_kind a < src_kind b)"

instance
proof
  fix x y z :: QueueSource
  show "x < y \<longleftrightarrow> x \<le> y \<and> \<not> y \<le> x"
    by (auto simp: less_eq_QueueSource_def less_QueueSource_def)
  show "x \<le> x" by (simp add: less_eq_QueueSource_def)
  show "x \<le> y \<Longrightarrow> y \<le> z \<Longrightarrow> x \<le> z"
    by (auto simp: less_eq_QueueSource_def split: if_splits)
  show "x \<le> y \<Longrightarrow> y \<le> x \<Longrightarrow> x = y"
    by (auto simp: less_eq_QueueSource_def QueueSource.expand split: if_splits)
  show "x \<le> y \<or> y \<le> x" by (auto simp: less_eq_QueueSource_def)
qed

end

record QueueRegistration =
  qreg_queue_id :: string
  qreg_fingerprint :: string
  qreg_sender :: string
  qreg_recipients :: "string list"
  qreg_sources :: "QueueSource list"

record QueueRecord =
  qr_queue_id :: string
  qr_fingerprint :: string
  qr_sender :: string
  qr_recipient_digest :: string
  qr_source_digest :: string
  qr_hold_state :: HoldState
  qr_reason :: Reason
  qr_revisions :: revisions
  qr_attempts :: u64
  qr_error_code :: string
  qr_first_seen :: int
  qr_updated :: int
  qr_recipients :: "string list"
  qr_sources :: "QueueSource list"

section \<open>Validation\<close>

definition normalizeQueueSender :: "external \<Rightarrow> string \<Rightarrow> string result" where
  "normalizeQueueSender X raw =
     (if raw = ''<>'' then Inr raw
      else case normalizeQueueRecipient X raw of
        Inl _ \<Rightarrow> Inl (Err ''invalid queue envelope sender'')
      | Inr (address, _) \<Rightarrow> Inr address)"

definition validSourceKind :: "SourceKind \<Rightarrow> bool" where
  "validSourceKind kind \<longleftrightarrow>
     kind \<in> {SourceAuthenticatedMailbox, SourceEnvelopeSender, SourceSystemSender, SourceAlias,
             SourceForward, SourceList, SourceCatchAll}"

definition validQueueObjectID :: "string \<Rightarrow> bool" where
  "validQueueObjectID i =
     (if length i = 0 \<or> length i > maxQueueObjectID \<or> \<not> ValidString i \<or> TrimSpace i \<noteq> i then False
      else \<not> has_control i)"

definition validHoldState :: "HoldState \<Rightarrow> bool" where
  "validHoldState state \<longleftrightarrow>
     state \<in> {HoldPending, HoldRequired, HoldReconciling, HoldApplied, HoldReconciliationError,
              HoldReleaseReconciling, HoldReleaseError, HoldReleased}"

definition validQueueReason :: "Reason \<Rightarrow> bool" where
  "validQueueReason reason \<longleftrightarrow>
     reason = ReasonPolicyHold \<or> reason = ReasonCrossDomainConflict \<or> reason = ReasonUnavailable"

definition validQueuePolicyState :: "HoldState \<Rightarrow> bool \<Rightarrow> Reason \<Rightarrow> revisions \<Rightarrow> bool" where
  "validQueuePolicyState state hasReason reason revs =
     (if state = HoldPending then \<not> hasReason \<and> length revs = 0
      else hasReason \<and> validQueueReason reason \<and> length revs > 0)"

definition validQueueErrorCode :: "string \<Rightarrow> bool" where
  "validQueueErrorCode code =
     (if length code = 0 \<or> length code > 128 then False
      else list_all (\<lambda>c. \<not> ((byte c < 97 \<or> byte c > 122) \<and> (byte c < 48 \<or> byte c > 57) \<and> c \<noteq> CHR ''_'')) code)"

definition source_frames :: "QueueSource \<Rightarrow> string" where
  "source_frames s = frame (src_kind s) @ frame (src_object s)"

definition digestSources :: "QueueSource list \<Rightarrow> string" where
  "digestSources ss = hex_encode (sha256 (concat (map source_frames ss)))"

definition source_key :: "QueueSource \<Rightarrow> string" where
  "source_key s = src_kind s @ char_of (0::nat) # src_object s"

text \<open>A map keyed by \<open>source_key\<close> used as a set of sources.\<close>

definition sourceSet :: "QueueSource list \<Rightarrow> (string \<times> QueueSource) list" where
  "sourceSet ss = fold (\<lambda>s m. AList.update (source_key s) s m) ss []"

definition normalizeQueueRegistration :: "external \<Rightarrow> QueueRegistration \<Rightarrow> QueueRecord result" where
  "normalizeQueueRegistration X r =
     (if \<not> validLongQueueID (qreg_queue_id r) then Inl (Err ''invalid Postfix long queue ID'')
      else if \<not> validLowerHexDigest (qreg_fingerprint r)
      then Inl (Err ''invalid queue arrival fingerprint'')
      else case normalizeQueueSender X (qreg_sender r) of Inl e \<Rightarrow> Inl e | Inr sender \<Rightarrow>
      if length (qreg_recipients r) = 0 \<or> length (qreg_recipients r) > maxQueueRecipients
      then Inl (Err ''outbound queue recipient limit violated'')
      else case mapR (normalizeQueueRecipient X) (qreg_recipients r) of Inl e \<Rightarrow> Inl e | Inr pairs \<Rightarrow>
      let rcpts = sorted_set (map fst pairs) in
      if length (qreg_sources r) = 0 \<or> length (qreg_sources r) > maxQueueSources
      then Inl (Err ''outbound queue source limit violated'')
      else if list_ex (\<lambda>s. \<not> validSourceKind (src_kind s) \<or> \<not> validQueueObjectID (src_object s)) (qreg_sources r)
      then Inl (Err ''invalid outbound queue source'')
      else
        let srcs = sort (map snd (sourceSet (qreg_sources r))) in
        Inr \<lparr>qr_queue_id = qreg_queue_id r, qr_fingerprint = qreg_fingerprint r, qr_sender = sender,
             qr_recipient_digest = digestStrings rcpts, qr_source_digest = digestSources srcs,
             qr_hold_state = HoldPending, qr_reason = [], qr_revisions = [], qr_attempts = 0,
             qr_error_code = [], qr_first_seen = 0, qr_updated = 0,
             qr_recipients = rcpts, qr_sources = srcs\<rparr>)"

section \<open>Revision maps\<close>

fun canonicalRevisionsLoop :: "external \<Rightarrow> revisions \<Rightarrow> revisions \<Rightarrow> revisions result" where
  "canonicalRevisionsLoop X [] canonical = Inr canonical"
| "canonicalRevisionsLoop X ((rawDomain, revision) # rest) canonical =
     (case NormalizeDomain X rawDomain of
        Inl _ \<Rightarrow> Inl (Err ''invalid outbound queue policy revisions'')
      | Inr domain \<Rightarrow>
          if revision = 0 then Inl (Err ''invalid outbound queue policy revisions'')
          else if (case map_of canonical domain of None \<Rightarrow> False | Some prior \<Rightarrow> prior \<noteq> revision)
          then Inl (Err ''conflicting outbound queue policy revisions'')
          else canonicalRevisionsLoop X rest (AList.update domain revision canonical))"

definition canonicalPolicyRevisions :: "external \<Rightarrow> revisions \<Rightarrow> revisions result" where
  "canonicalPolicyRevisions X revs =
     (if length revs = 0 \<or> length revs > maxGoverningDomains
      then Inl (Err ''invalid outbound queue policy revisions'')
      else canonicalRevisionsLoop X revs [])"

definition revisionMapsEqual :: "revisions \<Rightarrow> revisions \<Rightarrow> bool" where
  "revisionMapsEqual left right =
     (if length left \<noteq> length right then False
      else list_all (\<lambda>(domain, revision).
             (case map_of right domain of None \<Rightarrow> 0 | Some v \<Rightarrow> v) = revision) left)"

section \<open>Loading\<close>

fun loadRecipientRows :: "external \<Rightarrow> (string \<times> string) list \<Rightarrow> string list \<Rightarrow> string list result" where
  "loadRecipientRows X [] acc = Inr acc"
| "loadRecipientRows X ((recipient, storedDomain) # rows) acc =
     (if length acc \<ge> maxQueueRecipients
      then Inl (Err ''stored outbound queue recipient limit exceeded'')
      else case normalizeQueueRecipient X recipient of
        Inl _ \<Rightarrow> Inl (Err ''stored outbound queue recipient is invalid'')
      | Inr (canonical, domain) \<Rightarrow>
          if canonical \<noteq> recipient \<or> domain \<noteq> storedDomain
          then Inl (Err ''stored outbound queue recipient is invalid'')
          else loadRecipientRows X rows (acc @ [recipient]))"

fun loadSourceRows :: "(string \<times> string) list \<Rightarrow> QueueSource list \<Rightarrow> QueueSource list result" where
  "loadSourceRows [] acc = Inr acc"
| "loadSourceRows ((kind, objectID) # rows) acc =
     (if length acc \<ge> maxQueueSources then Inl (Err ''stored outbound queue source limit exceeded'')
      else if \<not> validSourceKind kind \<or> \<not> validQueueObjectID objectID
      then Inl (Err ''stored outbound queue source is invalid'')
      else loadSourceRows rows (acc @ [QueueSource kind objectID]))"

definition recipient_rows :: "external \<Rightarrow> db \<Rightarrow> string \<Rightarrow> (string \<times> string) list" where
  "recipient_rows X db q =
     order_by (\<lambda>a b. collate X (fst a) (fst b)) (map snd (filter (\<lambda>row. fst row = q) (recipients db)))"

definition source_rows :: "external \<Rightarrow> db \<Rightarrow> string \<Rightarrow> (string \<times> string) list" where
  "source_rows X db q =
     order_by (\<lambda>a b. if fst a = fst b then collate X (snd a) (snd b) else collate X (fst a) (fst b))
       (map snd (filter (\<lambda>row. fst row = q) (sources db)))"

text \<open>The checks of \<open>loadQueueRecord\<close> on the parent row, before the child sets are read.\<close>

definition loadParent :: "external \<Rightarrow> string \<Rightarrow> MessageRow \<Rightarrow> QueueRecord result" where
  "loadParent X queueID m =
     (if m_queue_id m \<noteq> queueID \<or> \<not> validLongQueueID (m_queue_id m)
        \<or> normalizeQueueSender X (m_sender m) \<noteq> Inr (m_sender m)
        \<or> m_attempts m < 0 \<or> \<not> validHoldState (m_hold_state m)
        \<or> \<not> validLowerHexDigest (m_fingerprint m) \<or> \<not> validLowerHexDigest (m_recipient_digest m)
        \<or> \<not> validLowerHexDigest (m_source_digest m)
        \<or> m_first_seen m = 0 \<or> m_updated m < m_first_seen m
      then Inl (Err ''stored outbound queue state is invalid'')
      else if (case m_reason m of None \<Rightarrow> False | Some reason \<Rightarrow> \<not> validQueueReason reason)
      then Inl (Err ''stored outbound queue reason is invalid'')
      else case m_revisions m of
        None \<Rightarrow> Inl (Err ''stored outbound queue policy revisions are invalid'')
      | Some revs \<Rightarrow>
          if length revs > 0 \<and>
             (case canonicalPolicyRevisions X revs of Inl _ \<Rightarrow> True
              | Inr canonical \<Rightarrow> \<not> revisionMapsEqual revs canonical)
          then Inl (Err ''stored outbound queue policy revisions are invalid'')
          else if \<not> validQueuePolicyState (m_hold_state m) (m_reason m \<noteq> None)
                    (case m_reason m of None \<Rightarrow> [] | Some reason \<Rightarrow> reason) revs
          then Inl (Err ''stored outbound queue policy state is invalid'')
          else if (case m_error_code m of None \<Rightarrow> False | Some code \<Rightarrow> \<not> validQueueErrorCode code)
          then Inl (Err ''stored outbound queue error code is invalid'')
          else
            Inr \<lparr>qr_queue_id = m_queue_id m, qr_fingerprint = m_fingerprint m, qr_sender = m_sender m,
                 qr_recipient_digest = m_recipient_digest m, qr_source_digest = m_source_digest m,
                 qr_hold_state = m_hold_state m,
                 qr_reason = (case m_reason m of None \<Rightarrow> [] | Some reason \<Rightarrow> reason),
                 qr_revisions = revs, qr_attempts = word_of_int (m_attempts m),
                 qr_error_code = (case m_error_code m of None \<Rightarrow> [] | Some code \<Rightarrow> code),
                 qr_first_seen = m_first_seen m, qr_updated = m_updated m,
                 qr_recipients = [], qr_sources = []\<rparr>)"

definition loadQueueRecord :: "external \<Rightarrow> db \<Rightarrow> string \<Rightarrow> QueueRecord result" where
  "loadQueueRecord X db queueID =
     (case find_message db queueID of
        None \<Rightarrow> Inl (Err ''outbound queue record not found'')
      | Some m \<Rightarrow>
     (case loadParent X queueID m of Inl e \<Rightarrow> Inl e | Inr record \<Rightarrow>
     (case loadRecipientRows X (recipient_rows X db queueID) [] of Inl e \<Rightarrow> Inl e | Inr rcpts \<Rightarrow>
     (case loadSourceRows (source_rows X db queueID) [] of Inl e \<Rightarrow> Inl e | Inr srcs \<Rightarrow>
        if length rcpts = 0 \<or> length srcs = 0
           \<or> digestStrings rcpts \<noteq> qr_recipient_digest record
           \<or> digestSources srcs \<noteq> qr_source_digest record
        then Inl (Err ''stored outbound queue provenance digest mismatch'')
        else Inr (record\<lparr>qr_recipients := rcpts, qr_sources := srcs\<rparr>)))))"

definition sameQueueIdentity :: "QueueRecord \<Rightarrow> QueueRecord \<Rightarrow> bool" where
  "sameQueueIdentity l r \<longleftrightarrow>
     qr_queue_id l = qr_queue_id r \<and> qr_fingerprint l = qr_fingerprint r
     \<and> qr_sender l = qr_sender r \<and> qr_recipient_digest l = qr_recipient_digest r
     \<and> qr_source_digest l = qr_source_digest r"

section \<open>Registering\<close>

definition copyQueueRecipients :: "external \<Rightarrow> QueueRecord \<Rightarrow> db \<Rightarrow> db result" where
  "copyQueueRecipients X record db =
     (case mapR (\<lambda>recipient.
         (case normalizeQueueRecipient X recipient of Inl e \<Rightarrow> Inl e
          | Inr (_, domain) \<Rightarrow> Inr (qr_queue_id record, recipient, domain))) (qr_recipients record) of
        Inl e \<Rightarrow> Inl e
      | Inr rows \<Rightarrow> copy_recipients X rows db)"

definition copyQueueSources :: "external \<Rightarrow> QueueRecord \<Rightarrow> db \<Rightarrow> db result" where
  "copyQueueSources X record db =
     copy_sources X (map (\<lambda>s. (qr_queue_id record, src_kind s, src_object s)) (qr_sources record)) db"

definition message_of :: "QueueRecord \<Rightarrow> int \<Rightarrow> MessageRow" where
  "message_of record now =
     \<lparr>m_queue_id = qr_queue_id record, m_fingerprint = qr_fingerprint record,
      m_sender = qr_sender record, m_recipient_digest = qr_recipient_digest record,
      m_source_digest = qr_source_digest record, m_hold_state = HoldPending, m_reason = None,
      m_revisions = Some [], m_attempts = 0, m_error_code = None,
      m_first_seen = now, m_updated = now\<rparr>"

definition register_tx ::
  "external \<Rightarrow> QueueRecord \<Rightarrow> int \<Rightarrow> db \<Rightarrow> ((QueueRecord \<times> bool) \<times> db) result"
where
  "register_tx X record now db0 =
     (case insert_message X (message_of record now) db0 of Inl e \<Rightarrow> Inl e | Inr (affected, db1) \<Rightarrow>
      let created = (affected = 1) in
      if affected > 1 then Inl (Err ''outbound queue insert affected multiple records'')
      else case (if created then bindR (copyQueueRecipients X record db1) (copyQueueSources X record)
                 else Inr db1) of
        Inl e \<Rightarrow> Inl e
      | Inr db2 \<Rightarrow>
         (case loadQueueRecord X db2 (qr_queue_id record) of Inl e \<Rightarrow> Inl e | Inr stored \<Rightarrow>
            if \<not> sameQueueIdentity stored record
            then Inl (Err ''Postfix queue ID is already bound to different arrival metadata'')
            else Inr ((stored, created), db2)))"

definition Register ::
  "external \<Rightarrow> QueueRegistration \<Rightarrow> ('p, QueueRecord \<times> bool) prog"
where
  "Register X r w =
     (case normalizeQueueRegistration X r of
        Inl e \<Rightarrow> (Inl e, w)
      | Inr record \<Rightarrow> run_tx (\<lambda>cx. register_tx X record (cx_now cx)) w)"

definition Load :: "external \<Rightarrow> string \<Rightarrow> ('p, QueueRecord) prog" where
  "Load X queueID w =
     (if \<not> validLongQueueID queueID then (Inl (Err ''invalid Postfix long queue ID''), w)
      else run_query (\<lambda>db. loadQueueRecord X db queueID) w)"

end
