(* ===== verification/Queue_Facts.thy ===== *)
theory Queue_Facts
  imports Queue
begin

text \<open>
  Facts about \<^verbatim>\<open>queue.go\<close>: canonical records, what the columns accept of them, registration of a new
  message and of a known one, what a successful load shows, and the properties that follow.
\<close>

section \<open>Sources\<close>

definition valid_source :: "QueueSource \<Rightarrow> bool" where
  "valid_source s \<longleftrightarrow> validSourceKind (src_kind s) \<and> validQueueObjectID (src_object s)"

lemma source_key_inj: "inj_on source_key {s. validSourceKind (src_kind s)}"
proof (rule inj_onI)
  fix s t
  assume k: "s \<in> {s. validSourceKind (src_kind s)}" "t \<in> {s. validSourceKind (src_kind s)}"
    and eq: "source_key s = source_key t"
  have "char_of (0::nat) \<notin> set (src_kind u)" if "validSourceKind (src_kind u)" for u
    using that by (auto simp: validSourceKind_def char_of_def)
  then have "split_first (char_of (0::nat)) (source_key u) = Some (src_kind u, src_object u)"
    if "validSourceKind (src_kind u)" for u
    using that by (simp add: split_first_Some_iff source_key_def)
  from this [of s] this [of t] show "s = t" using k eq by (simp add: QueueSource.expand)
qed

lemma sourceSet_sorted:
  assumes "\<forall>s\<in>set ss. validSourceKind (src_kind s)"
  shows "sort (map snd (sourceSet ss)) = sorted_set ss"
proof -
  have "inj_on source_key (set ss)" using assms by (auto intro: inj_on_subset [OF source_key_inj])
  then show ?thesis
    using fold_update_values [of source_key ss] by (simp add: sourceSet_def sort_eq_sorted_set)
qed

definition source_framable :: "QueueSource \<Rightarrow> bool" where
  "source_framable s \<longleftrightarrow> framable (src_kind s) \<and> framable (src_object s)"

interpretation source_frames: framed source_frames source_framable
proof unfold_locales
  show "source_framable x \<Longrightarrow> source_framable y \<Longrightarrow> source_frames x @ r = source_frames y @ s \<Longrightarrow>
      x = y \<and> r = s" for x y r s
    unfolding source_framable_def source_frames_def append_assoc
    by (metis QueueSource.expand frame_front)
  show "source_framable x \<Longrightarrow> source_frames x \<noteq> []" for x
    by (simp add: source_frames_def frame_def be64_def)
qed

definition source_transcript :: "QueueSource list \<Rightarrow> string" where
  "source_transcript ss = concat (map source_frames ss)"

lemma digestSources_binds:
  assumes "list_all source_framable xs" "list_all source_framable ys" "digestSources xs = digestSources ys"
  shows "xs = ys \<or> collides (source_transcript xs) (source_transcript ys)"
  using assms digest_eq source_frames.concat_inj
  unfolding digestSources_def source_transcript_def by blast

lemma validLowerHexDigest_digestSources [simp]: "validLowerHexDigest (digestSources ss)"
  by (simp add: digestSources_def)

lemma valid_source_framable: "valid_source s \<Longrightarrow> source_framable s"
  by (auto simp: valid_source_def source_framable_def validSourceKind_def validQueueObjectID_def
      framable_def maxQueueObjectID_def split: if_splits)

section \<open>Column constraints follow from the code's validation\<close>

lemma rune_len_append: "rune_len s \<noteq> 0 \<Longrightarrow> rune_len (s @ t) = rune_len s"
proof -
  assume r: "rune_len s \<noteq> 0"
  then obtain a u where s: "s = a # u" by (cases s) (auto simp: rune_len_def)
  show ?thesis
  proof (cases u)
    case Nil
    then have "byte a < 0x80" using r s by (auto simp: rune_len_def split: if_splits)
    then show ?thesis using s by (simp add: rune_len_def)
  next
    case (Cons b v)
    note u = this
    show ?thesis
    proof (cases v)
      case Nil
      then have "byte a < 0x80 \<or> (0xC2 \<le> byte a \<and> byte a \<le> 0xDF)"
        using r s u by (auto simp: rune_len_def split: if_splits)
      then show ?thesis using r s u Nil by (auto simp: rune_len_def)
    next
      case (Cons c x)
      note v = this
      show ?thesis
      proof (cases x)
        case Nil
        then have "byte a < 0x80 \<or> (0xC2 \<le> byte a \<and> byte a \<le> 0xDF) \<or> (0xE0 \<le> byte a \<and> byte a \<le> 0xEF)"
          using r s u v by (auto simp: rune_len_def split: if_splits)
        then show ?thesis using r s u v Nil by (auto simp: rune_len_def)
      next
        case (Cons d y)
        then show ?thesis using s u v by (simp add: rune_len_def)
      qed
    qed
  qed
qed

lemma rune_len_le: "rune_len s \<le> length s"
  unfolding rune_len_def by (auto split: list.splits)

lemma ValidString_append: "ValidString s \<Longrightarrow> ValidString t \<Longrightarrow> ValidString (s @ t)"
proof (induction s rule: ValidString.induct)
  case (1 s)
  show ?case
  proof (cases "s = []")
    case False
    then have r: "rune_len s \<noteq> 0" and v: "ValidString (drop (rune_len s) s)"
      using "1.prems"(1) by (auto simp: ValidString.simps [of s] split: if_splits)
    have "ValidString (drop (rune_len s) s @ t)" using "1.IH" False r v "1.prems"(2) by blast
    then show ?thesis
      using False r rune_len_append [OF r, of t] rune_len_le [of s]
      by (simp add: ValidString.simps [of "s @ t"])
  qed (use 1 in simp)
qed

lemma ValidString_first: "ValidString (c # s) \<Longrightarrow> \<not> cont c"
proof -
  assume "ValidString (c # s)"
  then have "rune_len (c # s) \<noteq> 0" by (simp add: ValidString.simps [of "c # s"] split: if_splits)
  then show "\<not> cont c" by (auto simp: rune_len_def cont_def split: list.splits if_splits)
qed

lemma char_count_pos: "ValidString s \<Longrightarrow> s \<noteq> [] \<Longrightarrow> 1 \<le> char_count s"
  using ValidString_first by (cases s) (auto simp: char_count_def)

lemma char_count_append [simp]: "char_count (s @ t) = char_count s + char_count t"
  by (simp add: char_count_def)

lemma char_count_le: "char_count s \<le> length s"
  by (simp add: char_count_def)

lemma canonical_address_text:
  assumes "canonical_address X a d"
  shows "pg_text a" and "3 \<le> char_count a"
proof -
  obtain l where a: "a = l @ ''@'' @ d" and l: "dot_atom l" and d: "canonical_domain X d"
    using assms by (auto simp: canonical_address_def)
  have vl: "ValidString l" "l \<noteq> []" and at: "list_all isAtext l" using l by (auto simp: dot_atom_def)
  have "dot_atom d" by (rule canonical_domain_dot_atom [OF d])
  then have vd: "ValidString d" "d \<noteq> []" and atd: "list_all isAtext d" by (auto simp: dot_atom_def)
  have at1: "ValidString ''@''" by code_simp
  have "ValidString a" unfolding a by (intro ValidString_append vl at1 vd)
  moreover have "list_all (\<lambda>c. byte c \<noteq> 0) a"
    using at atd unfolding a by (auto simp: list_all_iff isAtext_def)
  ultimately show "pg_text a" by (simp add: pg_text_def)
  have "char_count ''@'' = 1" by code_simp
  then show "3 \<le> char_count a"
    using char_count_pos [OF vl] char_count_pos [OF vd] unfolding a char_count_append by linarith
qed

lemma has_control_no_nul: "\<not> has_control s \<Longrightarrow> list_all (\<lambda>c. byte c \<noteq> 0) s"
  by (induction s rule: has_control.induct) auto

lemma btrim_trimmed: "TrimSpace s = s \<Longrightarrow> btrim s = s"
proof -
  assume "TrimSpace s = s"
  then have t: "trimmed s" using trimmed_TrimSpace [of s] by simp
  have sp: "space1 CHR '' ''" by code_simp
  have a: "dropWhile (\<lambda>c. c = CHR '' '') s = s"
  proof (cases s)
    case (Cons c r)
    then have "c \<noteq> CHR '' ''" using t sp by (cases r; cases "tl r") (auto simp: trimmed_def)
    then show ?thesis using Cons by simp
  qed simp
  have b: "dropWhile (\<lambda>c. c = CHR '' '') (rev s) = rev s"
  proof (cases "rev s")
    case (Cons c r)
    then have "c \<noteq> CHR '' ''" using t sp by (cases r; cases "tl r") (auto simp: trimmed_def)
    then show ?thesis using Cons by simp
  qed simp
  show ?thesis by (simp add: btrim_def a b)
qed

lemma check_source_valid:
  assumes "valid_source s" and "\<not> cntrl X (src_object s)"
  shows "check_source X (q, src_kind s, src_object s)"
proof -
  have v: "src_object s \<noteq> []" "length (src_object s) \<le> 320" "ValidString (src_object s)"
    "TrimSpace (src_object s) = src_object s" "\<not> has_control (src_object s)"
    using assms(1) by (auto simp: valid_source_def validQueueObjectID_def maxQueueObjectID_def split: if_splits)
  have "src_kind s \<in> set source_kinds"
    using assms(1) by (auto simp: valid_source_def validSourceKind_def source_kinds_def)
  moreover have "char_count (src_object s) \<le> 320" using char_count_le [of "src_object s"] v(2) by linarith
  ultimately show ?thesis
    using v assms(2) char_count_pos [OF v(3,1)] btrim_trimmed [OF v(4)] has_control_no_nul [OF v(5)]
    by (simp add: check_source_def pg_text_def)
qed

lemma check_recipient_valid:
  assumes "canonical_address X a d" and "length a \<le> maxEnvelopeRecipientBytes" and "\<not> cntrl X a"
  shows "check_recipient X (q, a, d)"
proof -
  have "canonical_domain X d" using assms(1) by (auto simp: canonical_address_def)
  moreover have "char_count a \<le> 254"
    using char_count_le [of a] assms(2) by (simp add: maxEnvelopeRecipientBytes_def)
  ultimately show ?thesis
    using canonical_address_text [OF assms(1)] assms(3)
    by (auto simp: check_recipient_def canonical_domain_def Suc_le_eq)
qed

section \<open>Sorted rows are read back in order\<close>

lemma order_by_sorted: "sorted_wrt le xs \<Longrightarrow> order_by le xs = xs"
proof (induction xs)
  case (Cons x xs)
  then show ?case by (cases xs) (auto simp: order_by_def)
qed (simp add: order_by_def)

lemma set_insert_by [simp]: "set (insert_by le x xs) = insert x (set xs)"
  by (induction xs) auto

lemma set_order_by [simp]: "set (order_by le xs) = set xs"
  by (induction xs) (auto simp: order_by_def)

lemma length_insert_by [simp]: "length (insert_by le x xs) = Suc (length xs)"
  by (induction xs) auto

lemma length_order_by [simp]: "length (order_by le xs) = length xs"
  by (induction xs) (auto simp: order_by_def)

lemma loadRecipientRows_app:
  "length acc + length rows \<le> maxQueueRecipients \<Longrightarrow>
   (\<forall>(r, d)\<in>set rows. normalizeQueueRecipient X r = Inr (r, d)) \<Longrightarrow>
   loadRecipientRows X rows acc = Inr (acc @ map fst rows)"
  by (induction X rows acc rule: loadRecipientRows.induct) auto

lemma loadSourceRows_app:
  "length acc + length rows \<le> maxQueueSources \<Longrightarrow>
   (\<forall>(k, i)\<in>set rows. valid_source (QueueSource k i)) \<Longrightarrow>
   loadSourceRows rows acc = Inr (acc @ map (\<lambda>(k, i). QueueSource k i) rows)"
  by (induction rows acc rule: loadSourceRows.induct) (auto simp: valid_source_def)

lemma loadRecipientRows_Inr:
  assumes "loadRecipientRows X rows acc = Inr rs" and "length acc \<le> maxQueueRecipients"
  shows "rs = acc @ map fst rows \<and> length rs \<le> maxQueueRecipients
   \<and> (\<forall>(r, d)\<in>set rows. normalizeQueueRecipient X r = Inr (r, d))"
  using assms
proof (induction rows arbitrary: acc)
  case (Cons row rows)
  obtain r d where row: "row = (r, d)" by (cases row)
  from Cons.prems have "length acc < maxQueueRecipients" "normalizeQueueRecipient X r = Inr (r, d)"
    "loadRecipientRows X rows (acc @ [r]) = Inr rs"
    unfolding row by (auto split: if_splits sum.splits)
  then show ?case using Cons.IH [of "acc @ [r]"] unfolding row by auto
qed auto

lemma loadSourceRows_Inr:
  "loadSourceRows rows acc = Inr ss \<Longrightarrow> length acc \<le> maxQueueSources \<Longrightarrow>
   ss = acc @ map (\<lambda>(k, i). QueueSource k i) rows \<and> length ss \<le> maxQueueSources
   \<and> (\<forall>(k, i)\<in>set rows. valid_source (QueueSource k i))"
  by (induction rows acc rule: loadSourceRows.induct)
    (auto simp: valid_source_def split: if_splits)

section \<open>Canonical records\<close>

text \<open>What a registration is turned into, and what loading gives back: the identity of a message.\<close>

definition canonical_sender :: "external \<Rightarrow> string \<Rightarrow> bool" where
  "canonical_sender X s \<longleftrightarrow> s = ''<>'' \<or> (\<exists>d. canonical_address X s d)"

definition canonical_identity :: "external \<Rightarrow> QueueRecord \<Rightarrow> bool" where
  "canonical_identity X r \<longleftrightarrow>
     validLongQueueID (qr_queue_id r) \<and> validLowerHexDigest (qr_fingerprint r)
     \<and> canonical_sender X (qr_sender r)
     \<and> qr_recipients r \<noteq> [] \<and> length (qr_recipients r) \<le> maxQueueRecipients
     \<and> sorted (qr_recipients r) \<and> distinct (qr_recipients r)
     \<and> (\<forall>a\<in>set (qr_recipients r). (\<exists>d. canonical_address X a d) \<and> framable a)
     \<and> qr_sources r \<noteq> [] \<and> length (qr_sources r) \<le> maxQueueSources
     \<and> sorted (qr_sources r) \<and> distinct (qr_sources r) \<and> (\<forall>s\<in>set (qr_sources r). valid_source s)
     \<and> qr_recipient_digest r = digestStrings (qr_recipients r)
     \<and> qr_source_digest r = digestSources (qr_sources r)"

lemma normalizeQueueRegistration_Inr:
  "normalizeQueueRegistration X r = Inr record \<longleftrightarrow>
     validLongQueueID (qreg_queue_id r) \<and> validLowerHexDigest (qreg_fingerprint r)
     \<and> qreg_recipients r \<noteq> [] \<and> length (qreg_recipients r) \<le> maxQueueRecipients
     \<and> qreg_sources r \<noteq> [] \<and> length (qreg_sources r) \<le> maxQueueSources
     \<and> (\<forall>s\<in>set (qreg_sources r). valid_source s)
     \<and> (\<exists>sender pairs. normalizeQueueSender X (qreg_sender r) = Inr sender
        \<and> map (normalizeQueueRecipient X) (qreg_recipients r) = map Inr pairs
        \<and> record =
            \<lparr>qr_queue_id = qreg_queue_id r, qr_fingerprint = qreg_fingerprint r, qr_sender = sender,
             qr_recipient_digest = digestStrings (sorted_set (map fst pairs)),
             qr_source_digest = digestSources (sorted_set (qreg_sources r)),
             qr_hold_state = HoldPending, qr_reason = [], qr_revisions = [], qr_attempts = 0,
             qr_error_code = [], qr_first_seen = 0, qr_updated = 0,
             qr_recipients = sorted_set (map fst pairs), qr_sources = sorted_set (qreg_sources r)\<rparr>)"
proof -
  have ss: "sort (map snd (sourceSet (qreg_sources r))) = sorted_set (qreg_sources r)"
    if "\<forall>s\<in>set (qreg_sources r). valid_source s"
    using sourceSet_sorted that by (auto simp: valid_source_def)
  have ex: "list_ex (\<lambda>s. \<not> validSourceKind (src_kind s) \<or> \<not> validQueueObjectID (src_object s)) (qreg_sources r)
      \<longleftrightarrow> \<not> (\<forall>s\<in>set (qreg_sources r). valid_source s)"
    by (auto simp: valid_source_def list_ex_iff)
  show ?thesis
    unfolding normalizeQueueRegistration_def ex
    by (cases "normalizeQueueSender X (qreg_sender r)";
        cases "mapR (normalizeQueueRecipient X) (qreg_recipients r)")
      (auto simp: ss mapR_Inr [symmetric] Let_def)
qed

lemma normalizeQueueSender_canonical:
  assumes "idna_lookup X" and "normalizeQueueSender X raw = Inr s"
  shows "canonical_sender X s"
  using assms normalizeQueueRecipient_canonical [OF assms(1)]
  by (fastforce simp: normalizeQueueSender_def canonical_sender_def split: if_splits sum.splits)

lemma normalizeQueueRecipient_framable:
  assumes "idna_lookup X" and "normalizeQueueRecipient X raw = Inr (a, d)"
  shows "framable a"
proof -
  obtain l dd where "TrimSpace raw = l @ CHR ''@'' # dd" "length (TrimSpace raw) \<le> 254"
    "NormalizeDomain X dd = Inr d" and a: "a = l @ CHR ''@'' # d"
    using assms normalizeQueueRecipient_iff unfolding maxEnvelopeRecipientBytes_def by blast
  then have "length l \<le> 254" "length d \<le> 253"
    using NormalizeDomain_canonical [OF assms(1)] by (auto simp: canonical_domain_def)
  then show ?thesis by (simp add: framable_def a)
qed

lemma normalizeQueueRegistration_canonical:
  assumes X: "idna_lookup X" and n: "normalizeQueueRegistration X r = Inr record"
  shows "canonical_identity X record"
proof -
  obtain sender pairs where s: "normalizeQueueSender X (qreg_sender r) = Inr sender"
    and p: "map (normalizeQueueRecipient X) (qreg_recipients r) = map Inr pairs"
    and rec: "qr_recipients record = sorted_set (map fst pairs)" "qr_sender record = sender"
    using n normalizeQueueRegistration_Inr by auto
  have "(\<exists>d. canonical_address X a d) \<and> framable a" if "a \<in> set (qr_recipients record)" for a
  proof -
    obtain d where "(a, d) \<in> set pairs" using \<open>a \<in> _\<close> rec by auto
    then obtain raw where "normalizeQueueRecipient X raw = Inr (a, d)"
      using p by (metis image_iff list.set_map)
    then show ?thesis
      using normalizeQueueRecipient_canonical [OF X] normalizeQueueRecipient_framable [OF X] by blast
  qed
  moreover have "length pairs = length (qreg_recipients r)" using p by (metis length_map)
  moreover have "canonical_sender X sender" by (rule normalizeQueueSender_canonical [OF X s])
  ultimately show ?thesis
    using n rec unfolding normalizeQueueRegistration_Inr canonical_identity_def
    using length_sorted_set [of "map fst pairs"] length_sorted_set [of "qreg_sources r"]
    by (auto dest!: arg_cong [where f = qr_recipients])
qed

section \<open>The tables\<close>

text \<open>Primary keys and foreign keys of the three queue tables.\<close>

definition queue_tables_ok :: "db \<Rightarrow> bool" where
  "queue_tables_ok db \<longleftrightarrow>
     distinct (map m_queue_id (messages db))
     \<and> distinct (map (\<lambda>(q, r, d). (q, r)) (recipients db)) \<and> distinct (sources db)
     \<and> fst ` set (recipients db) \<subseteq> m_queue_id ` set (messages db)
     \<and> fst ` set (sources db) \<subseteq> m_queue_id ` set (messages db)"

lemma find_message_None: "find_message db q = None \<longleftrightarrow> q \<notin> m_queue_id ` set (messages db)"
  by (auto simp: find_message_def find_None_iff)

lemma find_message_Some: "find_message db q = Some m \<Longrightarrow> m \<in> set (messages db) \<and> m_queue_id m = q"
  unfolding find_message_def find_Some_iff by auto

lemma find_append: "List.find P (xs @ ys) = (case List.find P xs of None \<Rightarrow> List.find P ys | Some x \<Rightarrow> Some x)"
  by (induction xs) auto

text \<open>The domain of a canonical address.\<close>

definition address_domain :: "external \<Rightarrow> string \<Rightarrow> string" where
  "address_domain X a = snd (projr (normalizeQueueRecipient X a))"

text \<open>What the database can store of a record, beyond its canonical form.\<close>

definition storable :: "external \<Rightarrow> QueueRecord \<Rightarrow> bool" where
  "storable X r \<longleftrightarrow>
     (\<forall>a\<in>insert (qr_sender r) (set (qr_recipients r)).
        length a \<le> maxEnvelopeRecipientBytes \<and> \<not> cntrl X a)
     \<and> (\<forall>s\<in>set (qr_sources r). \<not> cntrl X (src_object s))"

definition stored_rows :: "external \<Rightarrow> QueueRecord \<Rightarrow> int \<Rightarrow> db \<Rightarrow> db" where
  "stored_rows X r now db =
     db\<lparr>messages := messages db @ [message_of r now],
        recipients := recipients db @ map (\<lambda>a. (qr_queue_id r, a, address_domain X a)) (qr_recipients r),
        sources := sources db @ map (\<lambda>s. (qr_queue_id r, src_kind s, src_object s)) (qr_sources r)\<rparr>"

lemma recipients_fixed:
  assumes "idna_lookup X" and "canonical_identity X r" and "storable X r" and "a \<in> set (qr_recipients r)"
  shows "normalizeQueueRecipient X a = Inr (a, address_domain X a)"
    and "canonical_address X a (address_domain X a)"
proof -
  obtain d where d: "canonical_address X a d" using assms(2,4) by (auto simp: canonical_identity_def)
  have "length a \<le> maxEnvelopeRecipientBytes" using assms(3,4) by (auto simp: storable_def)
  then have "normalizeQueueRecipient X a = Inr (a, d)" by (rule normalizeQueueRecipient_fixed [OF assms(1) d])
  with d show "normalizeQueueRecipient X a = Inr (a, address_domain X a)"
    and "canonical_address X a (address_domain X a)" by (auto simp: address_domain_def)
qed

lemma sender_fixed:
  assumes "idna_lookup X" and "canonical_sender X s" and "length s \<le> maxEnvelopeRecipientBytes"
  shows "normalizeQueueSender X s = Inr s" and "pg_text s" and "2 \<le> char_count s"
proof -
  consider "s = ''<>''" | d where "canonical_address X s d" "s \<noteq> ''<>''"
    using assms(2) by (auto simp: canonical_sender_def)
  then have "normalizeQueueSender X s = Inr s \<and> pg_text s \<and> 2 \<le> char_count s"
  proof cases
    case 1
    have "pg_text ''<>'' \<and> 2 \<le> char_count ''<>''" by code_simp
    then show ?thesis using 1 by (simp add: normalizeQueueSender_def)
  next
    case 2
    then show ?thesis
      using normalizeQueueRecipient_fixed [OF assms(1) 2(1) assms(3)] canonical_address_text [OF 2(1)]
      by (simp add: normalizeQueueSender_def)
  qed
  then show "normalizeQueueSender X s = Inr s" and "pg_text s" and "2 \<le> char_count s" by auto
qed

lemma check_message_of:
  assumes "idna_lookup X" and "canonical_identity X r" and "storable X r"
  shows "check_message X (message_of r now)"
proof -
  have s: "canonical_sender X (qr_sender r)" "length (qr_sender r) \<le> maxEnvelopeRecipientBytes"
    "\<not> cntrl X (qr_sender r)"
    using assms(2,3) by (auto simp: canonical_identity_def storable_def)
  have "char_count (qr_sender r) \<le> 254"
    using char_count_le [of "qr_sender r"] s(2) by (simp add: maxEnvelopeRecipientBytes_def)
  then show ?thesis
    using assms(2) s sender_fixed(2,3) [OF assms(1) s(1,2)]
    by (auto simp: check_message_def message_of_def canonical_identity_def hold_states_def int8_max_def)
qed

section \<open>Registering a new message\<close>

definition bytewise :: "external \<Rightarrow> bool" where
  "bytewise X \<longleftrightarrow> collate X = (\<le>)"

lemma copyQueueRecipients_ok:
  assumes X: "idna_lookup X" and r: "canonical_identity X r" "storable X r"
    and fresh: "qr_queue_id r \<notin> fst ` set (recipients db)"
    and dist: "distinct (map (\<lambda>(q, r, d). (q, r)) (recipients db))"
  shows "copyQueueRecipients X r db =
    Inr (db\<lparr>recipients := recipients db @ map (\<lambda>a. (qr_queue_id r, a, address_domain X a)) (qr_recipients r)\<rparr>)"
proof -
  let ?rows = "map (\<lambda>a. (qr_queue_id r, a, address_domain X a)) (qr_recipients r)"
  have fixed: "normalizeQueueRecipient X a = Inr (a, address_domain X a)"
    "canonical_address X a (address_domain X a)" if "a \<in> set (qr_recipients r)" for a
    using recipients_fixed [OF X r that] by blast+
  have rows: "mapR (\<lambda>recipient. case normalizeQueueRecipient X recipient of Inl e \<Rightarrow> Inl e
          | Inr (_, domain) \<Rightarrow> Inr (qr_queue_id r, recipient, domain)) (qr_recipients r) = Inr ?rows"
    by (rule mapR_fixed) (simp add: fixed)
  have chk: "list_all (check_recipient X) ?rows"
    using r(2) fixed check_recipient_valid by (auto simp: list_all_iff storable_def)
  have "distinct (qr_recipients r)" using r(1) by (simp add: canonical_identity_def)
  then have dr: "distinct (map (\<lambda>(q, r, d). (q, r)) ?rows)"
    by (simp add: distinct_map inj_on_def)
  have disj: "set (map (\<lambda>(q, r, d). (q, r)) (recipients db)) \<inter> set (map (\<lambda>(q, r, d). (q, r)) ?rows) = {}"
    using fresh by force
  show ?thesis
    using rows chk dist dr disj unfolding copyQueueRecipients_def copy_recipients_def Let_def map_append distinct_append
    by simp
qed

lemma copyQueueSources_ok:
  assumes r: "canonical_identity X r" "storable X r"
    and fresh: "qr_queue_id r \<notin> fst ` set (sources db)" and dist: "distinct (sources db)"
  shows "copyQueueSources X r db =
    Inr (db\<lparr>sources := sources db @ map (\<lambda>s. (qr_queue_id r, src_kind s, src_object s)) (qr_sources r)\<rparr>)"
proof -
  let ?rows = "map (\<lambda>s. (qr_queue_id r, src_kind s, src_object s)) (qr_sources r)"
  have chk: "list_all (check_source X) ?rows"
    using r check_source_valid by (auto simp: list_all_iff storable_def canonical_identity_def)
  have "distinct (qr_sources r)" using r(1) by (simp add: canonical_identity_def)
  then have dr: "distinct ?rows" by (simp add: distinct_map inj_on_def QueueSource.expand)
  have disj: "set (sources db) \<inter> set ?rows = {}" using fresh by force
  show ?thesis
    using chk dist dr disj unfolding copyQueueSources_def copy_sources_def distinct_append by simp
qed

text \<open>Reading back the rows of a message that was just stored.\<close>

lemma stored_recipient_rows:
  assumes "bytewise X" and "canonical_identity X r" and "qr_queue_id r \<notin> fst ` set (recipients db)"
  shows "recipient_rows X (stored_rows X r now db) (qr_queue_id r)
     = map (\<lambda>a. (a, address_domain X a)) (qr_recipients r)"
proof -
  let ?rows = "map (\<lambda>a. (a, address_domain X a)) (qr_recipients r)"
  have old: "filter (\<lambda>row. fst row = qr_queue_id r) (recipients db) = []"
    using assms(3) by (force simp: filter_empty_conv)
  have "sorted_wrt (\<lambda>a b. fst a \<le> fst b) ?rows"
    using assms(2) by (simp add: canonical_identity_def sorted_wrt_map)
  then have "order_by (\<lambda>a b. fst a \<le> fst b) ?rows = ?rows" by (rule order_by_sorted)
  then show ?thesis
    using old assms(1) by (simp add: recipient_rows_def stored_rows_def bytewise_def filter_map o_def)
qed

lemma stored_source_rows:
  assumes "bytewise X" and "canonical_identity X r" and "qr_queue_id r \<notin> fst ` set (sources db)"
  shows "source_rows X (stored_rows X r now db) (qr_queue_id r)
     = map (\<lambda>s. (src_kind s, src_object s)) (qr_sources r)"
proof -
  let ?rows = "map (\<lambda>s. (src_kind s, src_object s)) (qr_sources r)"
  let ?le = "\<lambda>a b :: string \<times> string. if fst a = fst b then snd a \<le> snd b else fst a \<le> fst b"
  have old: "filter (\<lambda>row. fst row = qr_queue_id r) (sources db) = []"
    using assms(3) by (force simp: filter_empty_conv)
  have "sorted_wrt (\<le>) (qr_sources r)" using assms(2) by (simp add: canonical_identity_def)
  then have "sorted_wrt ?le ?rows"
    unfolding sorted_wrt_map
    by (rule sorted_wrt_mono_rel [rotated]) (auto simp: less_eq_QueueSource_def split: if_splits)
  then have "order_by ?le ?rows = ?rows" by (rule order_by_sorted)
  then show ?thesis
    using old unfolding source_rows_def stored_rows_def assms(1) [unfolded bytewise_def]
    by (simp add: filter_map o_def split del: if_split)
qed

lemma loadParent_of:
  assumes "idna_lookup X" and "canonical_identity X r" and "storable X r" and "now \<noteq> 0"
    and "qr_hold_state r = HoldPending" "qr_reason r = []" "qr_revisions r = []" "qr_attempts r = 0"
    "qr_error_code r = []"
  shows "loadParent X (qr_queue_id r) (message_of r now) =
    Inr (r\<lparr>qr_first_seen := now, qr_updated := now, qr_recipients := [], qr_sources := []\<rparr>)"
proof -
  have s: "canonical_sender X (qr_sender r)" "length (qr_sender r) \<le> maxEnvelopeRecipientBytes"
    using assms(2,3) by (auto simp: canonical_identity_def storable_def)
  show ?thesis
    using assms(2,4-) sender_fixed(1) [OF assms(1) s]
    by (auto simp: loadParent_def message_of_def canonical_identity_def validHoldState_def
        validQueuePolicyState_def)
qed

lemma load_stored_rows:
  assumes X: "idna_lookup X" "bytewise X" and r: "canonical_identity X r" "storable X r"
    and now: "now \<noteq> 0" and db: "queue_tables_ok db" and fresh: "find_message db (qr_queue_id r) = None"
    and init: "qr_hold_state r = HoldPending" "qr_reason r = []" "qr_revisions r = []" "qr_attempts r = 0"
    "qr_error_code r = []"
  shows "loadQueueRecord X (stored_rows X r now db) (qr_queue_id r) =
    Inr (r\<lparr>qr_first_seen := now, qr_updated := now\<rparr>)"
proof -
  have nq: "qr_queue_id r \<notin> m_queue_id ` set (messages db)" using fresh by (simp add: find_message_None)
  then have nr: "qr_queue_id r \<notin> fst ` set (recipients db)" and ns: "qr_queue_id r \<notin> fst ` set (sources db)"
    using db by (auto simp: queue_tables_ok_def)
  have "m_queue_id (message_of r now) = qr_queue_id r" by (simp add: message_of_def)
  then have m: "find_message (stored_rows X r now db) (qr_queue_id r) = Some (message_of r now)"
    using fresh by (simp add: find_message_def stored_rows_def find_append)
  have rc: "loadRecipientRows X (map (\<lambda>a. (a, address_domain X a)) (qr_recipients r)) [] = Inr (qr_recipients r)"
    using recipients_fixed(1) [OF X(1) r] r(1)
    by (subst loadRecipientRows_app) (auto simp: canonical_identity_def o_def)
  have sc: "loadSourceRows (map (\<lambda>s. (src_kind s, src_object s)) (qr_sources r)) [] = Inr (qr_sources r)"
    using r(1) by (subst loadSourceRows_app) (auto simp: canonical_identity_def o_def)
  show ?thesis
    unfolding loadQueueRecord_def m stored_recipient_rows [OF X(2) r(1) nr] stored_source_rows [OF X(2) r(1) ns] rc sc
    using loadParent_of [OF X(1) r now init] r(1) by (simp add: canonical_identity_def)
qed

text \<open>All statements of the transaction up to the final load succeed.\<close>

lemma register_tx_until_load:
  assumes X: "idna_lookup X" and r: "canonical_identity X r" "storable X r"
    and db: "queue_tables_ok db" and fresh: "find_message db (qr_queue_id r) = None"
  shows "register_tx X r now db =
     (case loadQueueRecord X (stored_rows X r now db) (qr_queue_id r) of
        Inl e \<Rightarrow> Inl e
      | Inr stored \<Rightarrow>
          if \<not> sameQueueIdentity stored r
          then Inl (Err ''Postfix queue ID is already bound to different arrival metadata'')
          else Inr ((stored, True), stored_rows X r now db))"
proof -
  have nq: "qr_queue_id r \<notin> m_queue_id ` set (messages db)" using fresh by (simp add: find_message_None)
  let ?db1 = "db\<lparr>messages := messages db @ [message_of r now]\<rparr>"
  have ins: "insert_message X (message_of r now) db = Inr (1, ?db1)"
    using check_message_of [OF X r] fresh by (simp add: insert_message_def message_of_def)
  have c1: "copyQueueRecipients X r ?db1 = Inr (?db1\<lparr>recipients := recipients ?db1 @
      map (\<lambda>a. (qr_queue_id r, a, address_domain X a)) (qr_recipients r)\<rparr>)"
    using nq db by (intro copyQueueRecipients_ok [OF X r]) (auto simp: queue_tables_ok_def)
  let ?db2 = "?db1\<lparr>recipients := recipients ?db1 @
      map (\<lambda>a. (qr_queue_id r, a, address_domain X a)) (qr_recipients r)\<rparr>"
  have c2: "copyQueueSources X r ?db2 = Inr (?db2\<lparr>sources := sources ?db2 @
      map (\<lambda>s. (qr_queue_id r, src_kind s, src_object s)) (qr_sources r)\<rparr>)"
    using nq db by (intro copyQueueSources_ok [OF r]) (auto simp: queue_tables_ok_def)
  have db3: "?db2\<lparr>sources := sources ?db2 @
      map (\<lambda>s. (qr_queue_id r, src_kind s, src_object s)) (qr_sources r)\<rparr> = stored_rows X r now db"
    by (simp add: stored_rows_def)
  have "bindR (copyQueueRecipients X r ?db1) (copyQueueSources X r) = Inr (stored_rows X r now db)"
    unfolding bindR_def c1 using c2 db3 by simp
  then show ?thesis unfolding register_tx_def ins by simp
qed

lemma register_tx_fresh:
  assumes X: "idna_lookup X" "bytewise X" and r: "canonical_identity X r" "storable X r"
    and now: "now \<noteq> 0" and db: "queue_tables_ok db" and fresh: "find_message db (qr_queue_id r) = None"
    and init: "qr_hold_state r = HoldPending" "qr_reason r = []" "qr_revisions r = []" "qr_attempts r = 0"
    "qr_error_code r = []"
  shows "register_tx X r now db =
    Inr ((r\<lparr>qr_first_seen := now, qr_updated := now\<rparr>, True), stored_rows X r now db)"
  unfolding register_tx_until_load [OF X(1) r db fresh] load_stored_rows [OF X r now db fresh init]
  by (simp add: sameQueueIdentity_def)

text \<open>A queue ID that is already known: the database is not changed.\<close>

lemma register_tx_known:
  assumes "find_message db (qr_queue_id r) \<noteq> None" and "register_tx X r now db = Inr ((stored, created), db')"
  shows "db' = db \<and> \<not> created \<and> loadQueueRecord X db (qr_queue_id r) = Inr stored \<and> sameQueueIdentity stored r"
  using assms unfolding register_tx_def insert_message_def
  by (auto simp: message_of_def split: if_splits sum.splits)

lemma stored_rows_tables_ok:
  assumes db: "queue_tables_ok db" and fresh: "find_message db (qr_queue_id r) = None"
    and r: "canonical_identity X r"
  shows "queue_tables_ok (stored_rows X r now db)"
proof -
  have nq: "qr_queue_id r \<notin> m_queue_id ` set (messages db)" using fresh by (simp add: find_message_None)
  then have nr: "qr_queue_id r \<notin> fst ` set (recipients db)" and ns: "qr_queue_id r \<notin> fst ` set (sources db)"
    using db by (auto simp: queue_tables_ok_def)
  have "distinct (qr_recipients r)" "distinct (qr_sources r)" using r by (auto simp: canonical_identity_def)
  then have "distinct (map (\<lambda>(q, r, d). (q, r)) (map (\<lambda>a. (qr_queue_id r, a, address_domain X a)) (qr_recipients r)))"
    "distinct (map (\<lambda>s. (qr_queue_id r, src_kind s, src_object s)) (qr_sources r))"
    by (auto simp: distinct_map inj_on_def QueueSource.expand)
  moreover have "(\<lambda>(q, r, d). (q, r)) ` set (recipients db) \<inter>
      (\<lambda>(q, r, d). (q, r)) ` (\<lambda>a. (qr_queue_id r, a, address_domain X a)) ` set (qr_recipients r) = {}"
    using nr by force
  moreover have "set (sources db) \<inter> (\<lambda>s. (qr_queue_id r, src_kind s, src_object s)) ` set (qr_sources r) = {}"
    using ns by force
  ultimately show ?thesis
    using db nq unfolding queue_tables_ok_def stored_rows_def
    by (auto simp: message_of_def image_Un)
qed

lemma load_stored_rows_other:
  assumes "q \<noteq> qr_queue_id r"
  shows "loadQueueRecord X (stored_rows X r now db) q = loadQueueRecord X db q"
proof -
  have "find_message (stored_rows X r now db) q = find_message db q"
    using assms by (auto simp: find_message_def stored_rows_def find_append message_of_def split: option.splits)
  moreover have "recipient_rows X (stored_rows X r now db) q = recipient_rows X db q"
    "source_rows X (stored_rows X r now db) q = source_rows X db q"
    using assms by (simp_all add: recipient_rows_def source_rows_def stored_rows_def filter_map o_def)
  ultimately show ?thesis unfolding loadQueueRecord_def by (simp only:)
qed

lemma normalizeQueueRegistration_init:
  assumes "normalizeQueueRegistration X r = Inr record"
  shows "qr_hold_state record = HoldPending" "qr_reason record = []" "qr_revisions record = []"
    "qr_attempts record = 0" "qr_error_code record = []" "qr_queue_id record = qreg_queue_id r"
  using assms by (auto simp: normalizeQueueRegistration_Inr)

section \<open>What a successful load shows\<close>

lemma loadQueueRecord_Inr:
  assumes "loadQueueRecord X db q = Inr r"
  shows "\<exists>m. find_message db q = Some m \<and> loadParent X q m = Inr (r\<lparr>qr_recipients := [], qr_sources := []\<rparr>)
    \<and> qr_recipients r = map fst (recipient_rows X db q)
    \<and> (\<forall>(a, d)\<in>set (recipient_rows X db q). normalizeQueueRecipient X a = Inr (a, d))
    \<and> qr_sources r = map (\<lambda>(k, i). QueueSource k i) (source_rows X db q)
    \<and> (\<forall>s\<in>set (qr_sources r). valid_source s)
    \<and> qr_recipients r \<noteq> [] \<and> length (qr_recipients r) \<le> maxQueueRecipients
    \<and> qr_sources r \<noteq> [] \<and> length (qr_sources r) \<le> maxQueueSources
    \<and> qr_recipient_digest r = digestStrings (qr_recipients r)
    \<and> qr_source_digest r = digestSources (qr_sources r)"
proof -
  obtain m p rs ss where m: "find_message db q = Some m" "loadParent X q m = Inr p"
    and rs: "loadRecipientRows X (recipient_rows X db q) [] = Inr rs"
    and ss: "loadSourceRows (source_rows X db q) [] = Inr ss"
    and ok: "rs \<noteq> []" "ss \<noteq> []" "digestStrings rs = qr_recipient_digest p" "digestSources ss = qr_source_digest p"
    and r: "r = p\<lparr>qr_recipients := rs, qr_sources := ss\<rparr>"
    using assms by (auto simp: loadQueueRecord_def split: option.splits sum.splits if_splits)
  have p: "qr_recipients p = []" "qr_sources p = []"
    using m(2) by (auto simp: loadParent_def split: option.splits if_splits)
  have "loadParent X q m = Inr (r\<lparr>qr_recipients := [], qr_sources := []\<rparr>)"
    using m(2) p r by simp
  then show ?thesis
    using m(1) ok r loadRecipientRows_Inr [OF rs] loadSourceRows_Inr [OF ss] by auto
qed

lemma loadParent_Inr:
  assumes "loadParent X q m = Inr r"
  shows "m_queue_id m = q \<and> qr_queue_id r = q \<and> qr_fingerprint r = m_fingerprint m \<and> qr_sender r = m_sender m
    \<and> qr_recipient_digest r = m_recipient_digest m \<and> qr_source_digest r = m_source_digest m
    \<and> qr_hold_state r = m_hold_state m \<and> validHoldState (m_hold_state m) \<and> validLongQueueID q
    \<and> normalizeQueueSender X (m_sender m) = Inr (m_sender m)
    \<and> validLowerHexDigest (m_fingerprint m) \<and> 0 \<le> m_attempts m
    \<and> m_revisions m = Some (qr_revisions r)
    \<and> m_first_seen m \<noteq> 0 \<and> m_first_seen m \<le> m_updated m
    \<and> qr_attempts r = word_of_int (m_attempts m)
    \<and> (qr_hold_state r = HoldPending \<longleftrightarrow> m_reason m = None)
    \<and> (qr_hold_state r = HoldPending \<longleftrightarrow> qr_revisions r = [])"
  using assms unfolding loadParent_def
  by (auto simp: validQueuePolicyState_def split: option.splits if_splits)

section \<open>Properties\<close>

text \<open>\<open>normalizeQueueRegistration\<close> depends on the recipients and sources as sets: a registration with
  the same queue ID, fingerprint and sender whose recipients and sources are permuted or repeated
  (within the limits) is turned into the same record, which is in canonical form: sorted, without
  duplicates, every address canonical, every source valid, both digests computed from the lists.\<close>

theorem normalizeQueueRegistration_set_based:
  assumes "idna_lookup X" and "normalizeQueueRegistration X r = Inr record"
    and "set rs = set (qreg_recipients r)" and "length rs \<le> maxQueueRecipients"
    and "set ss = set (qreg_sources r)" and "length ss \<le> maxQueueSources"
  shows "normalizeQueueRegistration X (r\<lparr>qreg_recipients := rs, qreg_sources := ss\<rparr>) = Inr record
    \<and> canonical_identity X record"
proof -
  obtain sender pairs where p: "map (normalizeQueueRecipient X) (qreg_recipients r) = map Inr pairs"
    and rest: "normalizeQueueSender X (qreg_sender r) = Inr sender"
    using assms(2) normalizeQueueRegistration_Inr by auto
  have "\<exists>x. normalizeQueueRecipient X raw = Inr x" if "raw \<in> set rs" for raw
    using that assms(3) p by (metis image_iff list.set_map)
  then obtain f where f: "\<And>raw. raw \<in> set rs \<Longrightarrow> normalizeQueueRecipient X raw = Inr (f raw)" by metis
  then have p': "map (normalizeQueueRecipient X) rs = map Inr (map f rs)" by simp
  have "Inr ` set (map f rs) = (Inr ` set pairs :: (string \<times> string) result set)"
    using p p' assms(3) by (metis list.set_map)
  then have "set (map f rs) = set pairs" by (simp add: inj_image_eq_iff)
  then have sp: "sorted_set (map fst (map f rs)) = sorted_set (map fst pairs)"
    by (intro sorted_set_eq) (metis list.set_map)
  have "pairs = pairs'" if "map (normalizeQueueRecipient X) (qreg_recipients r) = map Inr pairs'" for pairs'
    using p that by (metis inj_Inr inj_map_eq_map)
  then have "normalizeQueueRegistration X (r\<lparr>qreg_recipients := rs, qreg_sources := ss\<rparr>) = Inr record"
    using assms(2-) rest p' sp sorted_set_eq [OF assms(5)] unfolding normalizeQueueRegistration_Inr
    by (auto intro!: exI [of _ "map f rs"])
  then show ?thesis using normalizeQueueRegistration_canonical [OF assms(1,2)] by blast
qed


text \<open>C16: Registering a new message. With the bytewise collation, a registration that normalises and whose
  texts the columns can hold is stored when its queue ID is new: \<open>Register\<close> returns the canonical
  record as created, the database then loads exactly that record under the queue ID, the
  records of all other queue IDs load as before, and the keys of the tables stay intact.\<close>

theorem Register_new:
  assumes X: "idna_lookup X" "bytewise X"
    and n: "normalizeQueueRegistration X r = Inr record" and st: "storable X record"
    and cx: "w_env w (w_count w) = cx" "cx_fate cx = TxOk" "cx_now cx \<noteq> 0" "cx_other cx (w_db w) = db"
    and db: "queue_tables_ok db" and fresh: "find_message db (qreg_queue_id r) = None"
  shows "\<exists>w'. Register X r w = (Inr (record\<lparr>qr_first_seen := cx_now cx, qr_updated := cx_now cx\<rparr>, True), w')
    \<and> loadQueueRecord X (w_db w') (qreg_queue_id r)
        = Inr (record\<lparr>qr_first_seen := cx_now cx, qr_updated := cx_now cx\<rparr>)
    \<and> (\<forall>q. q \<noteq> qreg_queue_id r \<longrightarrow> loadQueueRecord X (w_db w') q = loadQueueRecord X db q)
    \<and> queue_tables_ok (w_db w')"
proof -
  have ci: "canonical_identity X record" by (rule normalizeQueueRegistration_canonical [OF X(1) n])
  note init = normalizeQueueRegistration_init [OF n]
  have fr: "find_message db (qr_queue_id record) = None" using fresh init(6) by simp
  have "register_tx X record (cx_now cx) db =
      Inr ((record\<lparr>qr_first_seen := cx_now cx, qr_updated := cx_now cx\<rparr>, True), stored_rows X record (cx_now cx) db)"
    by (rule register_tx_fresh [OF X ci st cx(3) db fr init(1-5)])
  then have reg: "Register X r w =
      (Inr (record\<lparr>qr_first_seen := cx_now cx, qr_updated := cx_now cx\<rparr>, True),
       w\<lparr>w_count := Suc (w_count w), w_db := stored_rows X record (cx_now cx) db\<rparr>)"
    using n cx by (simp add: Register_def run_tx_def Let_def)
  moreover have "loadQueueRecord X (stored_rows X record (cx_now cx) db) (qreg_queue_id r)
      = Inr (record\<lparr>qr_first_seen := cx_now cx, qr_updated := cx_now cx\<rparr>)"
    using load_stored_rows [OF X ci st cx(3) db fr init(1-5)] init(6) by simp
  moreover have "queue_tables_ok (stored_rows X record (cx_now cx) db)"
    by (rule stored_rows_tables_ok [OF db fr ci])
  ultimately show ?thesis using load_stored_rows_other init(6) by auto
qed

text \<open>C17: Registering a known queue ID never writes: whatever the transaction returns, and even if its
  answer is lost, the database is the one it found; a successful answer reports the stored record,
  not created, and its immutable identity is the one registered. Reuse of a queue ID with other
  metadata is therefore refused.\<close>

theorem Register_known:
  assumes "cx_other (w_env w (w_count w)) (w_db w) = db" and "find_message db (qreg_queue_id r) \<noteq> None"
    and "normalizeQueueRegistration X r = Inr record"
  shows "w_db (snd (Register X r w)) = db
    \<and> (\<forall>stored created. fst (Register X r w) = Inr (stored, created) \<longrightarrow>
         \<not> created \<and> loadQueueRecord X db (qreg_queue_id r) = Inr stored \<and> sameQueueIdentity stored record)"
proof -
  have q: "qr_queue_id record = qreg_queue_id r" by (rule normalizeQueueRegistration_init(6) [OF assms(3)])
  then have known: "find_message db (qr_queue_id record) \<noteq> None" using assms(2) by simp
  show ?thesis
    using assms(1,3) register_tx_known [OF known] q
    by (auto simp: Register_def run_tx_def Let_def split: sum.splits if_splits) blast+
qed

text \<open>C18: Tamper evidence. If a record loads from two states of the database whose parent rows agree on the
  two digests, then the recipient lists agree and the source lists agree, unless the particular
  transcripts collide under SHA-256: a recipient or source row that is added, removed or altered
  makes the load fail.\<close>

theorem Load_tamper_evident:
  assumes X: "idna_lookup X" and r: "loadQueueRecord X db q = Inr r" and r': "loadQueueRecord X db' q = Inr r'"
    and "find_message db q = Some m" and "find_message db' q = Some m'"
    and "m_recipient_digest m = m_recipient_digest m'" and "m_source_digest m = m_source_digest m'"
  shows "(qr_recipients r = qr_recipients r' \<or> collides (transcript (qr_recipients r)) (transcript (qr_recipients r')))
    \<and> (qr_sources r = qr_sources r'
       \<or> collides (source_transcript (qr_sources r)) (source_transcript (qr_sources r')))"
proof -
  have dig: "digestStrings (qr_recipients x) = m_recipient_digest y \<and> digestSources (qr_sources x) = m_source_digest y
      \<and> list_all framable (qr_recipients x) \<and> list_all source_framable (qr_sources x)"
    if l: "loadQueueRecord X d q = Inr x" and f: "find_message d q = Some y" for d x y
  proof -
    from loadQueueRecord_Inr [OF l] f
    have p: "loadParent X q y = Inr (x\<lparr>qr_recipients := [], qr_sources := []\<rparr>)"
      and rows: "qr_recipients x = map fst (recipient_rows X d q)"
      "\<forall>(a, d)\<in>set (recipient_rows X d q). normalizeQueueRecipient X a = Inr (a, d)"
      and ss: "\<forall>s\<in>set (qr_sources x). valid_source s"
      and dg: "qr_recipient_digest x = digestStrings (qr_recipients x)" "qr_source_digest x = digestSources (qr_sources x)"
      by auto
    have "list_all framable (qr_recipients x)"
      using rows normalizeQueueRecipient_framable [OF X] by (fastforce simp: list_all_iff)
    then show ?thesis
      using loadParent_Inr [OF p] dg ss valid_source_framable by (auto simp: list_all_iff)
  qed
  show ?thesis
    using dig [OF r assms(4)] dig [OF r' assms(5)] assms(6,7) digestStrings_binds digestSources_binds by metis
qed

section \<open>Registration under another collation\<close>

definition collated :: "external \<Rightarrow> QueueRecord \<Rightarrow> string list" where
  "collated X r =
     map fst (order_by (\<lambda>a b. collate X (fst a) (fst b)) (map (\<lambda>a. (a, address_domain X a)) (qr_recipients r)))"

lemma load_stored_rows_collated:
  assumes X: "idna_lookup X" and r: "canonical_identity X r" "storable X r"
    and now: "now \<noteq> 0" and db: "queue_tables_ok db" and fresh: "find_message db (qr_queue_id r) = None"
    and init: "qr_hold_state r = HoldPending" "qr_reason r = []" "qr_revisions r = []" "qr_attempts r = 0"
    "qr_error_code r = []" and ord: "collated X r \<noteq> qr_recipients r"
  shows "loadQueueRecord X (stored_rows X r now db) (qr_queue_id r)
      = Inl (Err ''stored outbound queue provenance digest mismatch'')
    \<or> collides (transcript (collated X r)) (transcript (qr_recipients r))"
proof -
  have nq: "qr_queue_id r \<notin> m_queue_id ` set (messages db)" using fresh by (simp add: find_message_None)
  then have nr: "filter (\<lambda>row. fst row = qr_queue_id r) (recipients db) = []"
    and ns: "filter (\<lambda>row. fst row = qr_queue_id r) (sources db) = []"
    using db by (force simp: queue_tables_ok_def filter_empty_conv)+
  have "m_queue_id (message_of r now) = qr_queue_id r" by (simp add: message_of_def)
  then have m: "find_message (stored_rows X r now db) (qr_queue_id r) = Some (message_of r now)"
    using fresh by (simp add: find_message_def stored_rows_def find_append)
  have rr: "map fst (recipient_rows X (stored_rows X r now db) (qr_queue_id r)) = collated X r"
    and rs: "set (recipient_rows X (stored_rows X r now db) (qr_queue_id r)) =
        (\<lambda>a. (a, address_domain X a)) ` set (qr_recipients r)"
    and rl: "length (recipient_rows X (stored_rows X r now db) (qr_queue_id r)) = length (qr_recipients r)"
    using nr by (simp_all add: recipient_rows_def stored_rows_def collated_def filter_map o_def)
  have rc: "loadRecipientRows X (recipient_rows X (stored_rows X r now db) (qr_queue_id r)) [] = Inr (collated X r)"
    using recipients_fixed(1) [OF X r] r(1) rl
    by (subst loadRecipientRows_app) (auto simp: canonical_identity_def rs rr)
  have sset: "set (source_rows X (stored_rows X r now db) (qr_queue_id r)) =
        (\<lambda>s. (src_kind s, src_object s)) ` set (qr_sources r)"
    and sl: "length (source_rows X (stored_rows X r now db) (qr_queue_id r)) = length (qr_sources r)"
    using ns by (simp_all add: source_rows_def stored_rows_def filter_map o_def)
  have sc: "loadSourceRows (source_rows X (stored_rows X r now db) (qr_queue_id r)) [] =
      Inr ([] @ map (\<lambda>(k, i). QueueSource k i) (source_rows X (stored_rows X r now db) (qr_queue_id r)))"
    using r(1) sl by (intro loadSourceRows_app) (auto simp: canonical_identity_def sset)
  have "set (collated X r) = set (qr_recipients r)" by (simp add: collated_def image_image)
  then have "list_all framable (collated X r)" "list_all framable (qr_recipients r)"
    using r(1) by (auto simp: canonical_identity_def list_all_iff)
  then have "digestStrings (collated X r) \<noteq> digestStrings (qr_recipients r)
      \<or> collides (transcript (collated X r)) (transcript (qr_recipients r))"
    using digestStrings_binds ord by blast
  then show ?thesis
    unfolding loadQueueRecord_def m rc sc
    using loadParent_of [OF X r now init] r(1) by (auto simp: canonical_identity_def)
qed


section \<open>Witnesses\<close>

definition sample_registration :: QueueRegistration where
  "sample_registration =
     \<lparr>qreg_queue_id = ''4bXyzT3GkRz2cB'', qreg_fingerprint = replicate 64 CHR ''a'',
      qreg_sender = ''ann@example.com'', qreg_recipients = [''ab@example.com'', ''a-z@Example.com''],
      qreg_sources = [QueueSource SourceAlias ''alias-1'']\<rparr>"

definition sample_record :: QueueRecord where
  "sample_record =
     \<lparr>qr_queue_id = ''4bXyzT3GkRz2cB'', qr_fingerprint = replicate 64 CHR ''a'',
      qr_sender = ''ann@example.com'',
      qr_recipient_digest = digestStrings [''a-z@example.com'', ''ab@example.com''],
      qr_source_digest = digestSources [QueueSource SourceAlias ''alias-1''],
      qr_hold_state = HoldPending, qr_reason = [], qr_revisions = [], qr_attempts = 0,
      qr_error_code = [], qr_first_seen = 0, qr_updated = 0,
      qr_recipients = [''a-z@example.com'', ''ab@example.com''],
      qr_sources = [QueueSource SourceAlias ''alias-1'']\<rparr>"

text \<open>A collation that compares letters and digits before punctuation, as the usual locales do.\<close>

definition alnum :: "char \<Rightarrow> bool" where
  "alnum c \<longleftrightarrow> 48 \<le> byte c \<and> byte c \<le> 57 \<or> 97 \<le> byte c \<and> byte c \<le> 122"

definition locale_collate :: "string \<Rightarrow> string \<Rightarrow> bool" where
  "locale_collate a b =
     (if filter alnum a = filter alnum b then a \<le> b else filter alnum a \<le> filter alnum b)"

definition quiet :: "int \<Rightarrow> nat \<Rightarrow> tx_ctx" where
  "quiet now n = \<lparr>cx_fate = TxOk, cx_now = now, cx_rnd = Some (replicate 16 (of_nat n)), cx_other = id\<rparr>"

definition sample_world :: "db \<Rightarrow> unit world" where
  "sample_world db = \<lparr>w_db = db, w_env = quiet 1000, w_count = 0, w_postfix = ()\<rparr>"


definition ascii_collated :: "(string \<Rightarrow> string \<Rightarrow> bool) \<Rightarrow> external" where
  "ascii_collated c = ascii_external\<lparr>collate := c\<rparr>"

lemma ascii_collated_bytewise: "ascii_collated (\<le>) = ascii_external"
  by (simp add: ascii_collated_def ascii_external_def)

lemma ascii_collated_idna: "idna_lookup (ascii_collated c)"
proof -
  have "to_ascii (ascii_collated c) = to_ascii ascii_external" by (simp add: ascii_collated_def)
  then have "idna_lookup (ascii_collated c) = idna_lookup ascii_external" by (simp only: idna_lookup_def)
  then show ?thesis using ascii_external_idna by blast
qed

lemma sample_normalizes: "normalizeQueueRegistration (ascii_collated c) sample_registration = Inr sample_record"
proof -
  have pairs: "map (normalizeQueueRecipient (ascii_collated c)) (qreg_recipients sample_registration)
      = map Inr [(''ab@example.com'', ''example.com''), (''a-z@example.com'', ''example.com'')]"
    by code_simp
  have sender: "normalizeQueueSender (ascii_collated c) (qreg_sender sample_registration) = Inr ''ann@example.com''"
    by code_simp
  have ids: "validLongQueueID (qreg_queue_id sample_registration)"
    "validLowerHexDigest (qreg_fingerprint sample_registration)" by code_simp+
  have src: "\<forall>s\<in>set (qreg_sources sample_registration). valid_source s" by code_simp
  have srt: "sorted_set [''ab@example.com'', ''a-z@example.com''] = [''a-z@example.com'', ''ab@example.com'']"
    "sorted_set [QueueSource SourceAlias ''alias-1''] = [QueueSource SourceAlias ''alias-1'']"
    by code_simp+
  show ?thesis
    unfolding normalizeQueueRegistration_Inr
    using ids src sender pairs srt
    by (auto simp: sample_registration_def sample_record_def queue_limits
        intro!: exI [of _ "[(''ab@example.com'', ''example.com''), (''a-z@example.com'', ''example.com'')]"])
qed

lemma sample_storable: "storable (ascii_collated c) sample_record"
  by (simp add: storable_def sample_record_def ascii_collated_def ascii_external_def maxEnvelopeRecipientBytes_def)

lemma queue_tables_ok_empty: "queue_tables_ok empty_db"
  by (simp add: queue_tables_ok_def empty_db_def)

lemma find_message_empty: "find_message empty_db q = None"
  by (simp add: find_message_def empty_db_def)

theorem normalizeQueueRegistration_set_based_witness:
  "normalizeQueueRegistration (ascii_collated (\<le>))
     (sample_registration\<lparr>qreg_recipients := [''a-z@Example.com'', ''ab@example.com'', ''a-z@Example.com''],
                          qreg_sources := [QueueSource SourceAlias ''alias-1'', QueueSource SourceAlias ''alias-1'']\<rparr>)
   = Inr sample_record"
proof -
  have "set [''a-z@Example.com'', ''ab@example.com'', ''a-z@Example.com''] = set (qreg_recipients sample_registration)"
    "length [''a-z@Example.com'', ''ab@example.com'', ''a-z@Example.com''] \<le> maxQueueRecipients"
    "set [QueueSource SourceAlias ''alias-1'', QueueSource SourceAlias ''alias-1''] = set (qreg_sources sample_registration)"
    "length [QueueSource SourceAlias ''alias-1'', QueueSource SourceAlias ''alias-1''] \<le> maxQueueSources"
    by (auto simp: sample_registration_def queue_limits)
  from normalizeQueueRegistration_set_based [OF ascii_collated_idna sample_normalizes this] show ?thesis by blast
qed


theorem Register_new_witness:
  "\<exists>w'. Register (ascii_collated (\<le>)) sample_registration (sample_world empty_db)
        = (Inr (sample_record\<lparr>qr_first_seen := 1000, qr_updated := 1000\<rparr>, True), w')"
proof -
  have "w_env (sample_world empty_db) (w_count (sample_world empty_db)) = quiet 1000 0"
    "cx_fate (quiet 1000 0) = TxOk" "cx_now (quiet 1000 0) \<noteq> 0"
    "cx_other (quiet 1000 0) (w_db (sample_world empty_db)) = empty_db"
    and now: "cx_now (quiet 1000 0) = 1000"
    by (simp_all add: sample_world_def quiet_def)
  moreover have "bytewise (ascii_collated (\<le>))" by (simp add: bytewise_def ascii_collated_def)
  ultimately have "\<exists>w'. Register (ascii_collated (\<le>)) sample_registration (sample_world empty_db)
        = (Inr (sample_record\<lparr>qr_first_seen := cx_now (quiet 1000 0), qr_updated := cx_now (quiet 1000 0)\<rparr>, True), w')"
    using Register_new [OF ascii_collated_idna _ sample_normalizes sample_storable _ _ _ _ queue_tables_ok_empty
        find_message_empty] by blast
  then show ?thesis unfolding now .
qed

definition sample_db :: "int \<Rightarrow> db" where
  "sample_db now = stored_rows (ascii_collated (\<le>)) sample_record now empty_db"

lemma find_sample: "find_message (sample_db now) (qr_queue_id sample_record) = Some (message_of sample_record now)"
  by (simp add: find_message_def sample_db_def stored_rows_def empty_db_def message_of_def)

theorem Register_known_witness:
  "w_db (snd (Register (ascii_collated (\<le>)) sample_registration (sample_world (sample_db 7)))) = sample_db 7"
proof -
  have "cx_other (w_env (sample_world (sample_db 7)) (w_count (sample_world (sample_db 7))))
      (w_db (sample_world (sample_db 7))) = sample_db 7"
    by (simp add: sample_world_def quiet_def)
  moreover have "qreg_queue_id sample_registration = qr_queue_id sample_record"
    by (simp add: sample_record_def sample_registration_def)
  ultimately show ?thesis using Register_known [OF _ _ sample_normalizes] find_sample by (metis option.distinct(1))
qed

lemma sample_db_loads:
  assumes "now \<noteq> 0"
  shows "loadQueueRecord (ascii_collated (\<le>)) (sample_db now) (qr_queue_id sample_record)
   = Inr (sample_record\<lparr>qr_first_seen := now, qr_updated := now\<rparr>)"
proof -
  have "bytewise (ascii_collated (\<le>))" by (simp add: bytewise_def ascii_collated_def)
  then show ?thesis
    unfolding sample_db_def
    by (rule load_stored_rows [OF ascii_collated_idna _
          normalizeQueueRegistration_canonical [OF ascii_collated_idna sample_normalizes] sample_storable assms
          queue_tables_ok_empty find_message_empty normalizeQueueRegistration_init(1-5) [OF sample_normalizes]])
qed

theorem Load_tamper_evident_witness:
  "\<exists>r r'. loadQueueRecord (ascii_collated (\<le>)) (sample_db 1000) (qr_queue_id sample_record) = Inr r
     \<and> loadQueueRecord (ascii_collated (\<le>)) (sample_db 2000) (qr_queue_id sample_record) = Inr r'
     \<and> (qr_recipients r = qr_recipients r' \<or> collides (transcript (qr_recipients r)) (transcript (qr_recipients r')))"
proof -
  have d: "m_recipient_digest (message_of sample_record 1000) = m_recipient_digest (message_of sample_record 2000)"
    "m_source_digest (message_of sample_record 1000) = m_source_digest (message_of sample_record 2000)"
    by (simp_all add: message_of_def)
  have l: "loadQueueRecord (ascii_collated (\<le>)) (sample_db 1000) (qr_queue_id sample_record)
      = Inr (sample_record\<lparr>qr_first_seen := 1000, qr_updated := 1000\<rparr>)"
    "loadQueueRecord (ascii_collated (\<le>)) (sample_db 2000) (qr_queue_id sample_record)
      = Inr (sample_record\<lparr>qr_first_seen := 2000, qr_updated := 2000\<rparr>)"
    by (rule sample_db_loads, simp)+
  show ?thesis using Load_tamper_evident [OF ascii_collated_idna l find_sample find_sample d] l by blast
qed


end
