(* ===== verification/Postfix.thy ===== *)
theory Postfix
  imports Queue_Facts
begin

text \<open>
  \<^verbatim>\<open>internal/outboundpolicy/postfix.go\<close>: the boundary to Postfix. The helper commands run behind a
  \<open>CommandRunner\<close>, a parameter over the state \<open>'p\<close> of the mail system. The output of
  \<open>postqueue -j\<close> is given by its lines, each with its length, whether it is blank, and what
  \<open>json.Unmarshal\<close> reads from it as a queue entry (\<open>None\<close> for an error).
\<close>

section \<open>Data\<close>

definition maxPostfixOutputBytes :: int where "maxPostfixOutputBytes = 64 * 2 ^ 20"
definition defaultPostfixOutputBytes :: int where "defaultPostfixOutputBytes = 64 * 2 ^ 20"
definition maxPostqueueJSONLineBytes :: nat where "maxPostqueueJSONLineBytes = 4 * 2 ^ 20"

record QueueMetadata =
  qm_queue_id :: string
  qm_fingerprint :: string
  qm_sender :: string
  qm_recipients :: "string list"
  qm_held :: bool

record postqueueEntry =
  pe_queue_name :: string
  pe_queue_id :: string
  pe_arrival_time :: int
  pe_message_size :: int
  pe_sender :: string
  pe_recipients :: "string list"

record postqueueLine =
  pl_length :: nat
  pl_blank :: bool
  pl_entry :: "postqueueEntry option"

record commandOutput =
  co_length :: nat
  co_lines :: "postqueueLine list"

record QueueSnapshot =
  qs_active :: nat
  qs_deferred :: nat
  qs_held :: nat
  qs_total :: nat
  qs_digest :: string

type_synonym 'p runner = "string \<Rightarrow> string list \<Rightarrow> int \<Rightarrow> 'p \<Rightarrow> commandOutput result \<times> 'p"

record 'p PostfixBoundary =
  pb_runner :: "'p runner"
  pb_postqueue :: string
  pb_postsuper :: string
  pb_instance :: string
  pb_max_output :: int

section \<open>Paths and limits\<close>

fun path_parts :: "string \<Rightarrow> string list" where
  "path_parts [] = [[]]"
| "path_parts (c # s) =
     (if c = CHR ''/'' then [] # path_parts s
      else case path_parts s of [] \<Rightarrow> [[c]] | p # ps \<Rightarrow> (c # p) # ps)"

text \<open>
  \<open>filepath.IsAbs (path) && filepath.Clean (path) == path\<close> on a Unix system: a rooted path is clean when
  it is the root or no component is empty, \<open>.\<close> or \<open>..\<close>. \<open>filepath.Base\<close> is then its last component.
\<close>

definition clean_abs :: "string \<Rightarrow> bool" where
  "clean_abs path =
     (path = ''/'' \<or>
      (case path_parts path of
         [] # parts \<Rightarrow> parts \<noteq> [] \<and> list_all (\<lambda>p. p \<noteq> [] \<and> p \<noteq> ''.'' \<and> p \<noteq> ''..'') parts
       | _ \<Rightarrow> False))"

definition validPostfixPath :: "string \<Rightarrow> string \<Rightarrow> bool" where
  "validPostfixPath path base \<longleftrightarrow>
     clean_abs path \<and> (if path = ''/'' then ''/'' else last (path_parts path)) = base"

definition outputLimit :: "'p PostfixBoundary \<Rightarrow> int result" where
  "outputLimit b =
     (if pb_max_output b = 0 then Inr defaultPostfixOutputBytes
      else if pb_max_output b < 1 \<or> pb_max_output b > maxPostfixOutputBytes
      then Inl (Err ''invalid Postfix output limit'')
      else Inr (pb_max_output b))"

subsection \<open>The bounded sink of a child process\<close>

record boundedCommandOutput =
  bo_buffer :: string
  bo_limit :: nat
  bo_exceeded :: bool

text \<open>\<open>boundedCommandOutput.Write\<close>: the number of bytes and whether the limit error is returned.\<close>

definition boundedWrite :: "string \<Rightarrow> boundedCommandOutput \<Rightarrow> (nat \<times> bool) \<times> boundedCommandOutput" where
  "boundedWrite p w =
     (if bo_exceeded w then ((0, True), w)
      else
        let remaining = bo_limit w - length (bo_buffer w) in
        if length p \<le> remaining then ((length p, False), w\<lparr>bo_buffer := bo_buffer w @ p\<rparr>)
        else ((remaining, True),
              (if remaining > 0 then w\<lparr>bo_buffer := bo_buffer w @ take remaining p\<rparr> else w)
                \<lparr>bo_exceeded := True\<rparr>))"

text \<open>The pipe copies into the sink: the first error stops them.\<close>

fun copyChunks :: "string list \<Rightarrow> boundedCommandOutput \<Rightarrow> boundedCommandOutput" where
  "copyChunks [] w = w"
| "copyChunks (p # ps) w =
     (case boundedWrite p w of ((_, failed), w') \<Rightarrow> if failed then w' else copyChunks ps w')"

text \<open>\<open>ExecCommandRunner.Run\<close> for a child that writes \<open>chunks\<close> and exits with success \<open>ok\<close>.\<close>

definition boundedRun :: "string \<Rightarrow> int \<Rightarrow> string list \<Rightarrow> bool \<Rightarrow> string \<times> go_error option" where
  "boundedRun path maxOutput chunks ok =
     (if \<not> clean_abs path \<or> maxOutput \<le> 0 \<or> maxOutput > maxPostfixOutputBytes
      then ([], Some (Err ''invalid bounded command request''))
      else
        let sink = copyChunks chunks \<lparr>bo_buffer = [], bo_limit = nat maxOutput, bo_exceeded = False\<rparr> in
        if bo_exceeded sink then (bo_buffer sink, Some (Err ''command output limit exceeded''))
        else if \<not> ok then (bo_buffer sink, Some (Err ''bounded command failed''))
        else (bo_buffer sink, None))"

section \<open>Queue entries\<close>

definition canonicalQueueRecipients :: "external \<Rightarrow> string list \<Rightarrow> string list result" where
  "canonicalQueueRecipients X rs =
     (if length rs = 0 \<or> length rs > maxQueueRecipients
      then Inl (Err ''Postfix queue recipient limit violated'')
      else case mapR (normalizeQueueRecipient X) rs of Inl e \<Rightarrow> Inl e
      | Inr pairs \<Rightarrow> Inr (sorted_set (map fst pairs)))"

definition normalizePostqueueSender :: "external \<Rightarrow> string \<Rightarrow> string result" where
  "normalizePostqueueSender X sender =
     (if sender = [] \<or> sender = ''MAILER-DAEMON'' then Inr ''<>'' else normalizeQueueSender X sender)"

definition arrival_values :: "string \<Rightarrow> string \<Rightarrow> int \<Rightarrow> int \<Rightarrow> string \<Rightarrow> string list \<Rightarrow> string list" where
  "arrival_values instance queueID arrivalTime messageSize sender rs =
     [''gotth-mail/postfix-arrival/v1'', instance, queueID, FormatInt arrivalTime, FormatInt messageSize,
      sender] @ rs"

definition QueueArrivalFingerprint ::
  "external \<Rightarrow> string \<Rightarrow> string \<Rightarrow> int \<Rightarrow> int \<Rightarrow> string \<Rightarrow> string list \<Rightarrow> string result"
where
  "QueueArrivalFingerprint X instanceID queueID arrivalTime messageSize sender rs =
     (case NormalizeDomain X instanceID of
        Inl _ \<Rightarrow> Inl (Err ''invalid Postfix arrival identity'')
      | Inr instance \<Rightarrow>
         if \<not> validLongQueueID queueID \<or> arrivalTime < 0 \<or> messageSize < 0
         then Inl (Err ''invalid Postfix arrival identity'')
         else
        (case normalizePostqueueSender X sender of Inl e \<Rightarrow> Inl e | Inr canonicalSender \<Rightarrow>
        (case canonicalQueueRecipients X rs of Inl e \<Rightarrow> Inl e | Inr canonicalRecipients \<Rightarrow>
           Inr (digestStrings
             (arrival_values instance queueID arrivalTime messageSize canonicalSender canonicalRecipients)))))"

definition queueMetadataFromEntry :: "external \<Rightarrow> string \<Rightarrow> postqueueEntry \<Rightarrow> QueueMetadata result" where
  "queueMetadataFromEntry X instance entry =
     (if \<not> validLongQueueID (pe_queue_id entry) \<or> pe_arrival_time entry < 0 \<or> pe_message_size entry < 0
      then Inl (Err ''invalid Postfix queue identity'')
      else if pe_queue_name entry \<notin> {''incoming'', ''active'', ''deferred'', ''hold''}
      then Inl (Err ''unsupported Postfix queue state'')
      else let held = (pe_queue_name entry = ''hold'') in
        (case normalizePostqueueSender X (pe_sender entry) of Inl e \<Rightarrow> Inl e | Inr sender \<Rightarrow>
        (case canonicalQueueRecipients X (pe_recipients entry) of Inl e \<Rightarrow> Inl e | Inr rs \<Rightarrow>
        (case QueueArrivalFingerprint X instance (pe_queue_id entry) (pe_arrival_time entry)
                (pe_message_size entry) sender rs of
           Inl e \<Rightarrow> Inl e
         | Inr fingerprint \<Rightarrow>
             Inr \<lparr>qm_queue_id = pe_queue_id entry, qm_fingerprint = fingerprint, qm_sender = sender,
                  qm_recipients = rs, qm_held = held\<rparr>))))"

definition equalQueueMetadata :: "QueueMetadata \<Rightarrow> QueueMetadata \<Rightarrow> bool" where
  "equalQueueMetadata l r =
     (if qm_queue_id l \<noteq> qm_queue_id r \<or> qm_fingerprint l \<noteq> qm_fingerprint r \<or> qm_sender l \<noteq> qm_sender r
         \<or> qm_held l \<noteq> qm_held r \<or> length (qm_recipients l) \<noteq> length (qm_recipients r)
      then False
      else list_all (\<lambda>(a, b). a = b) (zip (qm_recipients l) (qm_recipients r)))"

section \<open>Inspection\<close>

text \<open>
  The scanner loop of \<open>Inspect\<close>. A line of \<open>maxPostqueueJSONLineBytes\<close> bytes or more stops the scanner
  with an error.
\<close>

fun inspectLines ::
  "external \<Rightarrow> string \<Rightarrow> string \<Rightarrow> postqueueLine list \<Rightarrow> QueueMetadata option \<Rightarrow> QueueMetadata result"
where
  "inspectLines X instance queueID [] found =
     (case found of None \<Rightarrow> Inl (Err ''Postfix queue ID not found'') | Some m \<Rightarrow> Inr m)"
| "inspectLines X instance queueID (l # ls) found =
     (if pl_length l \<ge> maxPostqueueJSONLineBytes
      then Inl (Err ''Postfix queue inspection output exceeded line limit'')
      else if pl_blank l then inspectLines X instance queueID ls found
      else case pl_entry l of
        None \<Rightarrow> Inl (Err ''invalid Postfix JSON queue output'')
      | Some entry \<Rightarrow>
          if pe_queue_id entry \<noteq> queueID then inspectLines X instance queueID ls found
          else case queueMetadataFromEntry X instance entry of
            Inl e \<Rightarrow> Inl e
          | Inr metadata \<Rightarrow>
              if (case found of None \<Rightarrow> False | Some m \<Rightarrow> \<not> equalQueueMetadata m metadata)
              then Inl (Err ''Postfix queue metadata changed during inspection'')
              else inspectLines X instance queueID ls (Some metadata))"

definition Inspect :: "external \<Rightarrow> 'p PostfixBoundary \<Rightarrow> string \<Rightarrow> 'p \<Rightarrow> QueueMetadata result \<times> 'p" where
  "Inspect X b queueID s =
     (if \<not> validLongQueueID queueID \<or> \<not> validPostfixPath (pb_postqueue b) ''postqueue''
      then (Inl (Err ''invalid Postfix queue inspection request''), s)
      else case NormalizeDomain X (pb_instance b) of
        Inl _ \<Rightarrow> (Inl (Err ''invalid Postfix instance identity''), s)
      | Inr instance \<Rightarrow>
     (case outputLimit b of Inl e \<Rightarrow> (Inl e, s) | Inr limit \<Rightarrow>
     (case pb_runner b (pb_postqueue b) [''-j''] limit s of
        (Inl _, s1) \<Rightarrow> (Inl (Err ''Postfix queue inspection failed''), s1)
      | (Inr output, s1) \<Rightarrow>
          if int (co_length output) > limit
          then (Inl (Err ''Postfix queue inspection output exceeded limit''), s1)
          else (inspectLines X instance queueID (co_lines output) None, s1))))"

text \<open>The scanner loop of \<open>Snapshot\<close>; an empty \<open>queueID\<close> selects every entry.\<close>

fun snapshotLines ::
  "external \<Rightarrow> string \<Rightarrow> string \<Rightarrow> postqueueLine list \<Rightarrow> nat \<times> nat \<times> nat \<Rightarrow> string list \<Rightarrow>
   ((nat \<times> nat \<times> nat) \<times> string list) result"
where
  "snapshotLines X instance queueID [] counts entries = Inr (counts, entries)"
| "snapshotLines X instance queueID (l # ls) (a, d, h) entries =
     (if pl_length l \<ge> maxPostqueueJSONLineBytes
      then Inl (Err ''Postfix queue snapshot output exceeded line limit'')
      else if pl_blank l then snapshotLines X instance queueID ls (a, d, h) entries
      else case pl_entry l of
        None \<Rightarrow> Inl (Err ''invalid Postfix JSON queue output'')
      | Some entry \<Rightarrow>
          if \<not> validLongQueueID (pe_queue_id entry) then Inl (Err ''invalid Postfix JSON queue output'')
          else if queueID \<noteq> [] \<and> pe_queue_id entry \<noteq> queueID
          then snapshotLines X instance queueID ls (a, d, h) entries
          else
            let name = pe_queue_name entry in
            if name \<notin> {''active'', ''incoming'', ''deferred'', ''hold''}
            then Inl (Err ''unsupported Postfix queue state'')
            else case queueMetadataFromEntry X instance entry of
              Inl e \<Rightarrow> Inl e
            | Inr metadata \<Rightarrow>
                snapshotLines X instance queueID ls
                  (if name = ''active'' \<or> name = ''incoming'' then (a + 1, d, h)
                   else if name = ''deferred'' then (a, d + 1, h) else (a, d, h + 1))
                  (entries @ [name @ char_of (0::nat) # qm_queue_id metadata
                              @ char_of (0::nat) # qm_fingerprint metadata]))"

abbreviation ErrQueueIDNotFound :: go_error where
  "ErrQueueIDNotFound \<equiv> Err ''Postfix queue ID not found''"

definition Snapshot :: "external \<Rightarrow> 'p PostfixBoundary \<Rightarrow> string \<Rightarrow> 'p \<Rightarrow> QueueSnapshot result \<times> 'p" where
  "Snapshot X b queueID s =
     (if queueID \<noteq> [] \<and> \<not> validLongQueueID queueID
      then (Inl (Err ''invalid Postfix queue selector''), s)
      else if \<not> validPostfixPath (pb_postqueue b) ''postqueue''
      then (Inl (Err ''invalid Postfix queue snapshot request''), s)
      else case NormalizeDomain X (pb_instance b) of
        Inl _ \<Rightarrow> (Inl (Err ''invalid Postfix instance identity''), s)
      | Inr instance \<Rightarrow>
     (case outputLimit b of Inl e \<Rightarrow> (Inl e, s) | Inr limit \<Rightarrow>
     (case pb_runner b (pb_postqueue b) [''-j''] limit s of
        (Inl _, s1) \<Rightarrow> (Inl (Err ''Postfix queue snapshot failed''), s1)
      | (Inr output, s1) \<Rightarrow>
          if int (co_length output) > limit then (Inl (Err ''Postfix queue snapshot failed''), s1)
          else case snapshotLines X instance queueID (co_lines output) (0, 0, 0) [] of
            Inl e \<Rightarrow> (Inl e, s1)
          | Inr ((a, d, h), entries) \<Rightarrow>
              if queueID \<noteq> [] \<and> length entries = 0 then (Inl ErrQueueIDNotFound, s1)
              else
                (Inr \<lparr>qs_active = a, qs_deferred = d, qs_held = h, qs_total = length entries,
                      qs_digest = digestStrings (''gotth-mail/postfix-snapshot/v1'' # sort entries)\<rparr>, s1))))"

section \<open>Mutations\<close>

definition runPostqueueMutation :: "'p PostfixBoundary \<Rightarrow> string list \<Rightarrow> 'p \<Rightarrow> go_error option \<times> 'p" where
  "runPostqueueMutation b args s =
     (if \<not> validPostfixPath (pb_postqueue b) ''postqueue''
      then (Some (Err ''invalid Postfix queue mutation request''), s)
      else case outputLimit b of Inl e \<Rightarrow> (Some e, s)
      | Inr limit \<Rightarrow>
         (case pb_runner b (pb_postqueue b) args limit s of
            (Inl _, s1) \<Rightarrow> (Some (Err ''Postfix queue mutation failed''), s1)
          | (Inr _, s1) \<Rightarrow> (None, s1)))"

definition Flush :: "'p PostfixBoundary \<Rightarrow> 'p \<Rightarrow> go_error option \<times> 'p" where
  "Flush b s = runPostqueueMutation b [''-f''] s"

definition Retry :: "external \<Rightarrow> 'p PostfixBoundary \<Rightarrow> string \<Rightarrow> 'p \<Rightarrow> go_error option \<times> 'p" where
  "Retry X b queueID s =
     (if \<not> validLongQueueID queueID then (Some (Err ''invalid Postfix retry request''), s)
      else case runPostqueueMutation b [''-i'', queueID] s of
        (None, s1) \<Rightarrow> (None, s1)
      | (Some e, s1) \<Rightarrow>
         (case Snapshot X b queueID s1 of
            (Inl snapshotErr, s2) \<Rightarrow> (if snapshotErr = ErrQueueIDNotFound then None else Some e, s2)
          | (Inr _, s2) \<Rightarrow> (Some e, s2)))"

text \<open>\<open>Hold\<close> and \<open>Release\<close> run \<open>postsuper -h\<close> and \<open>postsuper -H\<close> on one queue ID.\<close>

definition Hold :: "'p PostfixBoundary \<Rightarrow> string \<Rightarrow> 'p \<Rightarrow> go_error option \<times> 'p" where
  "Hold b queueID s =
     (if \<not> validLongQueueID queueID \<or> \<not> validPostfixPath (pb_postsuper b) ''postsuper''
      then (Some (Err ''invalid Postfix hold request''), s)
      else case outputLimit b of Inl e \<Rightarrow> (Some e, s)
      | Inr limit \<Rightarrow>
         (case pb_runner b (pb_postsuper b) [''-h'', queueID] limit s of
            (Inl _, s1) \<Rightarrow> (Some (Err ''Postfix hold helper failed''), s1)
          | (Inr _, s1) \<Rightarrow> (None, s1)))"

definition ReleaseMessage :: "'p PostfixBoundary \<Rightarrow> string \<Rightarrow> 'p \<Rightarrow> go_error option \<times> 'p" where
  "ReleaseMessage b queueID s =
     (if \<not> validLongQueueID queueID \<or> \<not> validPostfixPath (pb_postsuper b) ''postsuper''
      then (Some (Err ''invalid Postfix release request''), s)
      else case outputLimit b of Inl e \<Rightarrow> (Some e, s)
      | Inr limit \<Rightarrow>
         (case pb_runner b (pb_postsuper b) [''-H'', queueID] limit s of
            (Inl _, s1) \<Rightarrow> (Some (Err ''Postfix release helper failed''), s1)
          | (Inr _, s1) \<Rightarrow> (None, s1)))"

section \<open>Lemmas\<close>

lemma copyChunks_spec:
  assumes "\<not> bo_exceeded w" and "length (bo_buffer w) \<le> bo_limit w"
  shows "bo_buffer (copyChunks ps w) = take (bo_limit w) (bo_buffer w @ concat ps)
    \<and> (bo_exceeded (copyChunks ps w) \<longleftrightarrow> length (bo_buffer w @ concat ps) > bo_limit w)"
  using assms
proof (induction ps arbitrary: w)
  case (Cons p ps)
  show ?case
  proof (cases "length p \<le> bo_limit w - length (bo_buffer w)")
    case True
    then show ?thesis using Cons.prems Cons.IH [of "w\<lparr>bo_buffer := bo_buffer w @ p\<rparr>"]
      by (auto simp: boundedWrite_def)
  next
    case False
    then show ?thesis using Cons.prems by (auto simp: boundedWrite_def Let_def)
  qed
qed auto

lemma equalQueueMetadata_iff: "equalQueueMetadata l r \<longleftrightarrow> l = r"
proof -
  have "list_all (\<lambda>(a, b). a = b) (zip xs ys) \<longleftrightarrow> xs = ys" if "length xs = length ys" for xs ys :: "string list"
    using that by (induction xs ys rule: list_induct2) auto
  then show ?thesis by (auto simp: equalQueueMetadata_def)
qed

definition entries_of :: "postqueueLine list \<Rightarrow> string \<Rightarrow> postqueueEntry set" where
  "entries_of ls q = {e. \<exists>l\<in>set ls. \<not> pl_blank l \<and> pl_entry l = Some e \<and> pe_queue_id e = q}"

lemma inspectLines_Inr:
  assumes "inspectLines X i q ls found = Inr m"
  shows "(\<forall>e\<in>entries_of ls q. queueMetadataFromEntry X i e = Inr m)
    \<and> (case found of None \<Rightarrow> entries_of ls q \<noteq> {} | Some m' \<Rightarrow> m' = m)"
  using assms
proof (induction ls arbitrary: found)
  case Nil
  then show ?case by (auto simp: entries_of_def split: option.splits)
next
  case (Cons l ls)
  have short: "\<not> pl_length l \<ge> maxPostqueueJSONLineBytes" using Cons.prems by (auto split: if_splits)
  show ?case
  proof (cases "pl_blank l \<or> (\<exists>e. pl_entry l = Some e \<and> pe_queue_id e \<noteq> q)")
    case True
    then have "inspectLines X i q ls found = Inr m" using Cons.prems short by (auto split: if_splits)
    moreover have "entries_of (l # ls) q = entries_of ls q" using True by (auto simp: entries_of_def)
    ultimately show ?thesis using Cons.IH [of found] by (cases found) simp_all
  next
    case False
    then obtain e where e: "pl_entry l = Some e" "\<not> pl_blank l" "pe_queue_id e = q"
      using Cons.prems short by (auto split: option.splits if_splits)
    then obtain md where md: "queueMetadataFromEntry X i e = Inr md"
      and f: "case found of None \<Rightarrow> True | Some m' \<Rightarrow> m' = md"
      and rest: "inspectLines X i q ls (Some md) = Inr m"
      using Cons.prems short by (auto simp: equalQueueMetadata_iff split: sum.splits option.splits if_splits)
    have "entries_of (l # ls) q = insert e (entries_of ls q)" using e by (auto simp: entries_of_def)
    then show ?thesis using Cons.IH [OF rest] md f by (auto split: option.splits)
  qed
qed

lemma queueMetadataFromEntry_Inr:
  assumes "queueMetadataFromEntry X i e = Inr m"
  shows "qm_queue_id m = pe_queue_id e" and "qm_held m \<longleftrightarrow> pe_queue_name e = ''hold''"
    and "pe_queue_name e \<in> {''incoming'', ''active'', ''deferred'', ''hold''}"
  using assms by (auto simp: queueMetadataFromEntry_def Let_def split: if_splits sum.splits)

lemma queueMetadataFromEntry_move:
  assumes "pe_queue_name e \<in> {''incoming'', ''active'', ''deferred'', ''hold''}"
    and "name \<in> {''incoming'', ''active'', ''deferred'', ''hold''}"
  shows "queueMetadataFromEntry X i (e\<lparr>pe_queue_name := name\<rparr>) =
    (case queueMetadataFromEntry X i e of Inl err \<Rightarrow> Inl err | Inr m \<Rightarrow> Inr (m\<lparr>qm_held := (name = ''hold'')\<rparr>))"
  using assms by (auto simp: queueMetadataFromEntry_def Let_def split: sum.splits)

lemma normalizePostqueueSender_framable:
  assumes "idna_lookup X" and "normalizePostqueueSender X raw = Inr s"
  shows "framable s"
  using assms normalizeQueueRecipient_framable [OF assms(1)]
  by (auto simp: normalizePostqueueSender_def normalizeQueueSender_def framable_def split: if_splits sum.splits)

lemma canonicalQueueRecipients_Inr:
  assumes "idna_lookup X" and "canonicalQueueRecipients X raw = Inr rs"
  shows "list_all framable rs" and "sorted rs" and "distinct rs" and "rs \<noteq> []"
proof -
  obtain pairs where p: "map (normalizeQueueRecipient X) raw = map Inr pairs" and rs: "rs = sorted_set (map fst pairs)"
    and ne: "raw \<noteq> []"
    using assms(2) by (auto simp: canonicalQueueRecipients_def mapR_Inr split: if_splits sum.splits)
  have "framable a" if "(a, d) \<in> set pairs" for a d
  proof -
    have "Inr (a, d) \<in> set (map (normalizeQueueRecipient X) raw)" using p that by simp
    then show ?thesis using normalizeQueueRecipient_framable [OF assms(1)] by (metis imageE list.set_map)
  qed
  then show "list_all framable rs" using rs by (auto simp: list_all_iff)
  show "sorted rs" "distinct rs" using rs by simp_all
  show "rs \<noteq> []" using rs ne p by auto
qed

lemma length_FormatUint: "length (FormatUint n) \<le> Suc n"
proof (induction n rule: FormatUint.induct)
  case (1 n)
  show ?case
  proof (cases "n < 10")
    case False
    then have "length (FormatUint (n div 10)) \<le> Suc (n div 10)" using 1 by blast
    then show ?thesis using False by (simp add: FormatUint.simps [of n])
  qed (simp add: FormatUint.simps [of n])
qed

lemma framable_FormatInt: "0 \<le> t \<Longrightarrow> t < 2 ^ 63 \<Longrightarrow> framable (FormatInt t)"
  using length_FormatUint [of "nat t"] by (simp add: FormatInt_def framable_def)

section \<open>Properties\<close>

text \<open>C28: The sink of a helper process is bounded: whatever the child writes, in whatever chunks, the
  output kept is the first \<open>maxOutput\<close> bytes of it, and the command is reported as successful exactly
  when it exited with success and wrote no more than that.\<close>

theorem boundedRun_bounded:
  assumes "clean_abs path" and "0 < limit" and "limit \<le> maxPostfixOutputBytes"
  shows "fst (boundedRun path limit chunks ok) = take (nat limit) (concat chunks)
    \<and> (snd (boundedRun path limit chunks ok) = None \<longleftrightarrow> ok \<and> int (length (concat chunks)) \<le> limit)"
  using assms copyChunks_spec [of "\<lparr>bo_buffer = [], bo_limit = nat limit, bo_exceeded = False\<rparr>" chunks]
  by (auto simp: boundedRun_def Let_def)

theorem boundedRun_bounded_witness:
  "boundedRun ''/usr/sbin/postqueue'' 5 [''abc'', ''defg'', ''h''] True
   = (''abcde'', Some (Err ''command output limit exceeded''))"
proof -
  have c: "clean_abs ''/usr/sbin/postqueue''" and l: "(5::int) \<le> maxPostfixOutputBytes" by code_simp+
  have "snd (boundedRun ''/usr/sbin/postqueue'' 5 [''abc'', ''defg'', ''h''] True)
      = Some (Err ''command output limit exceeded'')" by code_simp
  then show ?thesis using boundedRun_bounded [OF c _ l, of "[''abc'', ''defg'', ''h'']" True]
    by (simp add: prod_eq_iff eval_nat_numeral)
qed



text \<open>C22: What an inspection shows. When \<open>Inspect\<close> succeeds, the helper ran \<open>postqueue -j\<close> and its bounded output
  has an entry of the requested queue ID; every such entry gives the metadata returned, so the
  observation is stable, and the message is reported as held exactly when it is in the hold queue.\<close>

theorem Inspect_sound:
  assumes "Inspect X b q s = (Inr m, s')"
  shows "\<exists>out i limit. pb_runner b (pb_postqueue b) [''-j''] limit s = (Inr out, s')
    \<and> int (co_length out) \<le> limit \<and> limit \<le> maxPostfixOutputBytes
    \<and> NormalizeDomain X (pb_instance b) = Inr i
    \<and> entries_of (co_lines out) q \<noteq> {} \<and> qm_queue_id m = q
    \<and> (\<forall>e\<in>entries_of (co_lines out) q.
         queueMetadataFromEntry X i e = Inr m \<and> (qm_held m \<longleftrightarrow> pe_queue_name e = ''hold''))"
proof -
  obtain out i limit where r: "pb_runner b (pb_postqueue b) [''-j''] limit s = (Inr out, s')"
    "int (co_length out) \<le> limit" "NormalizeDomain X (pb_instance b) = Inr i" "outputLimit b = Inr limit"
    and l: "inspectLines X i q (co_lines out) None = Inr m"
    using assms by (auto simp: Inspect_def split: if_splits sum.splits prod.splits)
  have lim: "limit \<le> maxPostfixOutputBytes"
    using r(4) by (auto simp: outputLimit_def defaultPostfixOutputBytes_def maxPostfixOutputBytes_def split: if_splits)
  have "entries_of (co_lines out) q \<noteq> {}" and e: "\<forall>e\<in>entries_of (co_lines out) q. queueMetadataFromEntry X i e = Inr m"
    using inspectLines_Inr [OF l] by auto
  moreover have "qm_queue_id m = q"
    using calculation queueMetadataFromEntry_Inr(1) by (fastforce simp: entries_of_def)
  ultimately show ?thesis using r lim queueMetadataFromEntry_Inr(2) by blast
qed

definition sample_entry :: "string \<Rightarrow> postqueueEntry" where
  "sample_entry name =
     \<lparr>pe_queue_name = name, pe_queue_id = ''4bXyzT3GkRz2cB'', pe_arrival_time = 1700000000,
      pe_message_size = 512, pe_sender = ''ann@example.com'', pe_recipients = [''bob@example.com'']\<rparr>"

definition sample_boundary :: "string PostfixBoundary" where
  "sample_boundary =
     \<lparr>pb_runner = (\<lambda>path args limit name.
        if args = [''-j'']
        then (Inr \<lparr>co_length = 200, co_lines = [\<lparr>pl_length = 199, pl_blank = False, pl_entry = Some (sample_entry name)\<rparr>]\<rparr>, name)
        else if take 1 args = [''-h''] then (Inr \<lparr>co_length = 0, co_lines = []\<rparr>, ''hold'')
        else (Inr \<lparr>co_length = 0, co_lines = []\<rparr>, ''deferred'')),
      pb_postqueue = ''/usr/sbin/postqueue'', pb_postsuper = ''/usr/sbin/postsuper'',
      pb_instance = ''mx.example.com'', pb_max_output = 0\<rparr>"

definition sample_metadata :: "string \<Rightarrow> QueueMetadata" where
  "sample_metadata name =
     \<lparr>qm_queue_id = ''4bXyzT3GkRz2cB'',
      qm_fingerprint = digestStrings (arrival_values ''mx.example.com'' ''4bXyzT3GkRz2cB'' 1700000000 512
        ''ann@example.com'' [''bob@example.com'']),
      qm_sender = ''ann@example.com'', qm_recipients = [''bob@example.com''], qm_held = (name = ''hold'')\<rparr>"

lemma sample_entry_metadata:
  assumes "name \<in> {''incoming'', ''active'', ''deferred'', ''hold''}"
  shows "queueMetadataFromEntry ascii_external ''mx.example.com'' (sample_entry name) = Inr (sample_metadata name)"
proof -
  have n: "NormalizeDomain ascii_external ''mx.example.com'' = Inr ''mx.example.com''"
    "normalizePostqueueSender ascii_external ''ann@example.com'' = Inr ''ann@example.com''"
    "canonicalQueueRecipients ascii_external [''bob@example.com''] = Inr [''bob@example.com'']"
    "validLongQueueID ''4bXyzT3GkRz2cB''"
    by code_simp+
  show ?thesis using assms
    by (auto simp: queueMetadataFromEntry_def QueueArrivalFingerprint_def sample_entry_def sample_metadata_def n)
qed

lemma sample_inspect:
  assumes "name \<in> {''incoming'', ''active'', ''deferred'', ''hold''}"
  shows "Inspect ascii_external sample_boundary ''4bXyzT3GkRz2cB'' name = (Inr (sample_metadata name), name)"
proof -
  have n: "NormalizeDomain ascii_external ''mx.example.com'' = Inr ''mx.example.com''"
    "validLongQueueID ''4bXyzT3GkRz2cB''" "validPostfixPath ''/usr/sbin/postqueue'' ''postqueue''"
    by code_simp+
  have "pe_queue_id (sample_entry name) = ''4bXyzT3GkRz2cB''" by (simp add: sample_entry_def)
  then show ?thesis
    by (simp add: Inspect_def sample_boundary_def n outputLimit_def defaultPostfixOutputBytes_def
        maxPostqueueJSONLineBytes_def sample_entry_metadata [OF assms])
qed

theorem Inspect_sound_witness:
  "\<exists>out. entries_of (co_lines out) ''4bXyzT3GkRz2cB'' \<noteq> {}
     \<and> pb_runner sample_boundary ''/usr/sbin/postqueue'' [''-j''] (64 * 2 ^ 20) ''hold'' = (Inr out, ''hold'')
     \<and> qm_held (sample_metadata ''hold'')"
proof -
  have i: "Inspect ascii_external sample_boundary ''4bXyzT3GkRz2cB'' ''hold'' = (Inr (sample_metadata ''hold''), ''hold'')"
    by (rule sample_inspect) simp
  from Inspect_sound [OF i] show ?thesis
    by (auto simp: sample_boundary_def sample_metadata_def)
qed

end
