(* ===== verification/Reconcile.thy ===== *)
theory Reconcile
  imports Postfix
begin

text \<open>
  \<^verbatim>\<open>internal/outboundpolicy/reconcile.go\<close>: recording that a message must be held, and driving Postfix to
  hold it. Each transaction is a function on the database; \<open>Reconcile\<close> composes them with the
  observations of the Postfix boundary, in the order of the code. The advisory lock that
  serialises helpers for one queue ID appears as two statements that may fail; what other sessions
  do in between is in \<open>cx_other\<close>.
\<close>

section \<open>The boundary\<close>

text \<open>The interfaces \<open>QueueInspector\<close>, \<open>QueueHolder\<close> and \<open>QueueReleaseBoundary\<close>.\<close>

record 'p boundary =
  bd_inspect :: "string \<Rightarrow> 'p \<Rightarrow> QueueMetadata result \<times> 'p"
  bd_hold :: "string \<Rightarrow> 'p \<Rightarrow> go_error option \<times> 'p"
  bd_release :: "string \<Rightarrow> 'p \<Rightarrow> go_error option \<times> 'p"

definition postfix_boundary :: "external \<Rightarrow> 'p PostfixBoundary \<Rightarrow> 'p boundary" where
  "postfix_boundary X b = \<lparr>bd_inspect = Inspect X b, bd_hold = Hold b, bd_release = ReleaseMessage b\<rparr>"

definition on_postfix :: "('p \<Rightarrow> 'a \<times> 'p) \<Rightarrow> 'p world \<Rightarrow> 'a \<times> 'p world" where
  "on_postfix f w = (case f (w_postfix w) of (x, p) \<Rightarrow> (x, w\<lparr>w_postfix := p\<rparr>))"

text \<open>An operation that returns a value and an error side by side: a zero value is \<open>None\<close>.\<close>

type_synonym ('p, 'a) op = "'p world \<Rightarrow> ('a option \<times> go_error option) \<times> 'p world"

text \<open>
  Connection and \<open>pg_advisory_lock\<close> before, \<open>pg_advisory_unlock\<close> and close after: a failure to
  unlock is reported only if the operation itself succeeded.
\<close>

definition with_lock :: "('p, 'a) op \<Rightarrow> ('p, 'a) op" where
  "with_lock body w =
     (case run_query (\<lambda>db. Inr ()) w of
        (Inl e, w1) \<Rightarrow> ((None, Some e), w1)
      | (Inr _, w1) \<Rightarrow>
         (case body w1 of ((r, err), w2) \<Rightarrow>
            (case run_query (\<lambda>db. Inr ()) w2 of
               (Inl e, w3) \<Rightarrow> ((r, if err = None then Some e else err), w3)
             | (Inr _, w3) \<Rightarrow> ((r, err), w3))))"

definition queueAdvisoryLockKey :: "string \<Rightarrow> int" where
  "queueAdvisoryLockKey queueID = sint (of_nat (be_value (take 8 (sha256 queueID))) :: 64 word)"

section \<open>Audit events of a queue message\<close>

definition queue_event ::
  "int \<Rightarrow> ActorRef \<Rightarrow> string \<Rightarrow> string \<Rightarrow> json \<Rightarrow> json \<Rightarrow> string \<Rightarrow> string \<Rightarrow> Event"
where
  "queue_event now actor action queueID before after correlationID res =
     \<lparr>ev_id = [], ev_time = now, ev_actor = actor, ev_source = None, ev_action = action,
      ev_resource = \<lparr>res_type = ''postfix_queue'', res_id = queueID\<rparr>, ev_before = before, ev_after = after,
      ev_correlation = correlationID, ev_result = res, ev_error_code = []\<rparr>"

definition json_revisions :: "revisions \<Rightarrow> json" where
  "json_revisions revs = JObj (map (\<lambda>(d, v). (d, JNum (uint v))) revs)"

section \<open>Requiring a hold\<close>

definition requireHold_tx ::
  "external \<Rightarrow> ActorRef \<Rightarrow> string \<Rightarrow> string \<Rightarrow> Decision \<Rightarrow> revisions \<Rightarrow> tx_ctx \<Rightarrow> db \<Rightarrow> (unit \<times> db) result"
where
  "requireHold_tx X actor correlationID queueID decision revs cx db =
     (case find_message db queueID of
        None \<Rightarrow> Inl (Err ''outbound queue record not found'')
      | Some m \<Rightarrow>
          let state = m_hold_state m in
          if \<not> validHoldState state then Inl (Err ''stored outbound queue state is invalid'')
          else case m_revisions m of
            None \<Rightarrow> Inl (Err ''stored outbound queue policy revisions are invalid'')
          | Some prior \<Rightarrow>
              if length prior > 0 \<and>
                 (case canonicalPolicyRevisions X prior of Inl _ \<Rightarrow> True
                  | Inr canonicalPrior \<Rightarrow> \<not> revisionMapsEqual prior canonicalPrior)
              then Inl (Err ''stored outbound queue policy revisions are invalid'')
              else
                let priorValue = (case m_reason m of None \<Rightarrow> [] | Some r \<Rightarrow> r) in
                if \<not> validQueuePolicyState state (m_reason m \<noteq> None) priorValue prior
                then Inl (Err ''stored outbound queue policy state is invalid'')
                else if m_reason m = Some (dec_reason decision) \<and> revisionMapsEqual prior revs
                  \<and> (state = HoldRequired \<or> state = HoldReconciling \<or> state = HoldApplied
                     \<or> state = HoldReconciliationError)
                then Inr ((), db)
                else
                 (case update_message X queueID (\<lambda>_. True)
                     (\<lambda>m. m\<lparr>m_hold_state := HoldRequired, m_reason := Some (dec_reason decision),
                            m_revisions := Some revs, m_error_code := None, m_updated := cx_now cx\<rparr>) db of
                    Inl e \<Rightarrow> Inl e
                  | Inr (_, db1) \<Rightarrow>
                   (case WriteSQL (cx_rnd cx) (cx_now cx)
                       (queue_event (cx_now cx) actor ''queue.policy_hold.required'' queueID
                          (JObj [(''state'', JStr state)])
                          (JObj [(''state'', JStr HoldRequired), (''reason'', JStr (dec_reason decision)),
                                 (''revisions'', json_revisions revs)])
                          correlationID ''success'') db1 of
                      Inl e \<Rightarrow> Inl e
                    | Inr db2 \<Rightarrow> Inr ((), db2))))"

definition RequireHold ::
  "external \<Rightarrow> ActorRef \<Rightarrow> string \<Rightarrow> string \<Rightarrow> Decision \<Rightarrow> ('p, unit) prog"
where
  "RequireHold X actor correlationID queueID decision w =
     (if actor_type actor = [] \<or> actor_id actor = [] \<or> correlationID = []
      then (Inl (Err ''actor and correlation ID are required''), w)
      else if \<not> validLongQueueID queueID \<or> dec_action decision \<noteq> ActionDefer
              \<or> dec_reason decision \<noteq> ReasonPolicyHold
      then (Inl (Err ''invalid outbound queue hold decision''), w)
      else case canonicalPolicyRevisions X (dec_revisions decision) of
        Inl e \<Rightarrow> (Inl e, w)
      | Inr revs \<Rightarrow> run_tx (requireHold_tx X actor correlationID queueID decision revs) w)"

section \<open>Reconciliation\<close>

definition startReconciliation_tx ::
  "external \<Rightarrow> ActorRef \<Rightarrow> string \<Rightarrow> QueueRecord \<Rightarrow> tx_ctx \<Rightarrow> db \<Rightarrow> (unit \<times> db) result"
where
  "startReconciliation_tx X actor correlationID record cx db =
     (case update_message X (qr_queue_id record)
         (\<lambda>m. m_hold_state m \<in> {HoldRequired, HoldReconciliationError, HoldReconciling, HoldApplied})
         (\<lambda>m. m\<lparr>m_hold_state := HoldReconciling, m_attempts := m_attempts m + 1, m_error_code := None,
                m_updated := cx_now cx\<rparr>) db of
        Inl e \<Rightarrow> Inl e
      | Inr (affected, db1) \<Rightarrow>
          if affected \<noteq> 1 then Inl (Err ''outbound queue reconciliation state changed'')
          else case WriteSQL (cx_rnd cx) (cx_now cx)
              (queue_event (cx_now cx) actor ''queue.policy_hold.reconcile_start'' (qr_queue_id record)
                 (JObj [(''state'', JStr (qr_hold_state record)), (''attempts'', JNum (uint (qr_attempts record)))])
                 (JObj [(''state'', JStr HoldReconciling), (''attempts'', JNum (uint (qr_attempts record + 1)))])
                 correlationID ''success'') db1 of
            Inl e \<Rightarrow> Inl e
          | Inr db2 \<Rightarrow> Inr ((), db2))"

definition startQueueReconciliation ::
  "external \<Rightarrow> ActorRef \<Rightarrow> string \<Rightarrow> QueueRecord \<Rightarrow> ('p, unit) prog"
where
  "startQueueReconciliation X actor correlationID record =
     run_tx (startReconciliation_tx X actor correlationID record)"

definition json_code :: "string \<Rightarrow> json" where
  "json_code code = (if code \<noteq> [] then JStr code else JNull)"

definition finishReconciliation_tx ::
  "external \<Rightarrow> ActorRef \<Rightarrow> string \<Rightarrow> QueueRecord \<Rightarrow> HoldState \<Rightarrow> string \<Rightarrow> tx_ctx \<Rightarrow> db \<Rightarrow> (unit \<times> db) result"
where
  "finishReconciliation_tx X actor correlationID record state code cx db =
     (case update_message X (qr_queue_id record) (\<lambda>m. m_hold_state m = HoldReconciling)
         (\<lambda>m. m\<lparr>m_hold_state := state, m_error_code := nullString code, m_updated := cx_now cx\<rparr>) db of
        Inl e \<Rightarrow> Inl e
      | Inr (affected, db1) \<Rightarrow>
          if affected \<noteq> 1 then Inl (Err ''outbound queue reconciliation state changed'')
          else case WriteSQL (cx_rnd cx) (cx_now cx)
              (queue_event (cx_now cx) actor
                 (if state = HoldReconciliationError then ''queue.policy_hold.failed''
                  else ''queue.policy_hold.applied'') (qr_queue_id record)
                 (JObj [(''state'', JStr HoldReconciling)])
                 (JObj [(''state'', JStr state), (''error_code'', json_code code)])
                 correlationID (if state = HoldReconciliationError then ''failure'' else ''success'')) db1 of
            Inl e \<Rightarrow> Inl e
          | Inr db2 \<Rightarrow> Inr ((), db2))"

definition finishQueueReconciliation ::
  "external \<Rightarrow> ActorRef \<Rightarrow> string \<Rightarrow> QueueRecord \<Rightarrow> HoldState \<Rightarrow> string \<Rightarrow> ('p, unit) prog"
where
  "finishQueueReconciliation X actor correlationID record state code w =
     (if state \<noteq> HoldApplied \<and> state \<noteq> HoldReconciliationError
      then (Inl (Err ''invalid outbound queue reconciliation result''), w)
      else if state = HoldReconciliationError \<and> \<not> validQueueErrorCode code
      then (Inl (Err ''invalid outbound queue reconciliation error code''), w)
      else run_tx (finishReconciliation_tx X actor correlationID record state code) w)"

definition matchesQueueMetadata :: "external \<Rightarrow> QueueRecord \<Rightarrow> QueueMetadata \<Rightarrow> bool" where
  "matchesQueueMetadata X record metadata =
     (case normalizeQueueRegistration X
         \<lparr>qreg_queue_id = qm_queue_id metadata, qreg_fingerprint = qm_fingerprint metadata,
          qreg_sender = qm_sender metadata, qreg_recipients = qm_recipients metadata,
          qreg_sources = qr_sources record\<rparr> of
        Inl _ \<Rightarrow> False
      | Inr candidate \<Rightarrow> sameQueueIdentity record candidate)"

text \<open>A result of \<open>Reconcile\<close> or \<open>Release\<close>: the record and whether it was changed.\<close>

type_synonym queue_result = "QueueRecord \<times> bool"

definition loadConn :: "external \<Rightarrow> string \<Rightarrow> ('p, QueueRecord) prog" where
  "loadConn X queueID = run_query (\<lambda>db. loadQueueRecord X db queueID)"

text \<open>\<open>QueueReconciler.fail\<close>\<close>

definition reconcileFail ::
  "external \<Rightarrow> ActorRef \<Rightarrow> string \<Rightarrow> QueueRecord \<Rightarrow> string \<Rightarrow> ('p, queue_result) op"
where
  "reconcileFail X actor correlationID record code w =
     (case finishQueueReconciliation X actor correlationID record HoldReconciliationError code w of
        (Inl e, w1) \<Rightarrow> ((None, Some e), w1)
      | (Inr _, w1) \<Rightarrow>
         (case loadConn X (qr_queue_id record) w1 of
            (Inl e, w2) \<Rightarrow> ((None, Some e), w2)
          | (Inr stored, w2) \<Rightarrow> ((Some (stored, True), Some (Err code)), w2)))"

text \<open>The end of \<open>Reconcile\<close>, once a hold has been observed.\<close>

definition reconcileDone ::
  "external \<Rightarrow> ActorRef \<Rightarrow> string \<Rightarrow> QueueRecord \<Rightarrow> ('p, queue_result) op"
where
  "reconcileDone X actor correlationID record w =
     (case finishQueueReconciliation X actor correlationID record HoldApplied [] w of
        (Inl e, w1) \<Rightarrow> ((None, Some e), w1)
      | (Inr _, w1) \<Rightarrow>
         (case loadConn X (qr_queue_id record) w1 of
            (Inl e, w2) \<Rightarrow> ((None, Some e), w2)
          | (Inr stored, w2) \<Rightarrow> ((Some (stored, True), None), w2)))"

text \<open>\<open>Reconcile\<close> after the attempt was recorded: observe, hold if needed, observe again.\<close>

definition reconcileHold ::
  "external \<Rightarrow> 'p boundary \<Rightarrow> ActorRef \<Rightarrow> string \<Rightarrow> QueueRecord \<Rightarrow> ('p, queue_result) op"
where
  "reconcileHold X B actor correlationID record w =
     (case on_postfix (bd_inspect B (qr_queue_id record)) w of
        (Inl _, w1) \<Rightarrow> reconcileFail X actor correlationID record ''queue_inspection_failed'' w1
      | (Inr metadata, w1) \<Rightarrow>
          if \<not> matchesQueueMetadata X record metadata
          then reconcileFail X actor correlationID record ''queue_metadata_mismatch'' w1
          else if qm_held metadata then reconcileDone X actor correlationID record w1
          else
           (case on_postfix (bd_hold B (qr_queue_id record)) w1 of
              (Some _, w2) \<Rightarrow> reconcileFail X actor correlationID record ''queue_hold_failed'' w2
            | (None, w2) \<Rightarrow>
             (case on_postfix (bd_inspect B (qr_queue_id record)) w2 of
                (Inl _, w3) \<Rightarrow>
                  reconcileFail X actor correlationID record ''queue_post_hold_inspection_failed'' w3
              | (Inr metadata', w3) \<Rightarrow>
                  if \<not> matchesQueueMetadata X record metadata'
                  then reconcileFail X actor correlationID record ''queue_post_hold_metadata_mismatch'' w3
                  else if \<not> qm_held metadata'
                  then reconcileFail X actor correlationID record ''queue_hold_not_observed'' w3
                  else reconcileDone X actor correlationID record w3)))"

definition reconcileStart ::
  "external \<Rightarrow> 'p boundary \<Rightarrow> ActorRef \<Rightarrow> string \<Rightarrow> QueueRecord \<Rightarrow> ('p, queue_result) op"
where
  "reconcileStart X B actor correlationID record w =
     (if qr_hold_state record \<noteq> HoldRequired \<and> qr_hold_state record \<noteq> HoldReconciliationError
         \<and> qr_hold_state record \<noteq> HoldReconciling \<and> qr_hold_state record \<noteq> HoldApplied
      then ((None, Some (Err ''outbound queue message does not require a hold'')), w)
      else case startQueueReconciliation X actor correlationID record w of
        (Inl e, w1) \<Rightarrow> ((None, Some e), w1)
      | (Inr _, w1) \<Rightarrow> reconcileHold X B actor correlationID record w1)"

text \<open>\<open>Reconcile\<close> under the lock.\<close>

definition reconcileLocked ::
  "external \<Rightarrow> 'p boundary \<Rightarrow> ActorRef \<Rightarrow> string \<Rightarrow> string \<Rightarrow> ('p, queue_result) op"
where
  "reconcileLocked X B actor correlationID queueID w =
     (case loadConn X queueID w of
        (Inl e, w1) \<Rightarrow> ((None, Some e), w1)
      | (Inr record, w1) \<Rightarrow>
          if qr_hold_state record = HoldApplied
          then (case on_postfix (bd_inspect B queueID) w1 of
                  (Inr metadata, w2) \<Rightarrow>
                    if qm_held metadata \<and> matchesQueueMetadata X record metadata
                    then ((Some (record, False), None), w2)
                    else reconcileStart X B actor correlationID record w2
                | (Inl _, w2) \<Rightarrow> reconcileStart X B actor correlationID record w2)
          else reconcileStart X B actor correlationID record w1)"

definition Reconcile_queue ::
  "external \<Rightarrow> 'p boundary \<Rightarrow> ActorRef \<Rightarrow> string \<Rightarrow> string \<Rightarrow> ('p, queue_result) op"
where
  "Reconcile_queue X B actor correlationID queueID w =
     (if actor_type actor = [] \<or> actor_id actor = [] \<or> correlationID = [] \<or> \<not> validLongQueueID queueID
      then ((None, Some (Err ''invalid outbound queue reconciliation request'')), w)
      else with_lock (reconcileLocked X B actor correlationID queueID) w)"

end
