(* ===== verification/Expansion.thy ===== *)
theory Expansion
  imports Reconcile
begin

text \<open>
  The alias graph of \<^verbatim>\<open>internal/outboundpolicy/admission.go\<close>: fetching the part of it that is reachable
  from some recipients, one breadth layer per query, and walking it to its leaves. The loop over the
  layers and the walk carry as fuel what is left of the depth limit of the code, so running out
  of fuel is the code's own error.
\<close>

section \<open>Data\<close>

definition maxExpansionAliases :: nat where "maxExpansionAliases = maxQueueSources"

record QueueDelivery =
  dl_original :: string
  dl_recipient :: string

record expansionAlias =
  ea_id :: string
  ea_address :: string
  ea_targets :: "string list"
  ea_kind :: SourceKind

type_synonym alias_map = "(string \<times> expansionAlias) list"

section \<open>Fetching aliases\<close>

text \<open>\<open>split_part (address, '@', 1)\<close> and \<open>split_part (address, '@', 2)\<close>.\<close>

definition local_of :: "string \<Rightarrow> string" where
  "local_of a = takeWhile (\<lambda>c. c \<noteq> CHR ''@'') a"

definition domain_part :: "string \<Rightarrow> string" where
  "domain_part a = takeWhile (\<lambda>c. c \<noteq> CHR ''@'') (drop 1 (dropWhile (\<lambda>c. c \<noteq> CHR ''@'') a))"

definition alias_matches :: "db \<Rightarrow> DomainRow \<Rightarrow> string \<Rightarrow> AliasRow \<Rightarrow> bool" where
  "alias_matches db d address a \<longleftrightarrow>
     ToLower (al_local a) = ToLower (local_of address)
     \<or> (al_local a = ''*''
        \<and> \<not> list_ex (\<lambda>x. al_domain x = d_id d \<and> al_enabled x
                         \<and> ToLower (al_local x) = ToLower (local_of address)) (aliases db)
        \<and> \<not> list_ex (\<lambda>m. mb_domain m = d_id d \<and> mb_enabled m
                         \<and> ToLower (mb_local m) = ToLower (local_of address)) (mailboxes db))"

type_synonym alias_row = "AliasRow \<times> string \<times> string"

text \<open>The rows for one address: the alias, the address, the name of its domain.\<close>

definition address_rows :: "db \<Rightarrow> string \<Rightarrow> alias_row list" where
  "address_rows db address =
     concat (map (\<lambda>d. map (\<lambda>a. (a, address, d_name d))
               (filter (\<lambda>a. al_enabled a \<and> al_domain a = d_id d \<and> alias_matches db d address a) (aliases db)))
       (filter (\<lambda>d. d_enabled d \<and> d_name d = domain_part address) (domains db)))"

definition layer_rows :: "external \<Rightarrow> db \<Rightarrow> string list \<Rightarrow> alias_row list" where
  "layer_rows X db batch =
     order_by (\<lambda>(a, x, _) (b, y, _). if x = y then al_id a \<le> al_id b else collate X x y)
       (concat (map (address_rows db) batch))"

definition classifyExpansionSource :: "external \<Rightarrow> string \<Rightarrow> string \<Rightarrow> string list \<Rightarrow> SourceKind" where
  "classifyExpansionSource X local domain targets =
     (if local = ''*'' then SourceCatchAll
      else if length targets > 1 then SourceList
      else if length targets = 1
        \<and> (case normalizeQueueRecipient X (targets ! 0) of Inl _ \<Rightarrow> False
           | Inr (_, targetDomain) \<Rightarrow> targetDomain \<noteq> domain)
      then SourceForward
      else SourceAlias)"

definition scanExpansionAlias :: "external \<Rightarrow> alias_row \<Rightarrow> expansionAlias result" where
  "scanExpansionAlias X row =
     (case row of (a, inputAddress, domain) \<Rightarrow>
      let local = al_local a in
      if (case normalizeQueueRecipient X inputAddress of Inl _ \<Rightarrow> True
          | Inr (address, _) \<Rightarrow> address \<noteq> inputAddress)
         \<or> \<not> validQueueObjectID (al_id a)
         \<or> (local \<noteq> ''*'' \<and> inputAddress \<noteq> ToLower local @ ''@'' @ domain)
      then Inl (Err ''stored outbound alias is invalid'')
      else case al_targets a of
        None \<Rightarrow> Inl (Err ''stored outbound alias targets are invalid'')
      | Some targets \<Rightarrow>
          if length targets = 0 \<or> length targets > maxQueueRecipients
          then Inl (Err ''stored outbound alias targets are invalid'')
          else case mapR (normalizeQueueRecipient X) targets of
            Inl _ \<Rightarrow> Inl (Err ''stored outbound alias target is invalid'')
          | Inr pairs \<Rightarrow>
              Inr \<lparr>ea_id = al_id a, ea_address = inputAddress, ea_targets = map fst pairs,
                   ea_kind = classifyExpansionSource X local domain (map fst pairs)\<rparr>)"

text \<open>The loop over the rows of one layer: the aliases found so far and the targets of this layer.\<close>

fun scanRows :: "external \<Rightarrow> alias_row list \<Rightarrow> alias_map \<Rightarrow> string list \<Rightarrow> (alias_map \<times> string list) result" where
  "scanRows X [] found nxt = Inr (found, nxt)"
| "scanRows X (row # rows) found nxt =
     (if length found \<ge> maxExpansionAliases then Inl (Err ''outbound alias graph limit exceeded'')
      else case scanExpansionAlias X row of
        Inl e \<Rightarrow> Inl e
      | Inr alias \<Rightarrow>
          if map_of found (ea_address alias) \<noteq> None then Inl (Err ''ambiguous outbound alias state'')
          else scanRows X rows (AList.update (ea_address alias) alias found) (nxt @ ea_targets alias))"

text \<open>The addresses of a frontier that have not been seen, once each.\<close>

definition new_batch :: "string list \<Rightarrow> string list \<Rightarrow> string list" where
  "new_batch seen frontier = remdups (filter (\<lambda>a. a \<notin> set seen) frontier)"

fun expandLayers ::
  "external \<Rightarrow> nat \<Rightarrow> alias_map \<Rightarrow> string list \<Rightarrow> string list \<Rightarrow> ('p, alias_map) prog"
where
  "expandLayers X depthLeft found seen frontier w =
     (if frontier = [] then (Inr found, w)
      else case depthLeft of
        0 \<Rightarrow> (Inl (Err ''outbound alias expansion depth exceeded''), w)
      | Suc n \<Rightarrow>
          let batch = new_batch seen frontier in
          if batch = [] then (Inr found, w)
          else if length (seen @ batch) > maxQueueRecipients
          then (Inl (Err ''outbound alias expansion fan-out exceeded''), w)
          else case run_query (\<lambda>db. scanRows X (layer_rows X db batch) found []) w of
            (Inl e, w1) \<Rightarrow> (Inl e, w1)
          | (Inr (found', nxt), w1) \<Rightarrow> expandLayers X n found' (seen @ batch) nxt w1)"

declare expandLayers.simps [simp del]

definition loadExpansionAliases :: "external \<Rightarrow> string list \<Rightarrow> ('p, alias_map) prog" where
  "loadExpansionAliases X originals = expandLayers X maxQueueSources [] [] originals"

section \<open>Walking the graph\<close>

definition alias_source :: "expansionAlias \<Rightarrow> QueueSource" where
  "alias_source a = QueueSource (ea_kind a) (ea_id a)"

type_synonym walk_state = "string list \<times> (string \<times> QueueSource) list"

definition walkLeaf :: "string \<Rightarrow> walk_state \<Rightarrow> walk_state result" where
  "walkLeaf current st =
     (let leaves = List.insert current (fst st) in
      if length leaves > maxQueueRecipients
      then Inl (Err ''outbound alias expansion fan-out exceeded'')
      else Inr (leaves, snd st))"

text \<open>The loop over the targets of an alias; an error stops it.\<close>

fun foldR :: "('a \<Rightarrow> 's \<Rightarrow> 's result) \<Rightarrow> 'a list \<Rightarrow> 's \<Rightarrow> 's result" where
  "foldR f [] st = Inr st"
| "foldR f (x # xs) st = (case f x st of Inl e \<Rightarrow> Inl e | Inr st' \<Rightarrow> foldR f xs st')"

primrec walkExpansionGraph ::
  "nat \<Rightarrow> alias_map \<Rightarrow> string \<Rightarrow> string list \<Rightarrow> walk_state \<Rightarrow> walk_state result"
where
  "walkExpansionGraph 0 amap current active st =
     (case map_of amap current of
        None \<Rightarrow> walkLeaf current st
      | Some alias \<Rightarrow> Inl (Err ''outbound alias expansion depth exceeded''))"
| "walkExpansionGraph (Suc depthLeft) amap current active st =
     (case map_of amap current of
        None \<Rightarrow> walkLeaf current st
      | Some alias \<Rightarrow>
          if current \<in> set active then Inl (Err ''outbound alias expansion cycle'')
          else
            let srcs = AList.update (source_key (alias_source alias)) (alias_source alias) (snd st) in
            if length srcs > maxQueueSources then Inl (Err ''outbound alias source limit exceeded'')
            else foldR (\<lambda>t. walkExpansionGraph depthLeft amap t (current # active)) (ea_targets alias)
                   (fst st, srcs))"

definition walkFrom :: "alias_map \<Rightarrow> string \<Rightarrow> walk_state result" where
  "walkFrom amap original = walkExpansionGraph maxQueueSources amap original [] ([], [])"

definition expandOriginal :: "external \<Rightarrow> string \<Rightarrow> ('p, string list \<times> QueueSource list) prog" where
  "expandOriginal X rawOriginal w =
     (case normalizeQueueRecipient X rawOriginal of
        Inl _ \<Rightarrow> (Inl (Err ''invalid original recipient''), w)
      | Inr (original, _) \<Rightarrow>
         (case loadExpansionAliases X [original] w of
            (Inl e, w1) \<Rightarrow> (Inl e, w1)
          | (Inr amap, w1) \<Rightarrow>
             (case walkFrom amap original of
                Inl e \<Rightarrow> (Inl e, w1)
              | Inr (leaves, srcs) \<Rightarrow> (Inr (sort leaves, sort_key src_object (map snd srcs)), w1))))"

section \<open>Proving deliveries\<close>

definition canonicalDelivery :: "external \<Rightarrow> QueueDelivery \<Rightarrow> QueueDelivery result" where
  "canonicalDelivery X d =
     (case normalizeQueueRecipient X (dl_original d) of
        Inl _ \<Rightarrow> Inl (Err ''invalid original recipient'')
      | Inr (original, _) \<Rightarrow>
         (case normalizeQueueRecipient X (dl_recipient d) of
            Inl _ \<Rightarrow> Inl (Err ''invalid expanded recipient'')
          | Inr (final, _) \<Rightarrow> Inr \<lparr>dl_original = original, dl_recipient = final\<rparr>))"

text \<open>Adding the sources of one delivery to the set, with the limit checked after each.\<close>

fun mergeSources ::
  "(string \<times> QueueSource) list \<Rightarrow> (string \<times> QueueSource) list \<Rightarrow> (string \<times> QueueSource) list result"
where
  "mergeSources [] acc = Inr acc"
| "mergeSources ((k, s) # rest) acc =
     (let acc' = AList.update k s acc in
      if length acc' > maxQueueSources then Inl (Err ''outbound alias source limit exceeded'')
      else mergeSources rest acc')"

fun proveDeliveries ::
  "alias_map \<Rightarrow> QueueDelivery list \<Rightarrow> (string \<times> QueueSource) list \<Rightarrow> (string \<times> QueueSource) list result"
where
  "proveDeliveries amap [] acc = Inr acc"
| "proveDeliveries amap (d # ds) acc =
     (if dl_original d = dl_recipient d then proveDeliveries amap ds acc
      else case walkFrom amap (dl_original d) of
        Inl e \<Rightarrow> Inl e
      | Inr (leaves, srcs) \<Rightarrow>
          if dl_recipient d \<notin> set leaves
          then Inl (Err ''expanded recipient is not derived from authoritative aliases'')
          else case mergeSources srcs acc of
            Inl e \<Rightarrow> Inl e
          | Inr acc' \<Rightarrow> proveDeliveries amap ds acc')"

definition resolveExpansionDeliveries ::
  "external \<Rightarrow> QueueDelivery list \<Rightarrow> ('p, QueueSource list) prog"
where
  "resolveExpansionDeliveries X deliveries w =
     (case mapR (canonicalDelivery X) deliveries of
        Inl e \<Rightarrow> (Inl e, w)
      | Inr canonical \<Rightarrow>
         (case loadExpansionAliases X (map dl_original canonical) w of
            (Inl e, w1) \<Rightarrow> (Inl e, w1)
          | (Inr amap, w1) \<Rightarrow>
             (case proveDeliveries amap canonical [] of
                Inl e \<Rightarrow> (Inl e, w1)
              | Inr srcs \<Rightarrow> (Inr (sort_key src_object (map snd srcs)), w1))))"

definition validateQueueDeliveries :: "external \<Rightarrow> string list \<Rightarrow> QueueDelivery list \<Rightarrow> go_error option" where
  "validateQueueDeliveries X rcpts deliveries =
     (case canonicalQueueRecipients X rcpts of
        Inl _ \<Rightarrow> Some (Err ''invalid inspected queue recipients'')
      | Inr want \<Rightarrow>
         (case canonicalQueueRecipients X (map dl_recipient deliveries) of
            Inl _ \<Rightarrow> Some (Err ''Postfix delivery recipients do not match inspected queue'')
          | Inr got \<Rightarrow>
              if length got \<noteq> length want
              then Some (Err ''Postfix delivery recipients do not match inspected queue'')
              else if list_ex (\<lambda>(g, v). g \<noteq> v) (zip got want)
              then Some (Err ''Postfix delivery recipients do not match inspected queue'')
              else None))"

end
