(* ===== verification/Expansion_Facts.thy ===== *)
theory Expansion_Facts
  imports Expansion
begin

text \<open>
  What the alias expansion of \<^verbatim>\<open>internal/outboundpolicy/admission.go\<close> computes: the reachable leaves and
  alias objects of an acyclic graph.
\<close>

section \<open>The graph\<close>

definition edge :: "alias_map \<Rightarrow> string \<Rightarrow> string \<Rightarrow> bool" where
  "edge amap a b \<longleftrightarrow> (\<exists>al. map_of amap a = Some al \<and> b \<in> set (ea_targets al))"

definition reach :: "alias_map \<Rightarrow> string \<Rightarrow> string set" where
  "reach amap a = {b. (edge amap)\<^sup>*\<^sup>* a b}"

definition leaves_of :: "alias_map \<Rightarrow> string \<Rightarrow> string set" where
  "leaves_of amap a = {b \<in> reach amap a. map_of amap b = None}"

definition sources_of :: "alias_map \<Rightarrow> string \<Rightarrow> QueueSource set" where
  "sources_of amap a = {alias_source al | al b. b \<in> reach amap a \<and> map_of amap b = Some al}"

definition acyclic_from :: "alias_map \<Rightarrow> string \<Rightarrow> bool" where
  "acyclic_from amap a \<longleftrightarrow> (\<forall>b\<in>reach amap a. \<not> (edge amap)\<^sup>+\<^sup>+ b b)"

lemma reach_refl [simp]: "a \<in> reach amap a"
  by (simp add: reach_def)

lemma reach_leaf: "map_of amap a = None \<Longrightarrow> reach amap a = {a}"
  unfolding reach_def by (auto elim: converse_rtranclpE simp: edge_def)

lemma reach_alias:
  assumes "map_of amap a = Some al"
  shows "reach amap a = insert a (\<Union>t\<in>set (ea_targets al). reach amap t)"
proof (intro equalityI subsetI)
  fix b assume "b \<in> reach amap a"
  then have "(edge amap)\<^sup>*\<^sup>* a b" by (simp add: reach_def)
  then show "b \<in> insert a (\<Union>t\<in>set (ea_targets al). reach amap t)"
    by (cases rule: converse_rtranclpE) (use assms in \<open>auto simp: reach_def edge_def\<close>)
next
  fix b assume "b \<in> insert a (\<Union>t\<in>set (ea_targets al). reach amap t)"
  then show "b \<in> reach amap a"
    using assms by (auto simp: reach_def edge_def intro: converse_rtranclp_into_rtranclp)
qed

lemma edge_trancl_reach: "(edge amap)\<^sup>+\<^sup>+ a b \<longleftrightarrow> (\<exists>al. map_of amap a = Some al \<and> (\<exists>t\<in>set (ea_targets al). b \<in> reach amap t))"
proof
  assume "(edge amap)\<^sup>+\<^sup>+ a b"
  then obtain t where "edge amap a t" "(edge amap)\<^sup>*\<^sup>* t b" by (meson tranclpD)
  then show "\<exists>al. map_of amap a = Some al \<and> (\<exists>t\<in>set (ea_targets al). b \<in> reach amap t)"
    by (auto simp: edge_def reach_def)
next
  assume "\<exists>al. map_of amap a = Some al \<and> (\<exists>t\<in>set (ea_targets al). b \<in> reach amap t)"
  then show "(edge amap)\<^sup>+\<^sup>+ a b" by (auto simp: reach_def edge_def intro: rtranclp_into_tranclp2)
qed

lemma leaves_of_alias:
  "map_of amap a = Some al \<Longrightarrow> leaves_of amap a = (\<Union>t\<in>set (ea_targets al). leaves_of amap t)"
  by (auto simp: leaves_of_def reach_alias)

lemma leaves_of_leaf: "map_of amap a = None \<Longrightarrow> leaves_of amap a = {a}"
  by (auto simp: leaves_of_def reach_leaf)

lemma sources_of_alias:
  "map_of amap a = Some al \<Longrightarrow>
   sources_of amap a = insert (alias_source al) (\<Union>t\<in>set (ea_targets al). sources_of amap t)"
  by (auto simp: sources_of_def reach_alias)

lemma sources_of_leaf: "map_of amap a = None \<Longrightarrow> sources_of amap a = {}"
  by (auto simp: sources_of_def reach_leaf)

section \<open>A successful walk\<close>

definition kinds_ok :: "alias_map \<Rightarrow> bool" where
  "kinds_ok amap \<longleftrightarrow> (\<forall>al\<in>ran (map_of amap). validSourceKind (ea_kind al))"

definition walk_ok :: "walk_state \<Rightarrow> bool" where
  "walk_ok st \<longleftrightarrow> distinct (fst st) \<and> keyed source_key (snd st)
     \<and> (\<forall>s\<in>snd ` set (snd st). validSourceKind (src_kind s))"

text \<open>What one walk adds to the state, and what its success shows of the graph below \<open>a\<close>.\<close>

definition walk_adds :: "alias_map \<Rightarrow> string set \<Rightarrow> string list \<Rightarrow> walk_state \<Rightarrow> walk_state \<Rightarrow> bool" where
  "walk_adds amap as active st st' \<longleftrightarrow>
     walk_ok st' \<and> set (fst st') = set (fst st) \<union> (\<Union>a\<in>as. leaves_of amap a)
     \<and> snd ` set (snd st') = snd ` set (snd st) \<union> (\<Union>a\<in>as. sources_of amap a)
     \<and> (\<forall>a\<in>as. acyclic_from amap a)
     \<and> (\<forall>a\<in>as. \<forall>b\<in>reach amap a. map_of amap b \<noteq> None \<longrightarrow> b \<notin> set active)"

lemma walkLeaf_adds:
  assumes "map_of amap a = None" and "walkLeaf a st = Inr st'" and "walk_ok st"
  shows "walk_adds amap {a} active st st'"
  using assms
  by (auto simp: walkLeaf_def walk_adds_def walk_ok_def leaves_of_leaf sources_of_leaf acyclic_from_def reach_leaf
      edge_trancl_reach Let_def split: if_splits)

lemma foldR_adds:
  assumes "\<And>t st st'. t \<in> set ts \<Longrightarrow> walk_ok st \<Longrightarrow> f t st = Inr st' \<Longrightarrow> walk_adds amap {t} active st st'"
    and "walk_ok st" and "foldR f ts st = Inr st'"
  shows "walk_adds amap (set ts) active st st'"
  using assms
proof (induction ts arbitrary: st)
  case (Cons t ts)
  from Cons.prems(3) obtain st1 where st1: "f t st = Inr st1" "foldR f ts st1 = Inr st'"
    by (auto split: sum.splits)
  have a: "walk_adds amap {t} active st st1" using Cons.prems(1,2) st1(1) by simp
  then have "walk_ok st1" by (simp add: walk_adds_def)
  then have "walk_adds amap (set ts) active st1 st'" using Cons.IH Cons.prems(1) st1(2) by simp
  with a show ?case unfolding walk_adds_def by auto
qed (simp add: walk_adds_def)

lemma add_source:
  assumes "walk_ok (ls, srcs)" and "validSourceKind (src_kind s)"
  shows "walk_ok (ls, AList.update (source_key s) s srcs)"
    and "snd ` set (AList.update (source_key s) s srcs) = insert s (snd ` set srcs)"
proof -
  have "inj_on source_key (snd ` set srcs \<union> set [s])"
    using assms by (intro inj_on_subset [OF source_key_inj]) (auto simp: walk_ok_def)
  from fold_update_keys [OF _ this] assms
  show "snd ` set (AList.update (source_key s) s srcs) = insert s (snd ` set srcs)"
    and "walk_ok (ls, AList.update (source_key s) s srcs)"
    by (auto simp: walk_ok_def)
qed

lemma walk_sound:
  assumes "kinds_ok amap" and "walk_ok st" and "walkExpansionGraph n amap a active st = Inr st'"
  shows "walk_adds amap {a} active st st'"
  using assms(2,3)
proof (induction n arbitrary: a active st st')
  case 0
  then show ?case by (auto intro: walkLeaf_adds split: option.splits)
next
  case (Suc n)
  show ?case
  proof (cases "map_of amap a")
    case None
    then show ?thesis using Suc.prems by (auto intro: walkLeaf_adds)
  next
    case (Some al)
    let ?srcs = "AList.update (source_key (alias_source al)) (alias_source al) (snd st)"
    have na: "a \<notin> set active"
      and f: "foldR (\<lambda>t. walkExpansionGraph n amap t (a # active)) (ea_targets al) (fst st, ?srcs) = Inr st'"
      using Suc.prems(2) Some by (auto simp: Let_def split: if_splits)
    have k: "validSourceKind (src_kind (alias_source al))"
      using assms(1) Some by (auto simp: kinds_ok_def alias_source_def ran_def)
    have st: "walk_ok (fst st, snd st)" using Suc.prems(1) by simp
    note add = add_source [OF st k]
    have ih: "walk_adds amap (set (ea_targets al)) (a # active) (fst st, ?srcs) st'"
      by (rule foldR_adds [OF _ add(1) f]) (use Suc.IH in blast)
    have "a \<notin> reach amap t" if "t \<in> set (ea_targets al)" for t
      using ih that Some unfolding walk_adds_def by (metis list.set_intros(1) option.distinct(1))
    then have "\<not> (edge amap)\<^sup>+\<^sup>+ a a" using Some by (simp add: edge_trancl_reach)
    then have "acyclic_from amap a"
      using ih by (auto simp: walk_adds_def acyclic_from_def reach_alias [OF Some])
    moreover have "\<forall>b\<in>reach amap a. map_of amap b \<noteq> None \<longrightarrow> b \<notin> set active"
      using ih na by (auto simp: walk_adds_def reach_alias [OF Some])
    ultimately show ?thesis
      using ih add(2) by (simp add: walk_adds_def leaves_of_alias [OF Some] sources_of_alias [OF Some])
  qed
qed

section \<open>When the walk succeeds\<close>

text \<open>States within the limits: leaves from a set \<open>F\<close>, source keys from a set \<open>K\<close>.\<close>

definition within :: "string set \<Rightarrow> string set \<Rightarrow> walk_state \<Rightarrow> bool" where
  "within F K st \<longleftrightarrow> walk_ok st \<and> set (fst st) \<subseteq> F \<and> source_key ` snd ` set (snd st) \<subseteq> K"

lemma foldR_within:
  assumes "\<And>t st. t \<in> set ts \<Longrightarrow> Q st \<Longrightarrow> \<exists>st'. f t st = Inr st' \<and> Q st'" and "Q st"
  shows "\<exists>st'. foldR f ts st = Inr st' \<and> Q st'"
  using assms
proof (induction ts arbitrary: st)
  case (Cons t ts)
  obtain st1 where "f t st = Inr st1" "Q st1" using Cons.prems by (meson list.set_intros(1))
  with Cons show ?case by simp
qed auto

lemma walk_adds_within:
  assumes "walk_adds amap {a} active st st'" and "within F K st"
    and "leaves_of amap a \<subseteq> F" and "source_key ` sources_of amap a \<subseteq> K"
  shows "within F K st'"
proof -
  have "snd ` set (snd st') = snd ` set (snd st) \<union> sources_of amap a" "walk_ok st'"
    "set (fst st') = set (fst st) \<union> leaves_of amap a"
    using assms(1) by (auto simp: walk_adds_def)
  then show ?thesis using assms(2-) by (simp add: within_def image_Un)
qed

lemma keyed_length:
  assumes "keyed key m" and "key ` snd ` set m \<subseteq> K" and "finite K"
  shows "length m \<le> card K"
proof -
  have "length m = card (fst ` set m)"
    using assms(1) distinct_card [of "map fst m"] by (simp add: keyed_def)
  moreover have "fst ` set m = key ` snd ` set m" using assms(1) by (force simp: keyed_def)
  ultimately show ?thesis using card_mono [OF assms(3,2)] by simp
qed

lemma walkLeaf_within:
  assumes "within F K st" and "a \<in> F" and "finite F" and "card F \<le> maxQueueRecipients"
  shows "\<exists>st'. walkLeaf a st = Inr st'"
proof -
  have d: "distinct (List.insert a (fst st))" using assms(1) by (simp add: within_def walk_ok_def)
  have "set (List.insert a (fst st)) \<subseteq> F" using assms(1,2) by (simp add: within_def)
  then have "length (List.insert a (fst st)) \<le> card F"
    using card_mono [OF assms(3)] distinct_card [OF d] by metis
  then show ?thesis using assms(4) by (simp add: walkLeaf_def Let_def)
qed

lemma walk_complete:
  assumes k: "kinds_ok amap" and F: "finite F" "card F \<le> maxQueueRecipients"
    and K: "finite K" "card K \<le> maxQueueSources"
  shows "within F K st \<Longrightarrow> acyclic_from amap a \<Longrightarrow> leaves_of amap a \<subseteq> F \<Longrightarrow> source_key ` sources_of amap a \<subseteq> K \<Longrightarrow>
    \<forall>b\<in>reach amap a. map_of amap b \<noteq> None \<longrightarrow> b \<notin> set active \<Longrightarrow>
    card (reach amap a \<inter> dom (map_of amap)) \<le> n \<Longrightarrow> \<exists>st'. walkExpansionGraph n amap a active st = Inr st'"
proof (induction n arbitrary: a active st)
  case 0
  have "finite (reach amap a \<inter> dom (map_of amap))" by (simp add: finite_dom_map_of)
  then have "reach amap a \<inter> dom (map_of amap) = {}" using 0 by simp
  then have "map_of amap a = None" using reach_refl by blast
  then show ?case using walkLeaf_within [OF "0.prems"(1) _ F] "0.prems"(3) by (simp add: leaves_of_leaf)
next
  case (Suc n)
  show ?case
  proof (cases "map_of amap a")
    case None
    then show ?thesis using walkLeaf_within [OF Suc.prems(1) _ F] Suc.prems(3) by (simp add: leaves_of_leaf)
  next
    case (Some al)
    let ?srcs = "AList.update (source_key (alias_source al)) (alias_source al) (snd st)"
    have kal: "validSourceKind (src_kind (alias_source al))"
      using k Some by (auto simp: kinds_ok_def alias_source_def ran_def)
    have ok: "walk_ok (fst st, snd st)" using Suc.prems(1) by (simp add: within_def)
    note add = add_source [OF ok kal]
    have w: "within F K (fst st, ?srcs)"
      using Suc.prems(1,4) add by (auto simp: within_def sources_of_alias [OF Some])
    then have len: "length ?srcs \<le> maxQueueSources"
      using keyed_length [of source_key ?srcs K] K by (auto simp: within_def walk_ok_def)
    have na: "a \<notin> set active" using Suc.prems(5) Some by auto
    have "\<exists>st'. foldR (\<lambda>t. walkExpansionGraph n amap t (a # active)) (ea_targets al) (fst st, ?srcs) = Inr st' \<and> within F K st'"
    proof (rule foldR_within [where Q = "within F K", OF _ w])
      fix t st1 assume t: "t \<in> set (ea_targets al)" and w1: "within F K st1"
      have sub: "reach amap t \<subseteq> reach amap a" using t by (auto simp: reach_alias [OF Some])
      have at: "a \<notin> reach amap t"
        using Suc.prems(2) t Some by (auto simp: acyclic_from_def edge_trancl_reach dest!: bspec [OF _ reach_refl])
      have "reach amap t \<inter> dom (map_of amap) \<subset> reach amap a \<inter> dom (map_of amap)"
        using sub at domI [of "map_of amap", OF Some] reach_refl [of a amap]
        by (intro psubsetI) (blast, metis IntE IntI)
      then have "card (reach amap t \<inter> dom (map_of amap)) < card (reach amap a \<inter> dom (map_of amap))"
        by (intro psubset_card_mono) (simp_all add: finite_dom_map_of)
      then have c: "card (reach amap t \<inter> dom (map_of amap)) \<le> n" using Suc.prems(6) by simp
      have ac: "acyclic_from amap t" using Suc.prems(2) sub by (auto simp: acyclic_from_def)
      have lv: "leaves_of amap t \<subseteq> F" using Suc.prems(3) t by (auto simp: leaves_of_alias [OF Some])
      have sc: "source_key ` sources_of amap t \<subseteq> K" using Suc.prems(4) t by (auto simp: sources_of_alias [OF Some])
      have act: "\<forall>b\<in>reach amap t. map_of amap b \<noteq> None \<longrightarrow> b \<notin> set (a # active)"
        using Suc.prems(5) sub at by auto
      obtain st2 where st2: "walkExpansionGraph n amap t (a # active) st1 = Inr st2"
        using Suc.IH [OF w1 ac lv sc act c] by blast
      moreover have "walk_ok st1" using w1 by (simp add: within_def)
      ultimately have "within F K st2"
        using walk_adds_within [OF walk_sound [OF k _ st2] w1 lv sc] by blast
      with st2 show "\<exists>st'. walkExpansionGraph n amap t (a # active) st1 = Inr st' \<and> within F K st'" by blast
    qed
    then show ?thesis using Some na len by (auto simp: Let_def)
  qed
qed

lemma walk_ok_empty: "walk_ok ([], [])"
  by (simp add: walk_ok_def keyed_def)

lemma walkFrom_sound:
  assumes "kinds_ok amap" and "walkFrom amap a = Inr (ls, srcs)"
  shows "acyclic_from amap a" and "distinct ls" and "set ls = leaves_of amap a"
    and "distinct (map snd srcs)" and "set (map snd srcs) = sources_of amap a"
proof -
  have w: "walk_adds amap {a} [] ([], []) (ls, srcs)"
    using walk_sound [OF assms(1) walk_ok_empty] assms(2) by (simp add: walkFrom_def)
  then show "acyclic_from amap a" "distinct ls" "set ls = leaves_of amap a" "set (map snd srcs) = sources_of amap a"
    by (auto simp: walk_adds_def walk_ok_def)
  have kd: "keyed source_key srcs" using w by (simp add: walk_adds_def walk_ok_def)
  then have "map fst srcs = map source_key (map snd srcs)" by (simp add: keyed_def)
  moreover have "distinct (map fst srcs)" using kd by (simp only: keyed_def)
  ultimately have "distinct (map source_key (map snd srcs))" by (simp only:)
  then show "distinct (map snd srcs)" unfolding distinct_map [of source_key] ..
qed

lemma finite_leaves: "finite (leaves_of amap a)"
proof -
  have "reach amap a \<subseteq> insert a (\<Union>al\<in>ran (map_of amap). set (ea_targets al))"
  proof
    fix b assume "b \<in> reach amap a"
    then have "(edge amap)\<^sup>*\<^sup>* a b" by (simp add: reach_def)
    then show "b \<in> insert a (\<Union>al\<in>ran (map_of amap). set (ea_targets al))"
      by (cases rule: rtranclp.cases) (auto simp: edge_def ran_def)
  qed
  moreover have "finite (ran (map_of amap))" 
    by (rule finite_subset [of _ "snd ` set amap"]) (force simp: ran_def dest: map_of_SomeD, simp)
  ultimately have "finite (reach amap a)" by (auto intro: finite_subset)
  then show ?thesis by (simp add: leaves_of_def)
qed

lemma walkFrom_complete:
  assumes k: "kinds_ok amap" and len: "length amap \<le> maxExpansionAliases"
    and ac: "acyclic_from amap a" and lv: "card (leaves_of amap a) \<le> maxQueueRecipients"
  shows "\<exists>st. walkFrom amap a = Inr st"
proof -
  let ?K = "(\<lambda>(b, al). source_key (alias_source al)) ` set amap"
  have dom: "card (dom (map_of amap)) \<le> maxQueueSources"
    using card_length [of "map fst amap"] len by (simp add: dom_map_of_conv_image_fst maxExpansionAliases_def)
  then have c: "card (reach amap a \<inter> dom (map_of amap)) \<le> maxQueueSources"
    using card_mono [OF finite_dom_map_of, of "reach amap a \<inter> dom (map_of amap)" amap] by simp
  have K: "finite ?K" "card ?K \<le> maxQueueSources"
    using card_image_le [of "set amap" "\<lambda>(b, al). source_key (alias_source al)"] card_length [of amap] len
    by (auto simp: maxExpansionAliases_def)
  have sc: "source_key ` sources_of amap a \<subseteq> ?K"
    by (force simp: sources_of_def dest: map_of_SomeD)
  have w: "within (leaves_of amap a) ?K ([], [])" using walk_ok_empty by (simp add: within_def)
  show ?thesis
    unfolding walkFrom_def
    by (rule walk_complete [OF k finite_leaves lv K w ac subset_refl sc _ c]) simp
qed

end
