(* ===== verification/Expansion_Graph.thy ===== *)
theory Expansion_Graph
  imports Expansion_Facts
begin

text \<open>
  The layers that \<^verbatim>\<open>loadExpansionAliases\<close> of \<^verbatim>\<open>internal/outboundpolicy/admission.go\<close> fetches make up the alias graph of
  the database as far as it is reachable, and what the operations on top of it return is stated over that
  graph.
\<close>

section \<open>The graph in the database\<close>

text \<open>
  The alias an address has: its only row, when the row is valid. An address with no row is a leaf.
\<close>

definition graph_at :: "external \<Rightarrow> db \<Rightarrow> string \<Rightarrow> expansionAlias option" where
  "graph_at X db a =
     (case address_rows db a of
        [row] \<Rightarrow> (case scanExpansionAlias X row of Inl _ \<Rightarrow> None | Inr al \<Rightarrow> Some al)
      | _ \<Rightarrow> None)"

definition node_ok :: "external \<Rightarrow> db \<Rightarrow> string \<Rightarrow> bool" where
  "node_ok X db a \<longleftrightarrow> address_rows db a = [] \<or> graph_at X db a \<noteq> None"

definition db_edge :: "external \<Rightarrow> db \<Rightarrow> string \<Rightarrow> string \<Rightarrow> bool" where
  "db_edge X db a b \<longleftrightarrow> (\<exists>al. graph_at X db a = Some al \<and> b \<in> set (ea_targets al))"

definition db_reach :: "external \<Rightarrow> db \<Rightarrow> string \<Rightarrow> string set" where
  "db_reach X db a = {b. (db_edge X db)\<^sup>*\<^sup>* a b}"

definition row_address :: "alias_row \<Rightarrow> string" where
  "row_address row = fst (snd row)"

lemma address_rows_address: "row \<in> set (address_rows db a) \<Longrightarrow> row_address row = a"
  by (auto simp: address_rows_def row_address_def)

lemma graph_at_Some:
  "graph_at X db a = Some al \<longleftrightarrow> (\<exists>row. address_rows db a = [row] \<and> scanExpansionAlias X row = Inr al)"
  by (auto simp: graph_at_def split: list.splits sum.splits)

lemma scan_address: "scanExpansionAlias X row = Inr al \<Longrightarrow> ea_address al = row_address row"
  by (auto simp: scanExpansionAlias_def row_address_def Let_def split: prod.splits if_splits option.splits sum.splits)

lemma scan_kind: "scanExpansionAlias X row = Inr al \<Longrightarrow> validSourceKind (ea_kind al)"
  by (auto simp: scanExpansionAlias_def Let_def classifyExpansionSource_def validSourceKind_def
      split: prod.splits if_splits option.splits sum.splits)

lemma graph_at_kind: "graph_at X db a = Some al \<Longrightarrow> validSourceKind (ea_kind al)"
  by (auto simp: graph_at_Some dest: scan_kind)

section \<open>One layer\<close>

lemma update_new: "map_of m k = None \<Longrightarrow> AList.update k v m = m @ [(k, v)]"
  by (induction m) (auto split: if_splits)

text \<open>What a successful scan of rows shows, and when it succeeds.\<close>

definition scanned :: "external \<Rightarrow> alias_row list \<Rightarrow> alias_map \<Rightarrow> string list \<Rightarrow> alias_map \<Rightarrow> string list \<Rightarrow> bool" where
  "scanned X rows found nxt found' nxt' \<longleftrightarrow>
     distinct (map row_address rows) \<and> (\<forall>row\<in>set rows. map_of found (row_address row) = None)
     \<and> (\<forall>row\<in>set rows. \<exists>al. scanExpansionAlias X row = Inr al \<and> map_of found' (row_address row) = Some al)
     \<and> (\<forall>b. b \<notin> row_address ` set rows \<longrightarrow> map_of found' b = map_of found b)
     \<and> set nxt' = set nxt \<union> (\<Union>row\<in>set rows. \<Union>al\<in>{al. scanExpansionAlias X row = Inr al}. set (ea_targets al))
     \<and> length found' = length found + length rows \<and> (distinct (map fst found) \<longrightarrow> distinct (map fst found'))
     \<and> (rows \<noteq> [] \<longrightarrow> length found' \<le> maxExpansionAliases)"

lemma scanRows_Inr:
  "scanRows X rows found nxt = Inr (found', nxt') \<Longrightarrow> scanned X rows found nxt found' nxt'"
proof (induction rows arbitrary: found nxt)
  case Nil
  then show ?case by (simp add: scanned_def)
next
  case (Cons row rows)
  from Cons.prems obtain al where al: "scanExpansionAlias X row = Inr al"
    and len: "length found < maxExpansionAliases" and fresh: "map_of found (ea_address al) = None"
    and rec: "scanRows X rows (AList.update (ea_address al) al found) (nxt @ ea_targets al) = Inr (found', nxt')"
    by (auto split: if_splits sum.splits)
  note addr = scan_address [OF al]
  have up: "AList.update (ea_address al) al found = found @ [(row_address row, al)]"
    using update_new [OF fresh] addr by simp
  have IH: "scanned X rows (found @ [(row_address row, al)]) (nxt @ ea_targets al) found' nxt'"
    using Cons.IH [OF rec] up by simp
  then have nin: "row_address row \<notin> row_address ` set rows"
    by (auto simp: scanned_def image_iff)
  have keep: "map_of found' (row_address row) = Some al"
    using IH nin fresh addr by (simp add: scanned_def map_add_def)
  have d: "distinct (map fst found) \<Longrightarrow> distinct (map fst (found @ [(row_address row, al)]))"
    using fresh addr by (auto simp: map_of_eq_None_iff)
  have len': "length found' = length found + length (row # rows)" using IH by (simp add: scanned_def)
  have "length found' \<le> maxExpansionAliases"
    using IH len len' by (cases "rows = []") (auto simp: scanned_def)
  with IH al keep nin fresh addr d len' show ?case
    unfolding scanned_def by (auto simp: map_add_def split: option.splits)
qed

lemma scanRows_succeeds:
  assumes "distinct (map row_address rows)" and "\<forall>row\<in>set rows. map_of found (row_address row) = None"
    and "\<forall>row\<in>set rows. \<exists>al. scanExpansionAlias X row = Inr al"
    and "length found + length rows \<le> maxExpansionAliases"
  shows "\<exists>r. scanRows X rows found nxt = Inr r"
  using assms
proof (induction rows arbitrary: found nxt)
  case (Cons row rows)
  from Cons.prems(3) obtain al where al: "scanExpansionAlias X row = Inr al" by auto
  note addr = scan_address [OF al]
  have fresh: "map_of found (ea_address al) = None" using Cons.prems(2) addr by simp
  have "row_address r \<noteq> row_address row" if "r \<in> set rows" for r
    using Cons.prems(1) that by (metis distinct.simps(2) image_eqI list.set_map list.simps(9))
  then have "\<exists>r. scanRows X rows (found @ [(row_address row, al)]) (nxt @ ea_targets al) = Inr r"
    by (intro Cons.IH) (use Cons.prems in \<open>auto simp: map_add_def\<close>)
  then show ?case using al fresh update_new [OF fresh] addr Cons.prems(4) by auto
qed simp

lemma set_layer_rows [simp]: "set (layer_rows X db batch) = (\<Union>a\<in>set batch. set (address_rows db a))"
  by (simp add: layer_rows_def)

lemma length_layer_rows: "length (layer_rows X db batch) = (\<Sum>a\<leftarrow>batch. length (address_rows db a))"
  by (simp add: layer_rows_def length_concat comp_def)

text \<open>Rows with distinct addresses are at most one for each address of the layer.\<close>

lemma layer_distinct:
  assumes "distinct batch" and "distinct (map row_address (layer_rows X db batch))" and "a \<in> set batch"
    and "address_rows db a \<noteq> []"
  obtains row where "address_rows db a = [row]"
proof -
  let ?f = "\<lambda>a. card (row_address ` set (address_rows db a))"
  have one: "?f b \<le> 1" for b
  proof -
    have "row_address ` set (address_rows db b) \<subseteq> {b}" using address_rows_address by auto
    then show ?thesis using card_mono by (metis One_nat_def card.empty card_insert_disjoint empty_iff finite.emptyI finite_insert)
  qed
  have img: "row_address ` set (layer_rows X db batch) = (\<Union>b\<in>set batch. row_address ` set (address_rows db b))" by auto
  have "(\<Sum>b\<leftarrow>batch. length (address_rows db b)) = card (row_address ` set (layer_rows X db batch))"
    using distinct_card [OF assms(2)] length_layer_rows [of X db batch] by simp
  also have "\<dots> \<le> (\<Sum>b\<in>set batch. ?f b)" unfolding img by (rule card_UN_le) simp
  also have "\<dots> = (\<Sum>b\<leftarrow>batch. ?f b)" using assms(1) by (simp add: sum_list_distinct_conv_sum_set)
  finally have le: "(\<Sum>b\<in>set batch. length (address_rows db b)) \<le> (\<Sum>b\<in>set batch. ?f b)"
    using assms(1) by (simp add: sum_list_distinct_conv_sum_set)
  have pt: "?f b \<le> length (address_rows db b)" for b by (metis card_length length_map list.set_map)
  have "length (address_rows db a) = ?f a"
  proof (rule ccontr)
    assume "length (address_rows db a) \<noteq> ?f a"
    then have "?f a < length (address_rows db a)" using pt [of a] by simp
    then have "(\<Sum>b\<in>set batch. ?f b) < (\<Sum>b\<in>set batch. length (address_rows db b))"
      using assms(3) pt by (intro sum_strict_mono_ex1) auto
    with le show False by simp
  qed
  then have "length (address_rows db a) = 1" using one [of a] assms(4) by (cases "address_rows db a") auto
  then show ?thesis using that by (metis One_nat_def length_0_conv length_Suc_conv)
qed

section \<open>The layers\<close>

text \<open>No other session changes the database while the operation runs; every statement succeeds.\<close>

definition still :: "'p world \<Rightarrow> bool" where
  "still w \<longleftrightarrow> (\<forall>k. cx_other (w_env w k) (w_db w) = w_db w)"

definition answers :: "'p world \<Rightarrow> bool" where
  "answers w \<longleftrightarrow> (\<forall>k. cx_fate (w_env w k) = TxOk)"

lemma run_query_still:
  assumes "run_query body w = (r, w')" and "still w"
  shows "w_db w' = w_db w" and "still w'" and "answers w \<Longrightarrow> answers w'" and "r = body (w_db w) \<or> r = Inl SqlError"
    and "answers w \<Longrightarrow> r = body (w_db w)" and "w_count w' = Suc (w_count w)"
  using assms by (auto simp: run_query_def still_def answers_def Let_def split: if_splits)

definition layered :: "external \<Rightarrow> db \<Rightarrow> alias_map \<Rightarrow> string list \<Rightarrow> string list \<Rightarrow> bool" where
  "layered X db found seen frontier \<longleftrightarrow>
     (\<forall>a\<in>set seen. node_ok X db a \<and> map_of found a = graph_at X db a)
     \<and> (\<forall>a. a \<notin> set seen \<longrightarrow> map_of found a = None)
     \<and> (\<forall>a\<in>set seen. \<forall>al. graph_at X db a = Some al \<longrightarrow> set (ea_targets al) \<subseteq> set seen \<union> set frontier)
     \<and> distinct (map fst found) \<and> length found \<le> maxExpansionAliases"

lemma set_new_batch: "set (new_batch seen frontier) = set frontier - set seen"
  by (auto simp: new_batch_def)

lemma layered_step:
  assumes inv: "layered X db found seen frontier"
    and scan: "scanRows X (layer_rows X db (new_batch seen frontier)) found [] = Inr (found', nxt)"
  shows "layered X db found' (seen @ new_batch seen frontier) nxt"
proof -
  let ?batch = "new_batch seen frontier" let ?rows = "layer_rows X db ?batch"
  note sc = scanRows_Inr [OF scan]
  have db: "distinct ?batch" by (simp add: new_batch_def)
  have dr: "distinct (map row_address ?rows)" using sc by (simp add: scanned_def)
  have other: "map_of found' b = map_of found b" if "b \<notin> row_address ` set ?rows" for b
    using sc that by (simp add: scanned_def)
  have in_rows: "row_address ` set ?rows \<subseteq> set ?batch" using address_rows_address by auto
  have new: "node_ok X db a \<and> map_of found' a = graph_at X db a
      \<and> (\<forall>al. graph_at X db a = Some al \<longrightarrow> set (ea_targets al) \<subseteq> set nxt)" if a: "a \<in> set ?batch" for a
  proof (cases "address_rows db a = []")
    case True
    then have "a \<notin> row_address ` set ?rows" using address_rows_address by force
    moreover have "map_of found a = None" using inv a by (simp add: layered_def set_new_batch)
    ultimately show ?thesis using other True by (simp add: node_ok_def graph_at_def)
  next
    case False
    then obtain row where row: "address_rows db a = [row]" using layer_distinct [OF db dr a] by blast
    then have rr: "row \<in> set ?rows" and ra: "row_address row = a"
      using a address_rows_address [of row db a] by (auto intro: bexI [of _ a])
    moreover have "\<forall>row\<in>set ?rows. \<exists>al. scanExpansionAlias X row = Inr al \<and> map_of found' (row_address row) = Some al"
      using sc unfolding scanned_def by blast
    ultimately obtain al where al: "scanExpansionAlias X row = Inr al" "map_of found' a = Some al" by blast
    then have "graph_at X db a = Some al" using row by (simp add: graph_at_Some)
    moreover have "set (ea_targets al) \<subseteq> set nxt"
      using sc al(1) rr unfolding scanned_def by blast
    ultimately show ?thesis using al by (simp add: node_ok_def)
  qed
  have old: "map_of found' a = map_of found a" if "a \<notin> set ?batch" for a using other in_rows that by blast
  have "length found' \<le> maxExpansionAliases"
    using sc inv by (cases "?rows = []") (auto simp: scanned_def layered_def)
  moreover have "distinct (map fst found')" using sc inv by (simp add: scanned_def layered_def)
  moreover have "node_ok X db a \<and> map_of found' a = graph_at X db a
      \<and> (\<forall>al. graph_at X db a = Some al \<longrightarrow> set (ea_targets al) \<subseteq> set (seen @ ?batch) \<union> set nxt)"
    if "a \<in> set (seen @ ?batch)" for a
  proof (cases "a \<in> set ?batch")
    case False
    then have "a \<in> set seen" using that by simp
    moreover have "set seen \<union> set frontier = set (seen @ ?batch)" by (auto simp: set_new_batch)
    ultimately show ?thesis using inv old [OF False] unfolding layered_def by (metis UnI1 subset_iff)
  qed (use new in blast)
  moreover have "map_of found' a = None" if "a \<notin> set (seen @ ?batch)" for a
    using that old inv by (simp add: layered_def)
  ultimately show ?thesis unfolding layered_def by blast
qed

lemma expandLayers_sound:
  assumes "expandLayers X n found seen frontier w = (Inr amap, w')" and "still w" and "layered X (w_db w) found seen frontier"
  shows "\<exists>seen'. layered X (w_db w) amap seen' [] \<and> set seen \<union> set frontier \<subseteq> set seen' \<and> w_db w' = w_db w \<and> still w'
     \<and> (answers w \<longrightarrow> answers w')"
  using assms
proof (induction X n found seen frontier w rule: expandLayers.induct)
  case (1 X n found seen frontier w)
  let ?batch = "new_batch seen frontier"
  consider "frontier = []" | "frontier \<noteq> []" "?batch = []" "amap = found" "w' = w"
    | m where "frontier \<noteq> []" "?batch \<noteq> []" "n = Suc m" "length (seen @ ?batch) \<le> maxQueueRecipients"
    using "1.prems"(1) by (subst (asm) expandLayers.simps) (auto simp: Let_def split: if_splits nat.splits)
  then show ?case
  proof cases
    case 1
    then show ?thesis using "1.prems" by (subst (asm) expandLayers.simps) auto
  next
    case 2
    then have "set frontier \<subseteq> set seen" using set_new_batch [of seen frontier] by auto
    then have "layered X (w_db w) amap seen [] \<and> set seen \<union> set frontier \<subseteq> set seen"
      using "1.prems"(3) 2(3) unfolding layered_def by auto (metis UnE subsetD)
    then show ?thesis using "1.prems"(2) 2 by blast
  next
    case 3
    obtain found' nxt w1 where q: "run_query (\<lambda>db. scanRows X (layer_rows X db ?batch) found []) w = (Inr (found', nxt), w1)"
      and rec: "expandLayers X m found' (seen @ ?batch) nxt w1 = (Inr amap, w')"
      using "1.prems"(1) 3 by (subst (asm) expandLayers.simps) (auto simp: Let_def split: sum.splits prod.splits)
    note rq = run_query_still [OF q "1.prems"(2)]
    have "scanRows X (layer_rows X (w_db w) ?batch) found [] = Inr (found', nxt)" using rq(4) by auto
    then have l: "layered X (w_db w1) found' (seen @ ?batch) nxt"
      using layered_step [OF "1.prems"(3)] rq(1) by simp
    from "1.IH" [OF 3(1,3) refl 3(2) _ q [symmetric] refl refl rec rq(2) l] 3(4)
    show ?thesis using rq(1,3) by (auto simp: set_new_batch)
  qed
qed

section \<open>Loading succeeds within the limits\<close>

definition aliases_in :: "external \<Rightarrow> db \<Rightarrow> string set \<Rightarrow> string set" where
  "aliases_in X db R = {a \<in> R. graph_at X db a \<noteq> None}"

lemma node_ok_length: "node_ok X db a \<Longrightarrow> length (address_rows db a) = (if graph_at X db a = None then 0 else 1)"
  by (cases "graph_at X db a") (auto simp: node_ok_def graph_at_Some, auto simp: graph_at_def)

lemma layer_rows_ok:
  assumes "distinct batch" and ok: "\<forall>a\<in>set batch. node_ok X db a"
  shows "row_address ` set (layer_rows X db batch) = aliases_in X db (set batch)"
    and "length (layer_rows X db batch) = card (aliases_in X db (set batch))"
    and "distinct (map row_address (layer_rows X db batch))"
    and "\<forall>row\<in>set (layer_rows X db batch). \<exists>al. scanExpansionAlias X row = Inr al"
proof -
  have at: "row_address ` set (address_rows db a) = (if graph_at X db a = None then {} else {a})
      \<and> (\<forall>row\<in>set (address_rows db a). \<exists>al. scanExpansionAlias X row = Inr al)" if "a \<in> set batch" for a
  proof (cases "graph_at X db a")
    case None
    then show ?thesis using node_ok_length [of X db a] ok that by simp
  next
    case (Some al)
    then obtain row where "address_rows db a = [row]" "scanExpansionAlias X row = Inr al"
      by (auto simp: graph_at_Some)
    then show ?thesis using address_rows_address [of row db a] Some by simp
  qed
  then show img: "row_address ` set (layer_rows X db batch) = aliases_in X db (set batch)"
    by (auto simp: aliases_in_def image_UN split: if_splits)
  show "\<forall>row\<in>set (layer_rows X db batch). \<exists>al. scanExpansionAlias X row = Inr al" using at by auto
  have "length (layer_rows X db batch) = (\<Sum>a\<in>set batch. if graph_at X db a \<noteq> None then 1 else 0)"
    unfolding length_layer_rows sum_list_distinct_conv_sum_set [OF assms(1)]
  proof (rule sum.cong [OF refl])
    fix a assume "a \<in> set batch"
    then have "node_ok X db a" using ok by blast
    from node_ok_length [OF this] show "length (address_rows db a) = (if graph_at X db a \<noteq> None then 1 else 0)"
      by (cases "graph_at X db a") simp_all
  qed
  also have "\<dots> = card (aliases_in X db (set batch))"
    unfolding aliases_in_def card_eq_sum by (rule sum.inter_filter [symmetric]) simp
  finally show len: "length (layer_rows X db batch) = card (aliases_in X db (set batch))" .
  show "distinct (map row_address (layer_rows X db batch))"
    by (rule card_distinct) (simp only: list.set_map length_map img len)
qed

lemma found_aliases:
  assumes "layered X db found seen frontier"
  shows "fst ` set found = aliases_in X db (set seen)" and "length found = card (aliases_in X db (set seen))"
proof -
  have "map_of found a \<noteq> None \<longleftrightarrow> a \<in> aliases_in X db (set seen)" for a
    by (cases "a \<in> set seen") (use assms in \<open>simp_all add: layered_def aliases_in_def\<close>)
  then have "dom (map_of found) = aliases_in X db (set seen)" by (simp only: dom_def) blast
  then show e: "fst ` set found = aliases_in X db (set seen)" by (simp add: dom_map_of_conv_image_fst)
  have "distinct (map fst found)" using assms by (simp add: layered_def)
  then show "length found = card (aliases_in X db (set seen))"
    using distinct_card [of "map fst found"] e by simp
qed

lemma aliases_in_Un: "aliases_in X db (A \<union> B) = aliases_in X db A \<union> aliases_in X db B"
  by (auto simp: aliases_in_def)

lemma finite_aliases_in: "finite R \<Longrightarrow> finite (aliases_in X db R)"
  by (simp add: aliases_in_def)

lemma card_aliases_in: "finite R \<Longrightarrow> A \<subseteq> R \<Longrightarrow> card (aliases_in X db A) \<le> card (aliases_in X db R)"
  by (rule card_mono) (auto simp: aliases_in_def)

lemma layer_scan_succeeds:
  assumes inv: "layered X db found seen frontier" and ok: "\<forall>a\<in>R. node_ok X db a" and "finite R"
    and sub: "set seen \<union> set frontier \<subseteq> R" and few: "card (aliases_in X db R) \<le> maxExpansionAliases"
  shows "\<exists>r. scanRows X (layer_rows X db (new_batch seen frontier)) found [] = Inr r"
proof -
  let ?batch = "new_batch seen frontier"
  have d: "distinct ?batch" by (simp add: new_batch_def)
  have nb: "\<forall>a\<in>set ?batch. node_ok X db a" using ok sub by (auto simp: set_new_batch)
  note lr = layer_rows_ok [OF d nb]
  have disj: "aliases_in X db (set seen) \<inter> aliases_in X db (set ?batch) = {}"
    by (auto simp: aliases_in_def set_new_batch)
  have "length found + length (layer_rows X db ?batch) = card (aliases_in X db (set seen \<union> set ?batch))"
    unfolding found_aliases(2) [OF inv] lr(2) aliases_in_Un
    by (rule card_Un_disjoint [OF _ _ disj, symmetric]) (simp_all add: finite_aliases_in)
  also have "\<dots> \<le> card (aliases_in X db R)"
    using sub by (intro card_aliases_in [OF \<open>finite R\<close>]) (auto simp: set_new_batch)
  finally have "length found + length (layer_rows X db ?batch) \<le> maxExpansionAliases" using few by simp
  moreover have "\<forall>row\<in>set (layer_rows X db ?batch). map_of found (row_address row) = None"
  proof
    fix row assume "row \<in> set (layer_rows X db ?batch)"
    then have "row_address row \<in> set ?batch" using lr(1) by (auto simp: aliases_in_def)
    then show "map_of found (row_address row) = None" using inv by (simp add: layered_def set_new_batch)
  qed
  ultimately show ?thesis by (intro scanRows_succeeds lr(3,4))
qed

definition closed_under :: "external \<Rightarrow> db \<Rightarrow> string set \<Rightarrow> bool" where
  "closed_under X db R \<longleftrightarrow> (\<forall>a\<in>R. \<forall>al. graph_at X db a = Some al \<longrightarrow> set (ea_targets al) \<subseteq> R)"

lemma scan_targets:
  assumes "scanRows X (layer_rows X db batch) found [] = Inr (found', nxt)" and "distinct batch"
    and "\<forall>a\<in>set batch. node_ok X db a" and "closed_under X db R" and "set batch \<subseteq> R"
  shows "set nxt \<subseteq> R" and "nxt \<noteq> [] \<Longrightarrow> length found < length found'"
proof -
  note sc = scanRows_Inr [OF assms(1)]
  show "nxt \<noteq> [] \<Longrightarrow> length found < length found'"
    using sc by (cases "layer_rows X db batch") (auto simp: scanned_def)
  have nx: "set nxt = (\<Union>row\<in>set (layer_rows X db batch).
      \<Union>al\<in>{al. scanExpansionAlias X row = Inr al}. set (ea_targets al))"
    using sc unfolding scanned_def by simp
  show "set nxt \<subseteq> R"
  proof
    fix t assume "t \<in> set nxt"
    then obtain row al where "row \<in> set (layer_rows X db batch)" "scanExpansionAlias X row = Inr al" and t: "t \<in> set (ea_targets al)"
      using nx by blast
    then obtain a where a: "a \<in> set batch" "row \<in> set (address_rows db a)" by auto
    then have "graph_at X db a \<noteq> None" using assms(3) by (metis empty_iff list.set(1) node_ok_def)
    then have "graph_at X db a = Some al"
      using a(2) \<open>scanExpansionAlias X row = Inr al\<close> by (auto simp: graph_at_Some)
    then show "t \<in> R" using assms(4,5) a(1) t unfolding closed_under_def by blast
  qed
qed

lemma expandLayers_succeeds:
  assumes "finite R" and "closed_under X db R" and ok: "\<forall>a\<in>R. node_ok X db a"
    and sz: "card R \<le> maxQueueRecipients" and few: "card (aliases_in X db R) < maxExpansionAliases"
  shows "still w \<Longrightarrow> answers w \<Longrightarrow> db = w_db w \<Longrightarrow> layered X db found seen frontier \<Longrightarrow> distinct seen \<Longrightarrow>
    set seen \<union> set frontier \<subseteq> R \<Longrightarrow> frontier = [] \<or> maxExpansionAliases \<le> n + length found \<Longrightarrow>
    \<exists>amap w'. expandLayers X n found seen frontier w = (Inr amap, w')"
proof (induction n arbitrary: found seen frontier w)
  case 0
  have "length found \<le> card (aliases_in X db R)"
    unfolding found_aliases(2) [OF "0.prems"(4)] using "0.prems"(6) by (intro card_aliases_in [OF \<open>finite R\<close>]) simp
  then show ?case using few "0.prems"(7) by (simp add: expandLayers.simps)
next
  case (Suc n)
  let ?batch = "new_batch seen frontier"
  show ?case
  proof (cases "frontier = [] \<or> ?batch = []")
    case True
    then show ?thesis by (auto simp: expandLayers.simps Let_def)
  next
    case False
    have d: "distinct ?batch" "distinct (seen @ ?batch)" "set (seen @ ?batch) \<subseteq> R"
      using Suc.prems(5,6) by (auto simp: new_batch_def)
    have "length (seen @ ?batch) \<le> maxQueueRecipients"
      using card_mono [OF \<open>finite R\<close> d(3)] distinct_card [OF d(2)] sz by simp
    obtain r w1 where q: "run_query (\<lambda>db. scanRows X (layer_rows X db ?batch) found []) w = (r, w1)" by fastforce
    note rq = run_query_still [OF q Suc.prems(1)]
    obtain found' nxt where sc: "scanRows X (layer_rows X db ?batch) found [] = Inr (found', nxt)"
      using layer_scan_succeeds [OF Suc.prems(4) ok \<open>finite R\<close> Suc.prems(6)] few by fastforce
    have nb: "\<forall>a\<in>set ?batch. node_ok X db a" "set ?batch \<subseteq> R" using ok Suc.prems(6) by (auto simp: set_new_batch)
    note st = scan_targets [OF sc d(1) nb(1) assms(2) nb(2)]
    have "r = Inr (found', nxt)" using rq(5) [OF Suc.prems(2)] sc Suc.prems(3) by simp
    moreover have "\<exists>amap w'. expandLayers X n found' (seen @ ?batch) nxt w1 = (Inr amap, w')"
    proof (rule Suc.IH [OF rq(2) rq(3) [OF Suc.prems(2)] _ layered_step [OF Suc.prems(4) sc] d(2)])
      show "db = w_db w1" using rq(1) Suc.prems(3) by simp
      show "set (seen @ ?batch) \<union> set nxt \<subseteq> R" using d(3) st(1) by simp
      show "nxt = [] \<or> maxExpansionAliases \<le> n + length found'"
        using st(2) Suc.prems(7) False by linarith
    qed
    ultimately show ?thesis
      using False q \<open>length (seen @ ?batch) \<le> maxQueueRecipients\<close> by (auto simp: expandLayers.simps [of X "Suc n"] Let_def)
  qed
qed

section \<open>The loaded graph is the graph of the database\<close>

definition db_leaves :: "external \<Rightarrow> db \<Rightarrow> string \<Rightarrow> string set" where
  "db_leaves X db a = {b \<in> db_reach X db a. address_rows db b = []}"

definition db_sources :: "external \<Rightarrow> db \<Rightarrow> string \<Rightarrow> QueueSource set" where
  "db_sources X db a = {alias_source al | al b. b \<in> db_reach X db a \<and> graph_at X db b = Some al}"

text \<open>Every address reached has at most one row, a valid one, and no address leads back to itself.\<close>

definition well_expanding :: "external \<Rightarrow> db \<Rightarrow> string \<Rightarrow> bool" where
  "well_expanding X db a \<longleftrightarrow>
     (\<forall>b\<in>db_reach X db a. node_ok X db b \<and> \<not> (db_edge X db)\<^sup>+\<^sup>+ b b)"

lemma db_reach_refl [simp]: "a \<in> db_reach X db a"
  by (simp add: db_reach_def)

lemma db_reach_closed: "closed_under X db (db_reach X db a)"
  unfolding closed_under_def db_reach_def by (auto simp: db_edge_def intro: rtranclp.rtrancl_into_rtrancl)

lemma layered_edge:
  assumes "layered X db amap seen []"
  shows "edge amap a b \<longleftrightarrow> a \<in> set seen \<and> db_edge X db a b" and "edge amap a b \<Longrightarrow> b \<in> set seen"
proof -
  show e: "edge amap a b \<longleftrightarrow> a \<in> set seen \<and> db_edge X db a b"
    by (cases "a \<in> set seen") (use assms in \<open>simp_all add: layered_def edge_def db_edge_def\<close>)
  assume "edge amap a b"
  then obtain al where "a \<in> set seen" "graph_at X db a = Some al" "b \<in> set (ea_targets al)"
    using e by (auto simp: db_edge_def)
  then show "b \<in> set seen" using assms unfolding layered_def by (metis Un_empty_right list.set(1) subsetD)
qed

lemma layered_rtrancl:
  assumes inv: "layered X db amap seen []" and a: "a \<in> set seen"
  shows "(db_edge X db)\<^sup>*\<^sup>* a b \<longleftrightarrow> (edge amap)\<^sup>*\<^sup>* a b" and "(db_edge X db)\<^sup>*\<^sup>* a b \<Longrightarrow> b \<in> set seen"
proof -
  have "(edge amap)\<^sup>*\<^sup>* a b \<and> b \<in> set seen" if "(db_edge X db)\<^sup>*\<^sup>* a b" for b
    using that
  proof induction
    case (step b c)
    then have "edge amap b c" using layered_edge(1) [OF inv] by blast
    then show ?case using step layered_edge(2) [OF inv] by (meson rtranclp.rtrancl_into_rtrancl)
  qed (use a in simp)
  moreover have "(db_edge X db)\<^sup>*\<^sup>* a b" if "(edge amap)\<^sup>*\<^sup>* a b" for b
    using that by (rule rtranclp_mono [THEN predicate2D, rotated]) (auto simp: layered_edge(1) [OF inv])
  ultimately show "(db_edge X db)\<^sup>*\<^sup>* a b \<longleftrightarrow> (edge amap)\<^sup>*\<^sup>* a b" and "(db_edge X db)\<^sup>*\<^sup>* a b \<Longrightarrow> b \<in> set seen"
    by blast+
qed

lemma layered_trancl:
  assumes "layered X db amap seen []" and "b \<in> set seen"
  shows "(db_edge X db)\<^sup>+\<^sup>+ b b \<longleftrightarrow> (edge amap)\<^sup>+\<^sup>+ b b"
proof -
  have "(db_edge X db)\<^sup>+\<^sup>+ b b \<longleftrightarrow> (\<exists>c. db_edge X db b c \<and> (db_edge X db)\<^sup>*\<^sup>* c b)"
    by (meson rtranclp_into_tranclp2 tranclpD)
  also have "\<dots> \<longleftrightarrow> (\<exists>c. edge amap b c \<and> (edge amap)\<^sup>*\<^sup>* c b)"
    using layered_edge [OF assms(1)] layered_rtrancl(1) [OF assms(1)] assms(2) by blast
  also have "\<dots> \<longleftrightarrow> (edge amap)\<^sup>+\<^sup>+ b b" by (meson rtranclp_into_tranclp2 tranclpD)
  finally show ?thesis .
qed

lemma layered_graph:
  assumes inv: "layered X db amap seen []" and a: "a \<in> set seen"
  shows "reach amap a = db_reach X db a" and "leaves_of amap a = db_leaves X db a"
    and "sources_of amap a = db_sources X db a" and "acyclic_from amap a \<longleftrightarrow> well_expanding X db a"
proof -
  note rt = layered_rtrancl [OF inv a]
  show r: "reach amap a = db_reach X db a" by (simp add: reach_def db_reach_def rt(1))
  have seen: "db_reach X db a \<subseteq> set seen" using rt(2) by (auto simp: db_reach_def)
  have at: "map_of amap b = graph_at X db b" "node_ok X db b" if "b \<in> db_reach X db a" for b
    using inv seen that by (auto simp: layered_def)
  have nodes: "map_of amap b = None \<longleftrightarrow> address_rows db b = []" if "b \<in> db_reach X db a" for b
    using at [OF that] by (cases "address_rows db b") (auto simp: node_ok_def graph_at_Some, simp add: graph_at_def)
  show "leaves_of amap a = db_leaves X db a"
    unfolding leaves_of_def db_leaves_def r using nodes by blast
  show "sources_of amap a = db_sources X db a"
    unfolding sources_of_def db_sources_def r using at(1) by force
  show "acyclic_from amap a \<longleftrightarrow> well_expanding X db a"
    unfolding acyclic_from_def well_expanding_def r using at(2) layered_trancl [OF inv] seen by blast
qed

lemma layered_kinds: "layered X db amap seen frontier \<Longrightarrow> kinds_ok amap"
proof -
  assume inv: "layered X db amap seen frontier"
  have "validSourceKind (ea_kind al)" if "map_of amap a = Some al" for a al
  proof -
    have "a \<in> set seen" using inv that by (auto simp: layered_def)
    then have "graph_at X db a = Some al" using inv that by (simp add: layered_def)
    then show ?thesis by (rule graph_at_kind)
  qed
  then show ?thesis by (auto simp: kinds_ok_def ran_def)
qed

lemma layered_empty: "layered X db [] [] frontier"
  by (simp add: layered_def)

lemma loadExpansionAliases_sound:
  assumes "loadExpansionAliases X originals w = (Inr amap, w')" and "still w"
  obtains seen where "layered X (w_db w) amap seen []" and "set originals \<subseteq> set seen" and "w_db w' = w_db w"
  using expandLayers_sound [OF assms(1) [unfolded loadExpansionAliases_def] assms(2) layered_empty] by auto

section \<open>Bounds\<close>

lemma foldR_invariant:
  assumes "\<And>t st st'. P st \<Longrightarrow> f t st = Inr st' \<Longrightarrow> P st'" and "P st" and "foldR f ts st = Inr st'"
  shows "P st'"
  using assms(2,3) by (induction ts arbitrary: st) (auto dest: assms(1) split: sum.splits)

lemma walk_leaf_bound:
  "length (fst st) \<le> maxQueueRecipients \<Longrightarrow> walkExpansionGraph n amap a active st = Inr st' \<Longrightarrow>
   length (fst st') \<le> maxQueueRecipients"
proof (induction n arbitrary: a active st st')
  case 0
  then show ?case by (auto simp: walkLeaf_def Let_def split: option.splits if_splits)
next
  case (Suc n)
  show ?case
  proof (cases "map_of amap a")
    case None
    then show ?thesis using Suc.prems by (auto simp: walkLeaf_def Let_def split: if_splits)
  next
    case (Some al)
    then obtain srcs where f: "foldR (\<lambda>t. walkExpansionGraph n amap t (a # active)) (ea_targets al) (fst st, srcs) = Inr st'"
      using Suc.prems(2) by (auto simp: Let_def split: if_splits)
    show ?thesis
      by (rule foldR_invariant [where P = "\<lambda>st. length (fst st) \<le> maxQueueRecipients", OF _ _ f])
        (use Suc in auto)
  qed
qed

lemma sources_bound:
  assumes "layered X db amap seen []" and "distinct ss" and "set ss = sources_of amap a"
  shows "length ss \<le> maxQueueSources"
proof -
  have "set ss \<subseteq> (alias_source \<circ> snd) ` set amap"
    using assms(3) by (force simp: sources_of_def dest: map_of_SomeD)
  then have "card (set ss) \<le> card (set amap)"
    by (meson List.finite_set card_image_le card_mono dual_order.trans finite_imageI)
  also have "\<dots> \<le> length amap" by (rule card_length)
  also have "\<dots> \<le> maxQueueSources" using assms(1) by (simp add: layered_def maxExpansionAliases_def)
  finally show ?thesis using distinct_card [OF assms(2)] by simp
qed

lemma scan_targets_of:
  "scanExpansionAlias X (r, addr, d) = Inr al \<Longrightarrow>
   \<exists>ts ps. al_targets r = Some ts \<and> mapR (normalizeQueueRecipient X) ts = Inr ps \<and> ea_targets al = map fst ps"
  by (auto simp: scanExpansionAlias_def Let_def split: if_splits option.splits sum.splits)

lemma finite_db_reach: "finite (db_reach X db a)"
proof -
  let ?T = "\<Union>r\<in>set (aliases db). case al_targets r of None \<Rightarrow> {}
      | Some ts \<Rightarrow> (\<lambda>t. case normalizeQueueRecipient X t of Inl _ \<Rightarrow> [] | Inr p \<Rightarrow> fst p) ` set ts"
  have fin: "finite ?T" by (auto split: option.splits)
  have sc: "set (ea_targets al) \<subseteq> ?T" if g: "graph_at X db b = Some al" for b al
  proof -
    obtain r addr d where row: "address_rows db b = [(r, addr, d)]" and s: "scanExpansionAlias X (r, addr, d) = Inr al"
      using g by (metis graph_at_Some prod_cases3)
    have "(r, addr, d) \<in> set (address_rows db b)" unfolding row by simp
    then have r: "r \<in> set (aliases db)" by (auto simp: address_rows_def)
    obtain ts ps where ts: "al_targets r = Some ts" and ps: "mapR (normalizeQueueRecipient X) ts = Inr ps"
      and al: "ea_targets al = map fst ps"
      using scan_targets_of [OF s] by blast
    have "fst p \<in> (\<lambda>t. case normalizeQueueRecipient X t of Inl _ \<Rightarrow> [] | Inr p \<Rightarrow> fst p) ` set ts" if "p \<in> set ps" for p
    proof -
      have "Inr p \<in> normalizeQueueRecipient X ` set ts" using ps that by (metis image_eqI list.set_map mapR_Inr)
      then obtain t where "t \<in> set ts" "normalizeQueueRecipient X t = Inr p" by (metis imageE)
      then show ?thesis by (intro image_eqI [of _ _ t]) simp_all
    qed
    then have "set (map fst ps) \<subseteq> (\<lambda>t. case normalizeQueueRecipient X t of Inl _ \<Rightarrow> [] | Inr p \<Rightarrow> fst p) ` set ts"
      by auto
    then show ?thesis using r ts al by force
  qed
  have "db_reach X db a \<subseteq> insert a ?T"
  proof
    fix b assume "b \<in> db_reach X db a"
    then have "(db_edge X db)\<^sup>*\<^sup>* a b" by (simp add: db_reach_def)
    then show "b \<in> insert a ?T"
    proof (cases rule: rtranclp.cases)
      case (rtrancl_into_rtrancl c)
      then obtain al where "graph_at X db c = Some al" "b \<in> set (ea_targets al)" by (auto simp: db_edge_def)
      then show ?thesis using sc by blast
    qed simp
  qed
  then show ?thesis using fin finite_subset by blast
qed

section \<open>Proving deliveries\<close>

text \<open>What a list of sources is as a map: distinct keys, each the key of its source.\<close>

definition source_map :: "(string \<times> QueueSource) list \<Rightarrow> bool" where
  "source_map m \<longleftrightarrow> keyed source_key m \<and> (\<forall>s\<in>snd ` set m. validSourceKind (src_kind s))"

lemma source_map_insert:
  assumes "source_map m" and "validSourceKind (src_kind s)"
  shows "source_map (AList.update (source_key s) s m)"
    and "snd ` set (AList.update (source_key s) s m) = insert s (snd ` set m)"
  using add_source [of "[]" m s] assms by (auto simp: walk_ok_def source_map_def)

lemma mergeSources_Inr:
  "mergeSources srcs acc = Inr acc' \<Longrightarrow> source_map srcs \<Longrightarrow> source_map acc \<Longrightarrow> length acc \<le> maxQueueSources \<Longrightarrow>
   source_map acc' \<and> snd ` set acc' = snd ` set acc \<union> snd ` set srcs \<and> length acc' \<le> maxQueueSources"
proof (induction srcs acc rule: mergeSources.induct)
  case (2 k s rest acc)
  have k: "k = source_key s" and v: "validSourceKind (src_kind s)" and rest: "source_map rest"
    using "2.prems"(2) by (auto simp: source_map_def keyed_def)
  note ins = source_map_insert [OF "2.prems"(3) v]
  have len: "length (AList.update k s acc) \<le> maxQueueSources"
    and rec: "mergeSources rest (AList.update k s acc) = Inr acc'"
    using "2.prems"(1) by (auto simp: Let_def split: if_splits)
  from "2.IH" [OF refl _ rec rest _ len] len k ins
  show ?case by auto
qed simp

lemma walkFrom_source_map:
  assumes "kinds_ok amap" and "walkFrom amap a = Inr (ls, srcs)"
  shows "source_map srcs"
  using walk_sound [OF assms(1) walk_ok_empty] assms(2) by (auto simp: walkFrom_def walk_adds_def walk_ok_def source_map_def)

text \<open>The deliveries that are not to the original itself.\<close>

definition expanded :: "QueueDelivery list \<Rightarrow> QueueDelivery set" where
  "expanded ds = {d \<in> set ds. dl_original d \<noteq> dl_recipient d}"

lemma proveDeliveries_Inr:
  assumes "kinds_ok amap"
  shows "proveDeliveries amap ds acc = Inr srcs \<Longrightarrow> source_map acc \<Longrightarrow> length acc \<le> maxQueueSources \<Longrightarrow>
    source_map srcs \<and> snd ` set srcs = snd ` set acc \<union> (\<Union>d\<in>expanded ds. sources_of amap (dl_original d))
    \<and> length srcs \<le> maxQueueSources
    \<and> (\<forall>d\<in>expanded ds. acyclic_from amap (dl_original d) \<and> dl_recipient d \<in> leaves_of amap (dl_original d))"
proof (induction ds arbitrary: acc)
  case (Cons d ds)
  show ?case
  proof (cases "dl_original d = dl_recipient d")
    case True
    then have "expanded (d # ds) = expanded ds" by (auto simp: expanded_def)
    then show ?thesis using Cons True by simp
  next
    case False
    have ex: "expanded (d # ds) = insert d (expanded ds)" using False by (auto simp: expanded_def)
    obtain ls reached acc' where w: "walkFrom amap (dl_original d) = Inr (ls, reached)" and l: "dl_recipient d \<in> set ls"
      and m: "mergeSources reached acc = Inr acc'" and rec: "proveDeliveries amap ds acc' = Inr srcs"
      using Cons.prems(1) False by (auto split: sum.splits prod.splits if_splits)
    note ws = walkFrom_sound [OF assms w]
    have acc': "source_map acc' \<and> snd ` set acc' = snd ` set acc \<union> snd ` set reached \<and> length acc' \<le> maxQueueSources"
      by (rule mergeSources_Inr [OF m walkFrom_source_map [OF assms w] Cons.prems(2,3)])
    from Cons.IH [OF rec] acc' ws l show ?thesis unfolding ex by auto
  qed
qed (auto simp: expanded_def)

lemma canonicalDelivery_Inr:
  "canonicalDelivery X d = Inr c \<longleftrightarrow>
     (\<exists>od rd. normalizeQueueRecipient X (dl_original d) = Inr (dl_original c, od)
            \<and> normalizeQueueRecipient X (dl_recipient d) = Inr (dl_recipient c, rd))"
  by (cases c) (auto simp: canonicalDelivery_def split: sum.splits prod.splits)

section \<open>Properties\<close>

lemma expandOriginal_Inr:
  assumes "still w" and "expandOriginal X raw w = (Inr (rcpts, srcs), w')"
  shows "\<exists>original domain. normalizeQueueRecipient X raw = Inr (original, domain)
     \<and> well_expanding X (w_db w) original
     \<and> sorted rcpts \<and> distinct rcpts \<and> set rcpts = db_leaves X (w_db w) original \<and> length rcpts \<le> maxQueueRecipients
     \<and> distinct srcs \<and> set srcs = db_sources X (w_db w) original \<and> length srcs \<le> maxQueueSources"
proof -
  obtain original domain amap w1 ls reached where n: "normalizeQueueRecipient X raw = Inr (original, domain)"
    and l: "loadExpansionAliases X [original] w = (Inr amap, w1)" and wf: "walkFrom amap original = Inr (ls, reached)"
    and r: "rcpts = sort ls" "srcs = sort_key src_object (map snd reached)"
    using assms(2) by (auto simp: expandOriginal_def split: sum.splits prod.splits)
  obtain seen where inv: "layered X (w_db w) amap seen []" and o: "original \<in> set seen"
    using loadExpansionAliases_sound [OF l assms(1)] by auto
  note ws = walkFrom_sound [OF layered_kinds [OF inv] wf]
  note g = layered_graph [OF inv o]
  have "length ls \<le> maxQueueRecipients"
    using walk_leaf_bound [of "([], [])"] wf by (force simp: walkFrom_def)
  moreover have "length srcs \<le> maxQueueSources"
    using sources_bound [OF inv ws(4,5)] r by simp
  ultimately show ?thesis using n r ws g by (auto simp: distinct_map)
qed

text \<open>C19: what \<open>expandOriginal\<close> returns for a recipient are exactly the addresses without an alias that the
  database's alias graph reaches from it, and exactly the alias objects on the way, while no other
  session changes the database. Every address reached has one valid row at most, none leads back to itself, and the results
  are within the limits of the queue tables.\<close>

theorem expandOriginal_sound:
  assumes "still w" and "expandOriginal X raw w = (Inr (rcpts, srcs), w')"
  shows "\<exists>original domain. normalizeQueueRecipient X raw = Inr (original, domain)
     \<and> well_expanding X (w_db w) original
     \<and> sorted rcpts \<and> distinct rcpts \<and> set rcpts = db_leaves X (w_db w) original \<and> length rcpts \<le> maxQueueRecipients
     \<and> distinct srcs \<and> set srcs = db_sources X (w_db w) original \<and> length srcs \<le> maxQueueSources"
  using assms by (rule expandOriginal_Inr)

lemma expandOriginal_complete:
  assumes "still w" and "answers w" and "normalizeQueueRecipient X raw = Inr (original, domain)"
    and "well_expanding X (w_db w) original"
    and "card (db_reach X (w_db w) original) \<le> maxQueueRecipients"
    and "card {a \<in> db_reach X (w_db w) original. graph_at X (w_db w) a \<noteq> None} < maxExpansionAliases"
  shows "\<exists>r w'. expandOriginal X raw w = (Inr r, w')"
proof -
  let ?R = "db_reach X (w_db w) original"
  have ok: "\<forall>a\<in>?R. node_ok X (w_db w) a" using assms(4) by (simp add: well_expanding_def)
  obtain amap w1 where l: "loadExpansionAliases X [original] w = (Inr amap, w1)"
    using expandLayers_succeeds [OF finite_db_reach db_reach_closed ok assms(5) assms(6) [folded aliases_in_def]
        assms(1,2) refl layered_empty, of "[original]" maxQueueSources]
    by (auto simp: loadExpansionAliases_def maxExpansionAliases_def)
  obtain seen where inv: "layered X (w_db w) amap seen []" and o: "original \<in> set seen"
    using loadExpansionAliases_sound [OF l assms(1)] by auto
  note g = layered_graph [OF inv o]
  have "db_leaves X (w_db w) original \<subseteq> ?R" by (auto simp: db_leaves_def)
  then have lv: "card (leaves_of amap original) \<le> maxQueueRecipients"
    using g(2) card_mono [OF finite_db_reach] assms(5) by (metis order_trans)
  have "length amap \<le> maxExpansionAliases" "acyclic_from amap original"
    using inv g(4) assms(4) by (simp_all add: layered_def)
  then obtain st where "walkFrom amap original = Inr st"
    using walkFrom_complete [OF layered_kinds [OF inv] _ _ lv] by blast
  then show ?thesis using assms(3) l by (cases st) (simp add: expandOriginal_def)
qed

text \<open>C20: \<open>expandOriginal\<close> succeeds for every recipient whose graph is acyclic and valid, with fewer than 64
  aliases and at most 10000 addresses, when the database answers.\<close>

theorem expandOriginal_succeeds:
  assumes "still w" and "answers w" and "normalizeQueueRecipient X raw = Inr (original, domain)"
    and "well_expanding X (w_db w) original"
    and "card (db_reach X (w_db w) original) \<le> maxQueueRecipients"
    and "card {a \<in> db_reach X (w_db w) original. graph_at X (w_db w) a \<noteq> None} < maxExpansionAliases"
  shows "\<exists>r w'. expandOriginal X raw w = (Inr r, w')"
  using assms by (rule expandOriginal_complete)

lemma resolveExpansionDeliveries_Inr:
  assumes "still w" and "resolveExpansionDeliveries X deliveries w = (Inr srcs, w')"
  shows "\<exists>canonical. mapR (canonicalDelivery X) deliveries = Inr canonical
     \<and> (\<forall>d\<in>set canonical. dl_original d \<noteq> dl_recipient d \<longrightarrow>
          well_expanding X (w_db w) (dl_original d) \<and> dl_recipient d \<in> db_leaves X (w_db w) (dl_original d))
     \<and> set srcs = (\<Union>d\<in>{d \<in> set canonical. dl_original d \<noteq> dl_recipient d}. db_sources X (w_db w) (dl_original d))
     \<and> length srcs \<le> maxQueueSources"
proof -
  obtain canonical amap w1 acc where c: "mapR (canonicalDelivery X) deliveries = Inr canonical"
    and l: "loadExpansionAliases X (map dl_original canonical) w = (Inr amap, w1)"
    and p: "proveDeliveries amap canonical [] = Inr acc" and s: "srcs = sort_key src_object (map snd acc)"
    using assms(2) by (auto simp: resolveExpansionDeliveries_def split: sum.splits prod.splits)
  obtain seen where inv: "layered X (w_db w) amap seen []" and o: "dl_original ` set canonical \<subseteq> set seen"
    using loadExpansionAliases_sound [OF l assms(1)] by (metis list.set_map)
  have "source_map []" by (simp add: source_map_def keyed_def)
  note pd = proveDeliveries_Inr [OF layered_kinds [OF inv] p this]
  have g: "leaves_of amap (dl_original d) = db_leaves X (w_db w) (dl_original d)"
    "sources_of amap (dl_original d) = db_sources X (w_db w) (dl_original d)"
    "acyclic_from amap (dl_original d) \<longleftrightarrow> well_expanding X (w_db w) (dl_original d)" if "d \<in> set canonical" for d
    using layered_graph [OF inv] o that by blast+
  have "set srcs = (\<Union>d\<in>expanded canonical. sources_of amap (dl_original d))" using pd s by simp
  also have "\<dots> = (\<Union>d\<in>expanded canonical. db_sources X (w_db w) (dl_original d))"
    using g(2) by (auto simp: expanded_def)
  finally have "set srcs = (\<Union>d\<in>expanded canonical. db_sources X (w_db w) (dl_original d))" .
  moreover have "\<forall>d\<in>expanded canonical. well_expanding X (w_db w) (dl_original d)
      \<and> dl_recipient d \<in> db_leaves X (w_db w) (dl_original d)"
    using pd g by (auto simp: expanded_def)
  moreover have "length srcs \<le> maxQueueSources" using pd s by simp
  ultimately show ?thesis using c by (auto simp: expanded_def)
qed



text \<open>The set of normalised recipients of a list, if there are neither too few nor too many and all are valid.\<close>

definition recipient_set :: "external \<Rightarrow> string list \<Rightarrow> string set option" where
  "recipient_set X raw =
     (if raw \<noteq> [] \<and> length raw \<le> 10000 \<and> list_all (\<lambda>r. \<not> isl (normalizeQueueRecipient X r)) raw
      then Some ((\<lambda>r. fst (projr (normalizeQueueRecipient X r))) ` set raw)
      else None)"

lemma mapR_total: "mapR f xs = (if list_all (\<lambda>x. \<not> isl (f x)) xs then Inr (map (\<lambda>x. projr (f x)) xs) else mapR f xs)"
  by (induction xs) (auto split: sum.splits)

lemma mapR_partial: "\<not> list_all (\<lambda>x. \<not> isl (f x)) xs \<Longrightarrow> \<exists>e. mapR f xs = Inl e"
  by (induction xs) (auto split: sum.splits)

lemma canonicalQueueRecipients_set:
  "(case canonicalQueueRecipients X raw of Inl _ \<Rightarrow> None | Inr rs \<Rightarrow> Some (set rs)) = recipient_set X raw"
proof (cases "list_all (\<lambda>r. \<not> isl (normalizeQueueRecipient X r)) raw")
  case True
  then have "mapR (normalizeQueueRecipient X) raw = Inr (map (\<lambda>r. projr (normalizeQueueRecipient X r)) raw)"
    by (subst mapR_total) simp
  with True show ?thesis
    by (auto simp: canonicalQueueRecipients_def recipient_set_def maxQueueRecipients_def sorted_set_def image_image)
next
  case False
  with mapR_partial [OF this] show ?thesis
    by (auto simp: canonicalQueueRecipients_def recipient_set_def)
qed

lemma zip_neq: "length xs = length ys \<Longrightarrow> list_ex (\<lambda>(g, v). g \<noteq> v) (zip xs ys) \<longleftrightarrow> xs \<noteq> ys"
  by (induction xs ys rule: list_induct2) auto

lemma validateQueueDeliveries_iff:
  "validateQueueDeliveries X rcpts deliveries = None \<longleftrightarrow>
     recipient_set X rcpts \<noteq> None \<and> recipient_set X (map dl_recipient deliveries) = recipient_set X rcpts"
proof (cases "canonicalQueueRecipients X rcpts")
  case (Inl e)
  then have "recipient_set X rcpts = None" by (simp flip: canonicalQueueRecipients_set)
  then show ?thesis using Inl by (simp add: validateQueueDeliveries_def)
next
  case want: (Inr want)
  then have w: "recipient_set X rcpts = Some (set want)" by (simp flip: canonicalQueueRecipients_set)
  show ?thesis
  proof (cases "canonicalQueueRecipients X (map dl_recipient deliveries)")
    case (Inl e)
    then have "recipient_set X (map dl_recipient deliveries) = None" by (simp flip: canonicalQueueRecipients_set)
    then show ?thesis using want w Inl by (simp add: validateQueueDeliveries_def)
  next
    case (Inr got)
    then have g: "recipient_set X (map dl_recipient deliveries) = Some (set got)" by (simp flip: canonicalQueueRecipients_set)
    have sd: "sorted rs \<and> distinct rs" if "canonicalQueueRecipients X raw = Inr rs" for raw rs
      using that by (auto simp: canonicalQueueRecipients_def sorted_set_def split: if_splits sum.splits)
    have "got = want \<longleftrightarrow> set got = set want"
      using sd [OF want] sd [OF Inr] sorted_distinct_set_unique by blast
    then show ?thesis using want w Inr g zip_neq [of got want] by (auto simp: validateQueueDeliveries_def)
  qed
qed

text \<open>the delivery request covers the inspected queue exactly: \<open>validateQueueDeliveries\<close> accepts iff both
  lists are within the limits, all their addresses are valid, and the final recipients are the same set as the
  inspected ones after normalisation.\<close>

theorem validateQueueDeliveries_correct:
  "validateQueueDeliveries X rcpts deliveries = None \<longleftrightarrow>
     recipient_set X rcpts \<noteq> None \<and> recipient_set X (map dl_recipient deliveries) = recipient_set X rcpts"
  by (rule validateQueueDeliveries_iff)

section \<open>The cost of the walk\<close>

text \<open>The walk with the number of calls of \<open>walkExpansionGraph\<close> it makes.\<close>

fun foldC :: "('a \<Rightarrow> 's \<Rightarrow> 's result \<times> nat) \<Rightarrow> 'a list \<Rightarrow> 's \<Rightarrow> 's result \<times> nat" where
  "foldC f [] st = (Inr st, 0)"
| "foldC f (x # xs) st =
     (case f x st of
        (Inl e, c) \<Rightarrow> (Inl e, c)
      | (Inr st', c) \<Rightarrow> (case foldC f xs st' of (r, c') \<Rightarrow> (r, c + c')))"

primrec walkCount :: "nat \<Rightarrow> alias_map \<Rightarrow> string \<Rightarrow> string list \<Rightarrow> walk_state \<Rightarrow> walk_state result \<times> nat" where
  "walkCount 0 amap current active st = (walkExpansionGraph 0 amap current active st, 1)"
| "walkCount (Suc depthLeft) amap current active st =
     (case map_of amap current of
        None \<Rightarrow> (walkLeaf current st, 1)
      | Some alias \<Rightarrow>
          if current \<in> set active then (Inl (Err ''outbound alias expansion cycle''), 1)
          else
            let srcs = AList.update (source_key (alias_source alias)) (alias_source alias) (snd st) in
            if length srcs > maxQueueSources then (Inl (Err ''outbound alias source limit exceeded''), 1)
            else case foldC (\<lambda>t. walkCount depthLeft amap t (current # active)) (ea_targets alias) (fst st, srcs) of
              (r, c) \<Rightarrow> (r, Suc c))"

lemma fst_foldC: "(\<And>x st. fst (f x st) = g x st) \<Longrightarrow> fst (foldC f xs st) = foldR g xs st"
proof (induction xs arbitrary: st)
  case (Cons x xs)
  obtain r c where fx: "f x st = (r, c)" by fastforce
  then have "g x st = r" using Cons.prems [of x st] by simp
  then show ?case using Cons fx by (cases r) (simp_all add: case_prod_beta)
qed simp

lemma fst_walkCount: "fst (walkCount n amap a active st) = walkExpansionGraph n amap a active st"
proof (induction n arbitrary: a active st)
  case (Suc n)
  show ?case
    using fst_foldC [of "\<lambda>t. walkCount n amap t (a # active)" "\<lambda>t. walkExpansionGraph n amap t (a # active)"] Suc
    by (simp add: Let_def case_prod_beta split: option.split)
qed simp

definition hop :: "nat \<Rightarrow> string" where
  "hop i = replicate (Suc i) CHR ''a'' @ ''@x.io''"

text \<open>A chain of aliases, each with the next address as its target twice.\<close>

definition doubling :: "nat \<Rightarrow> alias_map" where
  "doubling n = map (\<lambda>i. (hop i, \<lparr>ea_id = hop i, ea_address = hop i, ea_targets = [hop (Suc i), hop (Suc i)],
                                 ea_kind = SourceList\<rparr>)) [0..<n]"

lemma hop_inj: "hop i = hop j \<longleftrightarrow> i = j"
proof
  assume "hop i = hop j"
  then have "length (hop i) = length (hop j)" by simp
  then show "i = j" by (simp add: hop_def)
qed simp

lemma doubling_at: "map_of (doubling n) (hop i) =
  (if i < n then Some \<lparr>ea_id = hop i, ea_address = hop i, ea_targets = [hop (Suc i), hop (Suc i)], ea_kind = SourceList\<rparr>
   else None)"
proof -
  have "map_of (map (\<lambda>i. (hop i, f i)) is) (hop i) = (if i \<in> set is then Some (f i) else None)" for f :: "nat \<Rightarrow> expansionAlias" and "is"
    by (induction "is") (auto simp: hop_inj)
  then show ?thesis by (simp add: doubling_def)
qed


primrec calls :: "nat \<Rightarrow> alias_map \<Rightarrow> string \<Rightarrow> nat" where
  "calls 0 amap a = 1"
| "calls (Suc n) amap a =
     (case map_of amap a of None \<Rightarrow> 1 | Some al \<Rightarrow> Suc (sum_list (map (calls n amap) (ea_targets al))))"

lemma foldC_calls:
  assumes "\<And>t st st' c. f t st = (Inr st', c) \<Longrightarrow> c = k t" and "foldC f ts st = (Inr st', c)"
  shows "c = sum_list (map k ts)"
  using assms(2)
proof (induction ts arbitrary: st c)
  case (Cons t ts)
  then obtain st1 c1 c2 where "f t st = (Inr st1, c1)" "foldC f ts st1 = (Inr st', c2)" "c = c1 + c2"
    by (auto split: sum.splits prod.splits)
  then show ?case using assms(1) Cons.IH by auto
qed simp

lemma walkCount_calls: "walkCount n amap a active st = (Inr st', c) \<Longrightarrow> c = calls n amap a"
proof (induction n arbitrary: a active st st' c)
  case (Suc n)
  show ?case
  proof (cases "map_of amap a")
    case (Some al)
    then obtain srcs c' where f: "foldC (\<lambda>t. walkCount n amap t (a # active)) (ea_targets al) (fst st, srcs) = (Inr st', c')"
      and c: "c = Suc c'"
      using Suc.prems by (auto simp: Let_def split: if_splits prod.splits)
    have "c' = sum_list (map (calls n amap) (ea_targets al))" by (rule foldC_calls [OF Suc.IH f])
    then show ?thesis using c Some by simp
  qed (use Suc.prems in simp)
qed simp

lemma calls_doubling: "n - i \<le> d \<Longrightarrow> calls d (doubling n) (hop i) = 2 ^ Suc (n - i) - 1"
proof (induction d arbitrary: i)
  case (Suc d)
  show ?case
  proof (cases "i < n")
    case True
    then have "calls d (doubling n) (hop (Suc i)) = 2 ^ (n - i) - 1"
      using Suc.IH [of "Suc i"] Suc.prems by (simp add: Suc_diff_Suc)
    moreover obtain k :: nat where "2 ^ (n - i) = Suc k" by (metis Suc_pred zero_less_numeral zero_less_power)
    ultimately show ?thesis using True by (simp add: doubling_at)
  qed (simp add: doubling_at)
qed simp

lemma doubling_edge: "edge (doubling n) a b \<Longrightarrow> \<exists>i<n. a = hop i \<and> b = hop (Suc i)"
  by (auto simp: edge_def doubling_def hop_inj dest!: map_of_SomeD)

lemma doubling_reach: "b \<in> reach (doubling n) (hop 0) \<Longrightarrow> \<exists>i\<le>n. b = hop i"
proof -
  assume "b \<in> reach (doubling n) (hop 0)"
  then have "(edge (doubling n))\<^sup>*\<^sup>* (hop 0) b" by (simp add: reach_def)
  then show ?thesis
  proof induction
    case (step b c)
    then show ?case using doubling_edge [of n b c] by (auto simp: hop_inj)
  qed auto
qed

lemma doubling_ok:
  "kinds_ok (doubling n)" "length (doubling n) = n" "acyclic_from (doubling n) (hop 0)" "leaves_of (doubling n) (hop 0) = {hop n}"
proof -
  show "kinds_ok (doubling n)"
    by (auto simp: kinds_ok_def ran_def doubling_def validSourceKind_def dest!: map_of_SomeD)
  show "length (doubling n) = n" by (simp add: doubling_def)
  have "length a < length b" if "(edge (doubling n))\<^sup>+\<^sup>+ a b" for a b
    using that
  proof induction
    case (base b)
    then show ?case using doubling_edge [of n a b] by (auto simp: hop_def)
  next
    case (step b c)
    then show ?case using doubling_edge [of n b c] by (auto simp: hop_def)
  qed
  then show "acyclic_from (doubling n) (hop 0)" by (force simp: acyclic_from_def)
  have "i \<le> n \<Longrightarrow> (edge (doubling n))\<^sup>*\<^sup>* (hop 0) (hop i)" for i
    by (induction i) (auto simp: edge_def doubling_at intro: rtranclp.rtrancl_into_rtrancl)
  then have "hop n \<in> leaves_of (doubling n) (hop 0)" by (simp add: leaves_of_def reach_def doubling_at)
  moreover have "b = hop n" if l: "b \<in> leaves_of (doubling n) (hop 0)" for b
  proof -
    obtain i where "i \<le> n" "b = hop i" using l doubling_reach [of b n] by (auto simp: leaves_of_def)
    then show ?thesis using l by (auto simp: leaves_of_def doubling_at split: if_splits)
  qed
  ultimately show "leaves_of (doubling n) (hop 0) = {hop n}" by blast
qed

text \<open>C37: on a chain of \<open>n\<close> aliases that each list the next address twice the walk succeeds, and makes
  \<open>2 ^ (n + 1) - 1\<close> calls, although there are only \<open>n\<close> aliases with two targets each.\<close>

theorem walk_exponential:
  assumes "n \<le> 63"
  shows "\<exists>st. walkCount maxQueueSources (doubling n) (hop 0) [] ([], []) = (Inr st, 2 ^ Suc n - 1)
     \<and> walkExpansionGraph maxQueueSources (doubling n) (hop 0) [] ([], []) = Inr st \<and> fst st = [hop n]"
proof -
  have "card (leaves_of (doubling n) (hop 0)) \<le> maxQueueRecipients"
    by (simp add: doubling_ok(4) maxQueueRecipients_def)
  moreover have "length (doubling n) \<le> maxExpansionAliases"
    using assms by (simp add: doubling_ok(2) maxExpansionAliases_def maxQueueSources_def)
  ultimately obtain ls srcs where w: "walkFrom (doubling n) (hop 0) = Inr (ls, srcs)"
    using walkFrom_complete [OF doubling_ok(1) _ doubling_ok(3)] by fastforce
  note ws = walkFrom_sound [OF doubling_ok(1) w]
  have walk: "walkExpansionGraph maxQueueSources (doubling n) (hop 0) [] ([], []) = Inr (ls, srcs)"
    using w by (simp add: walkFrom_def)
  then obtain c where c: "walkCount maxQueueSources (doubling n) (hop 0) [] ([], []) = (Inr (ls, srcs), c)"
    using fst_walkCount [of maxQueueSources "doubling n" "hop 0" "[]" "([], [])"] by (metis prod.collapse)
  have "c = 2 ^ Suc n - 1"
    using walkCount_calls [OF c] calls_doubling [of n 0 maxQueueSources] assms by (simp add: maxQueueSources_def)
  moreover have "ls = [hop n]"
  proof -
    have set: "set ls = {hop n}" using ws(3) doubling_ok(4) [of n] by simp
    then have "length ls = 1" using distinct_card [OF ws(2)] by simp
    then obtain x where "ls = [x]" by (auto simp: length_Suc_conv)
    then show ?thesis using set by simp
  qed
  ultimately show ?thesis using c walk by simp
qed

section \<open>A sample database\<close>

definition graph_db :: db where
  "graph_db = empty_db\<lparr>
     domains := [\<lparr>d_id = ''d1'', d_name = ''x.io'', d_enabled = True, d_scope = ScopeSameDomainOnly,
                  d_revision = 4, d_updated = 0\<rparr>],
     aliases := [\<lparr>al_id = ''a1'', al_domain = ''d1'', al_local = ''t'', al_json = [],
                  al_targets = Some [''a@x.io'', ''s@x.io''], al_enabled = True\<rparr>,
                 \<lparr>al_id = ''a2'', al_domain = ''d1'', al_local = ''s'', al_json = [],
                  al_targets = Some [''b@y.io''], al_enabled = True\<rparr>]\<rparr>"

lemma graph_addresses:
  "normalizeQueueRecipient ascii_external ''t@x.io'' = Inr (''t@x.io'', ''x.io'')"
  "normalizeQueueRecipient ascii_external ''s@x.io'' = Inr (''s@x.io'', ''x.io'')"
  "normalizeQueueRecipient ascii_external ''S@x.io'' = Inr (''S@x.io'', ''x.io'')"
  "normalizeQueueRecipient ascii_external ''a@x.io'' = Inr (''a@x.io'', ''x.io'')"
  "normalizeQueueRecipient ascii_external ''b@y.io'' = Inr (''b@y.io'', ''y.io'')"
  by code_simp+

lemma graph_texts:
  "validQueueObjectID ''a1''" "validQueueObjectID ''a2''" "ToLower ''t'' = ''t''" "ToLower ''s'' = ''s''"
  by code_simp+

lemma graph_rows:
  "address_rows graph_db ''t@x.io'' = [(aliases graph_db ! 0, ''t@x.io'', ''x.io'')]"
  "address_rows graph_db ''s@x.io'' = [(aliases graph_db ! Suc 0, ''s@x.io'', ''x.io'')]"
  "address_rows graph_db ''S@x.io'' = [(aliases graph_db ! Suc 0, ''S@x.io'', ''x.io'')]"
  "address_rows graph_db ''a@x.io'' = []"
  "address_rows graph_db ''b@y.io'' = []"
  by code_simp+

lemma graph_scan:
  "scanExpansionAlias ascii_external (aliases graph_db ! 0, ''t@x.io'', ''x.io'') =
    Inr \<lparr>ea_id = ''a1'', ea_address = ''t@x.io'', ea_targets = [''a@x.io'', ''s@x.io''], ea_kind = SourceList\<rparr>"
  "scanExpansionAlias ascii_external (aliases graph_db ! Suc 0, ''s@x.io'', ''x.io'') =
    Inr \<lparr>ea_id = ''a2'', ea_address = ''s@x.io'', ea_targets = [''b@y.io''], ea_kind = SourceForward\<rparr>"
  "scanExpansionAlias ascii_external (aliases graph_db ! Suc 0, ''S@x.io'', ''x.io'') = Inl (Err ''stored outbound alias is invalid'')"
  by (simp_all add: scanExpansionAlias_def graph_addresses graph_db_def graph_texts maxQueueRecipients_def
      classifyExpansionSource_def Let_def)

lemma graph_world [simp]:
  "still (sample_world db)" "answers (sample_world db)" "w_db (sample_world db) = db"
  by (simp_all add: still_def answers_def sample_world_def quiet_def)

lemma walk_numeral:
  "walkExpansionGraph (numeral k) amap a active st =
     (case map_of amap a of
        None \<Rightarrow> walkLeaf a st
      | Some al \<Rightarrow>
          if a \<in> set active then Inl (Err ''outbound alias expansion cycle'')
          else
            let srcs = AList.update (source_key (alias_source al)) (alias_source al) (snd st) in
            if length srcs > maxQueueSources then Inl (Err ''outbound alias source limit exceeded'')
            else foldR (\<lambda>t. walkExpansionGraph (pred_numeral k) amap t (a # active)) (ea_targets al) (fst st, srcs))"
  by (simp add: numeral_eq_Suc)

lemmas graph_eval = expandLayers.simps run_query_def new_batch_def layer_rows_def order_by_def walkLeaf_def
  maxQueueSources_def maxQueueRecipients_def maxExpansionAliases_def Let_def alias_source_def source_key_def
  walk_numeral graph_addresses graph_rows graph_scan

lemma graph_load:
  "fst (loadExpansionAliases ascii_external [''t@x.io''] (sample_world graph_db)) =
   Inr [(''t@x.io'', \<lparr>ea_id = ''a1'', ea_address = ''t@x.io'', ea_targets = [''a@x.io'', ''s@x.io''], ea_kind = SourceList\<rparr>),
        (''s@x.io'', \<lparr>ea_id = ''a2'', ea_address = ''s@x.io'', ea_targets = [''b@y.io''], ea_kind = SourceForward\<rparr>)]"
  by (simp add: loadExpansionAliases_def sample_world_def quiet_def graph_eval)


lemma graph_expand:
  "fst (expandOriginal ascii_external ''t@x.io'' (sample_world graph_db))
   = Inr ([''a@x.io'', ''b@y.io''], [QueueSource SourceList ''a1'', QueueSource SourceForward ''a2''])"
proof -
  obtain w' where l: "loadExpansionAliases ascii_external [''t@x.io''] (sample_world graph_db) =
     (Inr [(''t@x.io'', \<lparr>ea_id = ''a1'', ea_address = ''t@x.io'', ea_targets = [''a@x.io'', ''s@x.io''], ea_kind = SourceList\<rparr>),
        (''s@x.io'', \<lparr>ea_id = ''a2'', ea_address = ''s@x.io'', ea_targets = [''b@y.io''], ea_kind = SourceForward\<rparr>)], w')"
    using graph_load by (metis prod.collapse)
  show ?thesis by (simp add: expandOriginal_def l walkFrom_def graph_eval)
qed

text \<open>a recipient whose local part is spelt in upper case matches the stored alias in the query, which compares
  in lower case, and is then refused as if the stored alias were invalid; the same recipient in lower case
  expands.\<close>

theorem expandOriginal_upper_case:
  "fst (expandOriginal ascii_external ''S@x.io'' (sample_world graph_db)) = Inl (Err ''stored outbound alias is invalid'')
   \<and> fst (expandOriginal ascii_external ''s@x.io'' (sample_world graph_db)) = Inr ([''b@y.io''], [QueueSource SourceForward ''a2''])"
  by (simp add: expandOriginal_def loadExpansionAliases_def walkFrom_def sample_world_def quiet_def graph_eval)

text \<open>a delivery to the original recipient itself is accepted without sources even if the recipient
  is an alias.\<close>

theorem resolveExpansionDeliveries_identity:
  "fst (resolveExpansionDeliveries ascii_external [\<lparr>dl_original = ''s@x.io'', dl_recipient = ''s@x.io''\<rparr>] (sample_world graph_db))
   = Inr [] \<and> graph_at ascii_external graph_db ''s@x.io'' \<noteq> None"
  by (simp add: resolveExpansionDeliveries_def canonicalDelivery_def loadExpansionAliases_def sample_world_def quiet_def
      graph_eval graph_at_def)

lemma graph_deliveries:
  "fst (resolveExpansionDeliveries ascii_external [\<lparr>dl_original = ''t@x.io'', dl_recipient = ''b@y.io''\<rparr>] (sample_world graph_db))
   = Inr [QueueSource SourceList ''a1'', QueueSource SourceForward ''a2'']"
  by (simp add: resolveExpansionDeliveries_def canonicalDelivery_def loadExpansionAliases_def sample_world_def quiet_def
      walkFrom_def graph_eval)

theorem expandOriginal_sound_witness:
  "well_expanding ascii_external graph_db ''t@x.io'' \<and> db_leaves ascii_external graph_db ''t@x.io'' = {''a@x.io'', ''b@y.io''}
   \<and> db_sources ascii_external graph_db ''t@x.io'' = {QueueSource SourceList ''a1'', QueueSource SourceForward ''a2''}"
proof -
  obtain w' where e: "expandOriginal ascii_external ''t@x.io'' (sample_world graph_db)
      = (Inr ([''a@x.io'', ''b@y.io''], [QueueSource SourceList ''a1'', QueueSource SourceForward ''a2'']), w')"
    using graph_expand by (metis prod.collapse)
  from expandOriginal_sound [OF _ e] show ?thesis by (auto simp: graph_addresses)
qed

lemma db_reach_least:
  assumes "a \<in> S" and "closed_under X db S"
  shows "db_reach X db a \<subseteq> S"
proof
  fix b assume "b \<in> db_reach X db a"
  then have "(db_edge X db)\<^sup>*\<^sup>* a b" by (simp add: db_reach_def)
  then show "b \<in> S" by induction (use assms in \<open>auto simp: closed_under_def db_edge_def\<close>)
qed

lemma graph_ok: "well_expanding ascii_external graph_db ''s@x.io''" "db_reach ascii_external graph_db ''s@x.io'' \<subseteq> {''s@x.io'', ''b@y.io''}"
proof -
  have at: "graph_at ascii_external graph_db ''s@x.io'' =
      Some \<lparr>ea_id = ''a2'', ea_address = ''s@x.io'', ea_targets = [''b@y.io''], ea_kind = SourceForward\<rparr>"
    "graph_at ascii_external graph_db ''b@y.io'' = None"
    by (simp_all add: graph_at_def graph_rows graph_scan)
  show r: "db_reach ascii_external graph_db ''s@x.io'' \<subseteq> {''s@x.io'', ''b@y.io''}"
    by (rule db_reach_least) (simp_all add: closed_under_def at)
  have e: "db_edge ascii_external graph_db a b \<Longrightarrow> a \<in> {''s@x.io'', ''b@y.io''} \<Longrightarrow> a = ''s@x.io'' \<and> b = ''b@y.io''" for a b
    by (auto simp: db_edge_def at)
  have "\<not> (db_edge ascii_external graph_db)\<^sup>+\<^sup>+ b b" if "b \<in> {''s@x.io'', ''b@y.io''}" for b
  proof
    assume "(db_edge ascii_external graph_db)\<^sup>+\<^sup>+ b b"
    then obtain c where c: "db_edge ascii_external graph_db b c" "(db_edge ascii_external graph_db)\<^sup>*\<^sup>* c b" by (meson tranclpD)
    have b: "b = ''s@x.io''" "c = ''b@y.io''" using e [OF c(1) that] by simp_all
    from c(2) show False unfolding b by (cases rule: converse_rtranclpE) (auto simp: db_edge_def at)
  qed
  moreover have "node_ok ascii_external graph_db b" if "b \<in> {''s@x.io'', ''b@y.io''}" for b
    using that by (auto simp: node_ok_def at graph_rows)
  ultimately show "well_expanding ascii_external graph_db ''s@x.io''" using r unfolding well_expanding_def by blast
qed

theorem expandOriginal_succeeds_witness:
  "\<exists>r w'. expandOriginal ascii_external ''s@x.io'' (sample_world graph_db) = (Inr r, w')"
proof -
  have "card S \<le> 2" if "S \<subseteq> {''s@x.io'', ''b@y.io''}" for S
    using card_mono [OF _ that] by simp
  moreover have "{a \<in> db_reach ascii_external graph_db ''s@x.io''. graph_at ascii_external graph_db a \<noteq> None} \<subseteq> {''s@x.io'', ''b@y.io''}"
    using graph_ok(2) by blast
  ultimately have c: "card (db_reach ascii_external graph_db ''s@x.io'') \<le> 2"
    "card {a \<in> db_reach ascii_external graph_db ''s@x.io''. graph_at ascii_external graph_db a \<noteq> None} \<le> 2"
    using graph_ok(2) by blast+
  show ?thesis
    by (rule expandOriginal_succeeds [OF graph_world(1,2) graph_addresses(2)])
      (use graph_ok(1) c in \<open>simp_all add: maxQueueRecipients_def maxExpansionAliases_def maxQueueSources_def\<close>)
qed


theorem walk_exponential_witness:
  "\<exists>st. walkCount maxQueueSources (doubling 63) (hop 0) [] ([], []) = (Inr st, 18446744073709551615)"
  using walk_exponential [of 63] by auto

end
