(* ===== verification/Enforcement.thy ===== *)
theory Enforcement
  imports Expansion_Graph
begin

text \<open>
  \<^verbatim>\<open>internal/outboundpolicy/decision.go\<close> and \<open>QueueAdmissionService.Admit\<close> of \<^verbatim>\<open>admission.go\<close>: who submits a message,
  which domains govern it, and the decision at submission and at transport. An operation returns a decision
  and an error side by side, as the code does; the queries of one operation are separate statements, and
  other sessions may commit between them.
\<close>

section \<open>Data\<close>

record EnforcementRequest =
  er_stage :: Stage
  er_queue_id :: string
  er_mailbox :: string
  er_system :: string
  er_envelope :: string
  er_recipient :: string
  er_sources :: "QueueSource list"

record SystemSenderBinding =
  sb_id :: string
  sb_domain_id :: string
  sb_address :: string
  sb_enabled :: bool
  sb_revision :: u64

type_synonym 'p decision_op = "'p world \<Rightarrow> (Decision \<times> go_error option) \<times> 'p world"

definition unavailableDecision :: "go_error \<Rightarrow> Decision \<times> go_error option" where
  "unavailableDecision e =
     (\<lparr>dec_action = ActionDefer, dec_reason = ReasonUnavailable, dec_revisions = []\<rparr>, Some e)"

definition validPolicyCorrelationID :: "string \<Rightarrow> bool" where
  "validPolicyCorrelationID value =
     (if value = [] \<or> length value > 256 \<or> TrimSpace value \<noteq> value then False
      else list_all (\<lambda>c. \<not> (byte c < 32 \<or> byte c = 127)) value)"

definition sortedStringContains :: "string list \<Rightarrow> string \<Rightarrow> bool" where
  "sortedStringContains values target =
     (let index = search values target 0 (length values) in
      index < length values \<and> values ! index = target)"

section \<open>Governing domains\<close>

text \<open>
  The object a source names, by the primary key of its table: whether it is enabled and the key of its domain.
\<close>

definition source_owner :: "db \<Rightarrow> QueueSource \<Rightarrow> (bool \<times> string) option" where
  "source_owner db s =
     (if src_kind s \<in> {SourceAuthenticatedMailbox, SourceEnvelopeSender}
      then map_option (\<lambda>m. (mb_enabled m, mb_domain m)) (List.find (\<lambda>m. mb_id m = src_object s) (mailboxes db))
      else if src_kind s \<in> {SourceAlias, SourceForward, SourceList, SourceCatchAll}
      then map_option (\<lambda>a. (al_enabled a, al_domain a)) (List.find (\<lambda>a. al_id a = src_object s) (aliases db))
      else if src_kind s = SourceSystemSender
      then map_option (\<lambda>y. (ss_enabled y, ss_domain y)) (List.find (\<lambda>y. ss_id y = src_object s) (senders db))
      else None)"

text \<open>One row of the query: the enabled flag and the joined domain.\<close>

definition policy_row :: "db \<Rightarrow> QueueSource \<Rightarrow> bool \<times> DomainRow option" where
  "policy_row db s =
     (case source_owner db s of
        None \<Rightarrow> (False, None)
      | Some (enabled, domain) \<Rightarrow> (enabled, List.find (\<lambda>d. d_id d = domain) (domains db)))"

definition governing_row :: "external \<Rightarrow> bool \<times> DomainRow option \<Rightarrow> GoverningDomain result" where
  "governing_row X row =
     (case row of
        (sourceEnabled, None) \<Rightarrow> Inl (Err ''outbound policy source is missing or disabled'')
      | (sourceEnabled, Some d) \<Rightarrow>
          if \<not> sourceEnabled \<or> \<not> d_enabled d \<or> d_revision d \<le> 0
          then Inl (Err ''outbound policy source is missing or disabled'')
          else case NormalizeDomain X (d_name d) of
            Inl _ \<Rightarrow> Inl (Err ''outbound policy source state is invalid'')
          | Inr canonical \<Rightarrow>
              if canonical \<noteq> d_name d \<or> \<not> validScope (d_scope d)
              then Inl (Err ''outbound policy source state is invalid'')
              else Inr \<lparr>gd_domain = canonical, gd_scope = d_scope d, gd_revision = of_int (d_revision d)\<rparr>)"

definition resolvePolicySources :: "external \<Rightarrow> QueueSource list \<Rightarrow> ('p, GoverningDomain list) prog" where
  "resolvePolicySources X srcs w =
     (if length srcs = 0 \<or> length srcs > maxQueueSources
      then (Inl (Err ''invalid outbound policy sources''), w)
      else if list_ex (\<lambda>s. \<not> validSourceKind (src_kind s) \<or> \<not> validQueueObjectID (src_object s)) srcs
      then (Inl (Err ''invalid outbound policy source''), w)
      else run_query (\<lambda>db.
        case mapR (governing_row X) (map (policy_row db) srcs) of
          Inl e \<Rightarrow> Inl e
        | Inr governing \<Rightarrow>
            if length governing \<noteq> length srcs
            then Inl (Err ''outbound policy source resolution was incomplete'')
            else Inr governing) w)"

section \<open>Submission authority\<close>

text \<open>The rows of the mailbox query, at most two.\<close>

definition mailbox_rows :: "db \<Rightarrow> string \<Rightarrow> string \<Rightarrow> (string \<times> string \<times> string) list" where
  "mailbox_rows db local domain =
     take 2 (order_by (\<lambda>(a, _) (b, _). a \<le> b)
       (concat (map (\<lambda>m. map (\<lambda>d. (mb_id m, mb_local m, d_name d))
           (filter (\<lambda>d. d_id d = mb_domain m \<and> d_name d = domain \<and> d_enabled d) (domains db)))
         (filter (\<lambda>m. ToLower (mb_local m) = ToLower local \<and> mb_enabled m) (mailboxes db)))))"

definition mailboxObjectByAddress :: "external \<Rightarrow> string \<Rightarrow> ('p, string \<times> string) prog" where
  "mailboxObjectByAddress X rawAddress w =
     (case normalizeQueueRecipient X rawAddress of
        Inl _ \<Rightarrow> (Inl (Err ''invalid authenticated mailbox''), w)
      | Inr (address, domain) \<Rightarrow>
          let local = (case split_last CHR ''@'' address of None \<Rightarrow> [] | Some (l, _) \<Rightarrow> l) in
          run_query (\<lambda>db.
            case mailbox_rows db local domain of
              [(i, storedLocal, storedDomain)] \<Rightarrow> Inr (ToLower storedLocal @ ''@'' @ storedDomain, i)
            | _ \<Rightarrow> Inl (Err ''authenticated mailbox is missing or ambiguous'')) w)"

definition sender_row :: "db \<Rightarrow> string \<Rightarrow> SenderRow option" where
  "sender_row db i =
     List.find (\<lambda>y. ss_id y = i \<and> ss_enabled y
       \<and> list_ex (\<lambda>d. d_id d = ss_domain y \<and> d_enabled d) (domains db)) (senders db)"

definition systemSenderAddress :: "external \<Rightarrow> string \<Rightarrow> ('p, string) prog" where
  "systemSenderAddress X i w =
     (if \<not> validQueueObjectID i then (Inl (Err ''invalid system sender identity''), w)
      else run_query (\<lambda>db.
        case sender_row db i of
          None \<Rightarrow> Inl (Err ''system sender identity not found'')
        | Some y \<Rightarrow>
           (case normalizeQueueRecipient X (ss_address y) of
              Inl _ \<Rightarrow> Inl (Err ''stored system sender identity is invalid'')
            | Inr (canonical, _) \<Rightarrow>
                if canonical \<noteq> ss_address y then Inl (Err ''stored system sender identity is invalid'')
                else Inr (ss_address y))) w)"

definition admittedEnvelope :: "external \<Rightarrow> string \<Rightarrow> string result" where
  "admittedEnvelope X envelope =
     (if envelope \<noteq> ''<>''
      then case normalizeQueueRecipient X envelope of
        Inl _ \<Rightarrow> Inl (Err ''invalid admitted envelope sender'')
      | Inr (address, _) \<Rightarrow> Inr address
      else Inr envelope)"

definition authoritySources :: "external \<Rightarrow> EnforcementRequest \<Rightarrow> string \<Rightarrow> ('p, QueueSource list) prog" where
  "authoritySources X req envelope w =
     (if er_mailbox req \<noteq> []
      then case mailboxObjectByAddress X (er_mailbox req) w of
        (Inl e, w1) \<Rightarrow> (Inl e, w1)
      | (Inr (mailbox, i), w1) \<Rightarrow>
          if \<not> EqualFold mailbox envelope
          then (Inl (Err ''envelope sender is not bound to authenticated mailbox''), w1)
          else (Inr [QueueSource SourceAuthenticatedMailbox i, QueueSource SourceEnvelopeSender i], w1)
      else case systemSenderAddress X (er_system req) w of
        (Inl e, w1) \<Rightarrow> (Inl e, w1)
      | (Inr boundAddress, w1) \<Rightarrow>
          if envelope \<noteq> ''<>'' \<and> \<not> EqualFold boundAddress envelope
          then (Inl (Err ''envelope sender is not bound to system sender''), w1)
          else (Inr [QueueSource SourceSystemSender (er_system req)], w1))"

definition expansion_source_ok :: "QueueSource \<Rightarrow> bool" where
  "expansion_source_ok s \<longleftrightarrow>
     (src_kind s = SourceAlias \<or> src_kind s = SourceForward \<or> src_kind s = SourceList \<or> src_kind s = SourceCatchAll)
     \<and> validQueueObjectID (src_object s)"

definition submissionSources :: "external \<Rightarrow> EnforcementRequest \<Rightarrow> ('p, QueueSource list) prog" where
  "submissionSources X req w =
     (if er_queue_id req \<noteq> [] \<or> (er_mailbox req = []) = (er_system req = [])
         \<or> length (er_sources req) > maxQueueSources - 2
      then (Inl (Err ''invalid submission authority''), w)
      else case admittedEnvelope X (er_envelope req) of
        Inl e \<Rightarrow> (Inl e, w)
      | Inr envelope \<Rightarrow>
         (case authoritySources X req envelope w of
            (Inl e, w1) \<Rightarrow> (Inl e, w1)
          | (Inr authority, w1) \<Rightarrow>
              if list_ex (\<lambda>s. \<not> expansion_source_ok s) (er_sources req)
              then (Inl (Err ''invalid expansion source''), w1)
              else (Inr (authority @ er_sources req), w1)))"

section \<open>Decisions\<close>

definition json_map :: "revisions \<Rightarrow> json" where
  "json_map revs = (if revs = [] then JNull else json_revisions revs)"

definition submission_event :: "string \<Rightarrow> string \<Rightarrow> Decision \<Rightarrow> Event" where
  "submission_event correlationID domain decision =
     \<lparr>ev_id = [], ev_time = 0, ev_actor = \<lparr>actor_type = ''service'', actor_id = ''outbound-policy''\<rparr>, ev_source = None,
      ev_action = ''outbound.policy.'' @ dec_action decision,
      ev_resource = \<lparr>res_type = ''outbound_submission'', res_id = ''submission''\<rparr>, ev_before = JNull,
      ev_after = JObj [(''recipient_domain'', JStr domain), (''reason'', JStr (dec_reason decision)),
                       (''revisions'', json_map (dec_revisions decision))],
      ev_correlation = correlationID,
      ev_result = (if dec_action decision = ActionReject then ''denied'' else ''failure''), ev_error_code = []\<rparr>"

definition recordSubmissionDecision :: "external \<Rightarrow> string \<Rightarrow> string \<Rightarrow> Decision \<Rightarrow> 'p decision_op" where
  "recordSubmissionDecision X correlationID recipient decision w =
     (if dec_action decision = ActionOK then ((decision, None), w)
      else case recipientDomain X recipient of
        Inl e \<Rightarrow> (unavailableDecision e, w)
      | Inr domain \<Rightarrow>
         (case run_tx (\<lambda>cx db. map_sum id (Pair ())
              (WriteSQL (cx_rnd cx) (cx_now cx) (submission_event correlationID domain decision) db)) w of
            (Inl e, w1) \<Rightarrow> (unavailableDecision e, w1)
          | (Inr _, w1) \<Rightarrow> ((decision, None), w1)))"

definition hold_actor :: "ActorRef \<Rightarrow> ActorRef" where
  "hold_actor actor =
     (if actor_type actor = [] \<or> actor_id actor = []
      then \<lparr>actor_type = ''service'', actor_id = ''outbound-policy''\<rparr> else actor)"

definition decideSubmission :: "external \<Rightarrow> string \<Rightarrow> EnforcementRequest \<Rightarrow> 'p decision_op" where
  "decideSubmission X correlationID req w =
     (case submissionSources X req w of
        (Inl e, w1) \<Rightarrow> (unavailableDecision e, w1)
      | (Inr srcs, w1) \<Rightarrow>
         (case resolvePolicySources X srcs w1 of
            (Inl e, w2) \<Rightarrow> (unavailableDecision e, w2)
          | (Inr governing, w2) \<Rightarrow>
              recordSubmissionDecision X correlationID (er_recipient req)
                (Evaluate X \<lparr>rq_stage = StageSubmission, rq_queue_id = [], rq_recipient = er_recipient req,
                             rq_governing = governing\<rparr>) w2))"

definition decideTransport :: "external \<Rightarrow> ActorRef \<Rightarrow> string \<Rightarrow> EnforcementRequest \<Rightarrow> 'p decision_op" where
  "decideTransport X holdActor correlationID req w =
     (case Load X (er_queue_id req) w of
        (Inl e, w1) \<Rightarrow> (unavailableDecision e, w1)
      | (Inr record, w1) \<Rightarrow>
          if (case normalizeQueueRecipient X (er_recipient req) of Inl _ \<Rightarrow> True
              | Inr (recipient, _) \<Rightarrow> \<not> sortedStringContains (qr_recipients record) recipient)
          then (unavailableDecision (Err ''transport recipient is absent from immutable queue provenance''), w1)
          else
            let recipient = fst (projr (normalizeQueueRecipient X (er_recipient req))) in
           (case resolvePolicySources X (qr_sources record) w1 of
              (Inl e, w2) \<Rightarrow> (unavailableDecision e, w2)
            | (Inr governing, w2) \<Rightarrow>
                let decision = Evaluate X \<lparr>rq_stage = StageTransport, rq_queue_id = qr_queue_id record,
                                           rq_recipient = recipient, rq_governing = governing\<rparr> in
                if dec_action decision = ActionDefer \<and> dec_reason decision = ReasonPolicyHold
                then case RequireHold X (hold_actor holdActor) correlationID (qr_queue_id record) decision w2 of
                  (Inl e, w3) \<Rightarrow> (unavailableDecision e, w3)
                | (Inr _, w3) \<Rightarrow> ((decision, None), w3)
                else ((decision, None), w2)))"

definition Decide :: "external \<Rightarrow> ActorRef \<Rightarrow> string \<Rightarrow> EnforcementRequest \<Rightarrow> 'p decision_op" where
  "Decide X holdActor correlationID req w =
     (if \<not> validPolicyCorrelationID correlationID
      then (unavailableDecision (Err ''outbound enforcement service is unavailable''), w)
      else if er_stage req = StageSubmission then decideSubmission X correlationID req w
      else if er_stage req \<noteq> StageTransport \<or> er_mailbox req \<noteq> [] \<or> er_system req \<noteq> [] \<or> er_envelope req \<noteq> []
              \<or> length (er_sources req) \<noteq> 0
      then (unavailableDecision (Err ''invalid outbound enforcement stage request''), w)
      else decideTransport X holdActor correlationID req w)"

text \<open>The loop over the leaves: the decision to return and the leaf it is recorded for, if it is a rejection.\<close>

fun decideLeaves ::
  "external \<Rightarrow> GoverningDomain list \<Rightarrow> string list \<Rightarrow> Decision \<Rightarrow> (Decision \<times> string option) result"
where
  "decideLeaves X governing [] result = Inr (result, None)"
| "decideLeaves X governing (r # rs) result =
     (let decision = Evaluate X \<lparr>rq_stage = StageSubmission, rq_queue_id = [], rq_recipient = r,
                                 rq_governing = governing\<rparr>;
          revs = fold (\<lambda>(d, v) m. AList.update d v m) (dec_revisions decision) (dec_revisions result) in
      if dec_action decision = ActionReject then Inr (decision\<lparr>dec_revisions := revs\<rparr>, Some r)
      else if dec_action decision \<noteq> ActionOK then Inl (Err ''invalid submission expansion policy result'')
      else decideLeaves X governing rs
        (result\<lparr>dec_revisions := revs,
                dec_reason := (if dec_reason decision = ReasonSameDomain then ReasonSameDomain
                               else dec_reason result)\<rparr>))"

definition DecideSMTPRecipient :: "external \<Rightarrow> string \<Rightarrow> string \<Rightarrow> string \<Rightarrow> string \<Rightarrow> 'p decision_op" where
  "DecideSMTPRecipient X correlationID authenticatedMailbox envelopeSender recipient w =
     (if \<not> validPolicyCorrelationID correlationID
      then (unavailableDecision (Err ''outbound enforcement service is unavailable''), w)
      else case submissionSources X
          \<lparr>er_stage = StageSubmission, er_queue_id = [], er_mailbox = authenticatedMailbox, er_system = [],
           er_envelope = envelopeSender, er_recipient = recipient, er_sources = []\<rparr> w of
        (Inl e, w1) \<Rightarrow> (unavailableDecision e, w1)
      | (Inr authority, w1) \<Rightarrow>
         (case expandOriginal X recipient w1 of
            (Inl e, w2) \<Rightarrow> (unavailableDecision e, w2)
          | (Inr (rcpts, expansion), w2) \<Rightarrow>
             (case resolvePolicySources X (authority @ expansion) w2 of
                (Inl e, w3) \<Rightarrow> (unavailableDecision e, w3)
              | (Inr governing, w3) \<Rightarrow>
                 (case decideLeaves X governing rcpts
                     \<lparr>dec_action = ActionOK, dec_reason = ReasonUnrestricted, dec_revisions = []\<rparr> of
                    Inl e \<Rightarrow> (unavailableDecision e, w3)
                  | Inr (decision, Some r) \<Rightarrow> recordSubmissionDecision X correlationID r decision w3
                  | Inr (result, None) \<Rightarrow> ((result, None), w3)))))"

section \<open>System senders\<close>

definition insert_sender :: "external \<Rightarrow> SenderRow \<Rightarrow> db \<Rightarrow> (nat \<times> db) result" where
  "insert_sender X y db =
     (if \<not> check_sender X y then Inl SqlError
      else if list_ex (\<lambda>z. ss_id z = ss_id y) (senders db) then Inr (0, db)
      else if list_ex (\<lambda>z. ss_address z = ss_address y) (senders db) then Inl SqlError
      else Inr (1, db\<lparr>senders := senders db @ [y]\<rparr>))"

definition bind_event :: "int \<Rightarrow> ActorRef \<Rightarrow> string \<Rightarrow> string \<Rightarrow> string \<Rightarrow> Event" where
  "bind_event now actor correlationID i domainID =
     \<lparr>ev_id = [], ev_time = now, ev_actor = actor, ev_source = None, ev_action = ''system_sender.bind'',
      ev_resource = \<lparr>res_type = ''system_sender'', res_id = i\<rparr>, ev_before = JNull,
      ev_after = JObj [(''domain_id'', JStr domainID), (''revision'', JNum 1)],
      ev_correlation = correlationID, ev_result = ''success'', ev_error_code = []\<rparr>"

definition bind_tx ::
  "external \<Rightarrow> ActorRef \<Rightarrow> string \<Rightarrow> string \<Rightarrow> string \<Rightarrow> string \<Rightarrow> tx_ctx \<Rightarrow> db \<Rightarrow> (SystemSenderBinding \<times> db) result"
where
  "bind_tx X actor correlationID i address domain cx db =
     (case List.find (\<lambda>d. d_name d = domain \<and> d_enabled d) (domains db) of
        None \<Rightarrow> Inl (Err ''enabled system sender domain not found'')
      | Some d \<Rightarrow>
         (case insert_sender X \<lparr>ss_id = i, ss_domain = d_id d, ss_address = address, ss_enabled = True,
              ss_revision = 1, ss_created = cx_now cx, ss_updated = cx_now cx\<rparr> db of
            Inl e \<Rightarrow> Inl e
          | Inr (affected, db1) \<Rightarrow>
             (case List.find (\<lambda>y. ss_id y = i) (senders db1) of
                None \<Rightarrow> Inl SqlError
              | Some y \<Rightarrow>
                  if ss_domain y \<noteq> d_id d \<or> ss_address y \<noteq> address \<or> \<not> ss_enabled y \<or> ss_revision y \<le> 0
                  then Inl (Err ''system sender ID is already bound to different state'')
                  else
                    let binding = \<lparr>sb_id = ss_id y, sb_domain_id = ss_domain y, sb_address = ss_address y,
                                   sb_enabled = ss_enabled y, sb_revision = of_int (ss_revision y)\<rparr> in
                    if affected = 1
                    then case WriteSQL (cx_rnd cx) (cx_now cx)
                        (bind_event (cx_now cx) actor correlationID i (d_id d)) db1 of
                      Inl e \<Rightarrow> Inl e
                    | Inr db2 \<Rightarrow> Inr (binding, db2)
                    else Inr (binding, db1))))"

definition Bind :: "external \<Rightarrow> ActorRef \<Rightarrow> string \<Rightarrow> string \<Rightarrow> string \<Rightarrow> ('p, SystemSenderBinding) prog" where
  "Bind X actor correlationID i rawAddress w =
     (if actor_type actor = [] \<or> actor_id actor = [] \<or> correlationID = [] \<or> \<not> validQueueObjectID i
      then (Inl (Err ''invalid system sender binding request''), w)
      else case normalizeQueueRecipient X rawAddress of
        Inl _ \<Rightarrow> (Inl (Err ''invalid system sender address''), w)
      | Inr (address, domain) \<Rightarrow> run_tx (bind_tx X actor correlationID i address domain) w)"

section \<open>Admission\<close>

record QueueAdmissionRequest =
  ad_metadata :: QueueMetadata
  ad_deliveries :: "QueueDelivery list"
  ad_mailbox :: string
  ad_system :: string

definition admitAuthority :: "external \<Rightarrow> QueueAdmissionRequest \<Rightarrow> ('p, QueueSource list) prog" where
  "admitAuthority X req w =
     (if ad_mailbox req \<noteq> [] \<or> ad_system req \<noteq> []
      then submissionSources X
        \<lparr>er_stage = StageSubmission, er_queue_id = [], er_mailbox = ad_mailbox req, er_system = ad_system req,
         er_envelope = qm_sender (ad_metadata req), er_recipient = dl_recipient (ad_deliveries req ! 0), er_sources = []\<rparr> w
      else (Inr [], w))"

definition Admit :: "external \<Rightarrow> QueueAdmissionRequest \<Rightarrow> ('p, QueueRecord \<times> bool) prog" where
  "Admit X req w =
     (let m = ad_metadata req in
      if qm_held m \<or> length (ad_deliveries req) = 0 \<or> length (ad_deliveries req) > maxQueueRecipients
      then (Inl (Err ''invalid outbound queue admission request''), w)
      else case validateQueueDeliveries X (qm_recipients m) (ad_deliveries req) of
        Some e \<Rightarrow> (Inl e, w)
      | None \<Rightarrow>
         (case admitAuthority X req w of
            (Inl e, w1) \<Rightarrow> (Inl e, w1)
          | (Inr authority, w1) \<Rightarrow>
             (case resolveExpansionDeliveries X (ad_deliveries req) w1 of
                (Inl e, w2) \<Rightarrow> (Inl e, w2)
              | (Inr expansion, w2) \<Rightarrow>
                  if length (authority @ expansion) = 0
                  then (Inl (Err ''outbound queue has no authoritative local source''), w2)
                  else Register X
                    \<lparr>qreg_queue_id = qm_queue_id m, qreg_fingerprint = qm_fingerprint m, qreg_sender = qm_sender m,
                     qreg_recipients = qm_recipients m, qreg_sources = authority @ expansion\<rparr> w2)))"

end
