(* ===== verification/Release.thy ===== *)
theory Release
  imports Enforcement
begin

text \<open>
  \<^verbatim>\<open>internal/outboundpolicy/release.go\<close>: the preview of a release with its confirmation digest, the release
  itself, and the diagnosis of one message. The transaction that locks the policy tables while a
  release runs appears as a statement that may fail, followed by the policy query; what the lock
  excludes is a hypothesis on \<open>cx_other\<close> where a property needs it.
\<close>

record QueueReleasePlan =
  rp_queue_id :: string
  rp_hold_state :: HoldState
  rp_revisions :: revisions
  rp_confirmation :: string

record QueueDiagnostic =
  qd_queue_id :: string
  qd_hold_state :: HoldState
  qd_reason :: Reason
  qd_revisions :: revisions
  qd_attempts :: u64
  qd_error_code :: string
  qd_recipient_count :: nat
  qd_source_count :: nat
  qd_postfix_held :: bool
  qd_consistent :: bool

section \<open>Preview\<close>

type_synonym policy_states = "(string \<times> Scope \<times> u64) list"

fun snapshotStates :: "external \<Rightarrow> GoverningDomain list \<Rightarrow> policy_states \<Rightarrow> policy_states result" where
  "snapshotStates X [] states = Inr states"
| "snapshotStates X (g # gs) states =
     (case NormalizeDomain X (gd_domain g) of
        Inl _ \<Rightarrow> Inl (Err ''invalid outbound release policy snapshot'')
      | Inr domain \<Rightarrow>
          if domain \<noteq> gd_domain g \<or> \<not> validScope (gd_scope g) \<or> gd_revision g = 0
          then Inl (Err ''invalid outbound release policy snapshot'')
          else if (case map_of states domain of None \<Rightarrow> False | Some prior \<Rightarrow> prior \<noteq> (gd_scope g, gd_revision g))
          then Inl (Err ''conflicting outbound release policy snapshot'')
          else snapshotStates X gs (AList.update domain (gd_scope g, gd_revision g) states))"

definition snapshot_line :: "policy_states \<Rightarrow> string \<Rightarrow> string" where
  "snapshot_line states domain =
     (case map_of states domain of
        None \<Rightarrow> []
      | Some (scope, revision) \<Rightarrow>
          domain @ [char_of (0 :: nat)] @ scope @ [char_of (0 :: nat)] @ FormatUint (unat revision))"

definition releasePolicySnapshot :: "external \<Rightarrow> GoverningDomain list \<Rightarrow> (revisions \<times> string list) result" where
  "releasePolicySnapshot X governing =
     (case snapshotStates X governing [] of
        Inl e \<Rightarrow> Inl e
      | Inr states \<Rightarrow>
          if length states = 0 then Inl (Err ''empty outbound release policy snapshot'')
          else
            let names = sort (map fst states) in
            Inr (map (\<lambda>d. (d, snd (the (map_of states d)))) names, map (snapshot_line states) names))"

definition release_values :: "QueueRecord \<Rightarrow> string list \<Rightarrow> string list" where
  "release_values record snapshot =
     [''gotth-mail/queue-release/v1'', qr_queue_id record, qr_fingerprint record, qr_recipient_digest record,
      qr_source_digest record] @ snapshot"

definition previewRecord :: "external \<Rightarrow> QueueRecord \<Rightarrow> ('p, QueueReleasePlan) prog" where
  "previewRecord X record w =
     (if qr_hold_state record \<noteq> HoldApplied \<and> qr_hold_state record \<noteq> HoldReleaseError
         \<and> qr_hold_state record \<noteq> HoldReleaseReconciling \<and> qr_hold_state record \<noteq> HoldReleased
      then (Inl (Err ''outbound queue message is not releasable''), w)
      else case resolvePolicySources X (qr_sources record) w of
        (Inl e, w1) \<Rightarrow> (Inl e, w1)
      | (Inr governing, w1) \<Rightarrow>
          if list_ex (\<lambda>r. dec_action (Evaluate X \<lparr>rq_stage = StageTransport, rq_queue_id = qr_queue_id record,
                                                   rq_recipient = r, rq_governing = governing\<rparr>) \<noteq> ActionOK)
               (qr_recipients record)
          then (Inl (Err ''outbound queue remains forbidden by current policy''), w1)
          else case releasePolicySnapshot X governing of
            Inl e \<Rightarrow> (Inl e, w1)
          | Inr (revs, snapshot) \<Rightarrow>
              (Inr \<lparr>rp_queue_id = qr_queue_id record, rp_hold_state = qr_hold_state record, rp_revisions = revs,
                    rp_confirmation = digestStrings (release_values record snapshot)\<rparr>, w1))"

definition Preview_release :: "external \<Rightarrow> string \<Rightarrow> ('p, QueueReleasePlan) prog" where
  "Preview_release X queueID w =
     (if \<not> validLongQueueID queueID then (Inl (Err ''invalid outbound queue release preview''), w)
      else case Load X queueID w of
        (Inl e, w1) \<Rightarrow> (Inl e, w1)
      | (Inr record, w1) \<Rightarrow> previewRecord X record w1)"

section \<open>Diagnosis\<close>

definition Diagnose :: "external \<Rightarrow> 'p boundary \<Rightarrow> string \<Rightarrow> ('p, QueueDiagnostic) op" where
  "Diagnose X B queueID w =
     (if \<not> validLongQueueID queueID then ((None, Some (Err ''invalid outbound queue diagnostic request'')), w)
      else case Load X queueID w of
        (Inl e, w1) \<Rightarrow> ((None, Some e), w1)
      | (Inr record, w1) \<Rightarrow>
          let diagnostic =
                \<lparr>qd_queue_id = qr_queue_id record, qd_hold_state = qr_hold_state record, qd_reason = qr_reason record,
                 qd_revisions = qr_revisions record, qd_attempts = qr_attempts record,
                 qd_error_code = qr_error_code record, qd_recipient_count = length (qr_recipients record),
                 qd_source_count = length (qr_sources record), qd_postfix_held = False, qd_consistent = False\<rparr> in
         (case on_postfix (bd_inspect B queueID) w1 of
            (Inl _, w2) \<Rightarrow> ((Some diagnostic, Some (Err ''Postfix queue diagnostic unavailable'')), w2)
          | (Inr metadata, w2) \<Rightarrow>
              let consistent = matchesQueueMetadata X record metadata
                    \<and> (qr_hold_state record = HoldApplied \<longrightarrow> qm_held metadata)
                    \<and> (qr_hold_state record = HoldReleased \<longrightarrow> \<not> qm_held metadata);
                  diagnostic' = diagnostic\<lparr>qd_postfix_held := qm_held metadata, qd_consistent := consistent\<rparr> in
              ((Some diagnostic',
                if consistent then None else Some (Err ''Postfix queue diagnostic mismatch'')), w2)))"

section \<open>Release\<close>

definition startRelease_tx ::
  "external \<Rightarrow> ActorRef \<Rightarrow> string \<Rightarrow> QueueRecord \<Rightarrow> tx_ctx \<Rightarrow> db \<Rightarrow> (unit \<times> db) result"
where
  "startRelease_tx X actor correlationID record cx db =
     (case update_message X (qr_queue_id record)
         (\<lambda>m. m_hold_state m \<in> {HoldApplied, HoldReleaseError, HoldReleaseReconciling})
         (\<lambda>m. m\<lparr>m_hold_state := HoldReleaseReconciling, m_attempts := m_attempts m + 1, m_error_code := None,
                m_updated := cx_now cx\<rparr>) db of
        Inl e \<Rightarrow> Inl e
      | Inr (affected, db1) \<Rightarrow>
          if affected \<noteq> 1 then Inl (Err ''outbound queue release state changed'')
          else case WriteSQL (cx_rnd cx) (cx_now cx)
              (queue_event (cx_now cx) actor ''queue.policy_hold.release_start'' (qr_queue_id record)
                 (JObj [(''state'', JStr (qr_hold_state record)), (''attempts'', JNum (uint (qr_attempts record)))])
                 (JObj [(''state'', JStr HoldReleaseReconciling), (''attempts'', JNum (uint (qr_attempts record + 1)))])
                 correlationID ''success'') db1 of
            Inl e \<Rightarrow> Inl e
          | Inr db2 \<Rightarrow> Inr ((), db2))"

definition startQueueRelease ::
  "external \<Rightarrow> ActorRef \<Rightarrow> string \<Rightarrow> QueueRecord \<Rightarrow> ('p, unit) prog"
where
  "startQueueRelease X actor correlationID record = run_tx (startRelease_tx X actor correlationID record)"

definition finishRelease_tx ::
  "external \<Rightarrow> ActorRef \<Rightarrow> string \<Rightarrow> QueueRecord \<Rightarrow> HoldState \<Rightarrow> string \<Rightarrow> tx_ctx \<Rightarrow> db \<Rightarrow> (unit \<times> db) result"
where
  "finishRelease_tx X actor correlationID record state code cx db =
     (case update_message X (qr_queue_id record) (\<lambda>m. m_hold_state m = HoldReleaseReconciling)
         (\<lambda>m. m\<lparr>m_hold_state := state, m_error_code := nullString code, m_updated := cx_now cx\<rparr>) db of
        Inl e \<Rightarrow> Inl e
      | Inr (affected, db1) \<Rightarrow>
          if affected \<noteq> 1 then Inl (Err ''outbound queue release state changed'')
          else case WriteSQL (cx_rnd cx) (cx_now cx)
              (queue_event (cx_now cx) actor
                 (if state = HoldReleaseError then ''queue.policy_hold.release_failed''
                  else ''queue.policy_hold.released'') (qr_queue_id record)
                 (JObj [(''state'', JStr HoldReleaseReconciling)])
                 (JObj [(''state'', JStr state), (''error_code'', json_code code)])
                 correlationID (if state = HoldReleaseError then ''failure'' else ''success'')) db1 of
            Inl e \<Rightarrow> Inl e
          | Inr db2 \<Rightarrow> Inr ((), db2))"

definition finishQueueRelease ::
  "external \<Rightarrow> ActorRef \<Rightarrow> string \<Rightarrow> QueueRecord \<Rightarrow> HoldState \<Rightarrow> string \<Rightarrow> ('p, unit) prog"
where
  "finishQueueRelease X actor correlationID record state code w =
     (if state \<noteq> HoldReleased \<and> state \<noteq> HoldReleaseError
      then (Inl (Err ''invalid outbound queue release result''), w)
      else if state = HoldReleaseError \<and> \<not> validQueueErrorCode code
      then (Inl (Err ''invalid outbound queue release error code''), w)
      else run_tx (finishRelease_tx X actor correlationID record state code) w)"

text \<open>\<open>QueueReleaseService.fail\<close>\<close>

definition releaseFail ::
  "external \<Rightarrow> ActorRef \<Rightarrow> string \<Rightarrow> QueueRecord \<Rightarrow> string \<Rightarrow> ('p, queue_result) op"
where
  "releaseFail X actor correlationID record code w =
     (case finishQueueRelease X actor correlationID record HoldReleaseError code w of
        (Inl e, w1) \<Rightarrow> ((None, Some e), w1)
      | (Inr _, w1) \<Rightarrow>
         (case loadConn X (qr_queue_id record) w1 of
            (Inl e, w2) \<Rightarrow> ((None, Some e), w2)
          | (Inr stored, w2) \<Rightarrow> ((Some (stored, True), Some (Err code)), w2)))"

text \<open>\<open>Release\<close> once the attempt is recorded: release, observe, record.\<close>

definition releaseCommit ::
  "external \<Rightarrow> 'p boundary \<Rightarrow> ActorRef \<Rightarrow> string \<Rightarrow> QueueRecord \<Rightarrow> ('p, queue_result) op"
where
  "releaseCommit X B actor correlationID record w =
     (case on_postfix (bd_release B (qr_queue_id record)) w of
        (Some _, w1) \<Rightarrow> releaseFail X actor correlationID record ''queue_release_failed'' w1
      | (None, w1) \<Rightarrow>
         (case on_postfix (bd_inspect B (qr_queue_id record)) w1 of
            (Inl _, w2) \<Rightarrow> releaseFail X actor correlationID record ''queue_post_release_inspection_failed'' w2
          | (Inr metadata, w2) \<Rightarrow>
              if qm_held metadata \<or> \<not> matchesQueueMetadata X record metadata
              then releaseFail X actor correlationID record ''queue_release_not_verified'' w2
              else case finishQueueRelease X actor correlationID record HoldReleased [] w2 of
                (Inl e, w3) \<Rightarrow> ((None, Some e), w3)
              | (Inr _, w3) \<Rightarrow>
                 (case loadConn X (qr_queue_id record) w3 of
                    (Inl e, w4) \<Rightarrow> ((None, Some e), w4)
                  | (Inr stored, w4) \<Rightarrow> ((Some (stored, True), None), w4))))"

text \<open>\<open>Release\<close> once the plan is confirmed.\<close>

definition releaseConfirmed ::
  "external \<Rightarrow> 'p boundary \<Rightarrow> ActorRef \<Rightarrow> string \<Rightarrow> QueueRecord \<Rightarrow> ('p, queue_result) op"
where
  "releaseConfirmed X B actor correlationID record w =
     (case on_postfix (bd_inspect B (qr_queue_id record)) w of (observed, w1) \<Rightarrow>
        if qr_hold_state record = HoldReleased
        then if (case observed of Inl _ \<Rightarrow> False
                 | Inr metadata \<Rightarrow> \<not> qm_held metadata \<and> matchesQueueMetadata X record metadata)
          then ((Some (record, False), None), w1)
          else ((None, Some (Err ''released outbound queue metadata is inconsistent'')), w1)
        else if qr_hold_state record \<noteq> HoldApplied \<and> qr_hold_state record \<noteq> HoldReleaseError
                \<and> qr_hold_state record \<noteq> HoldReleaseReconciling
        then ((None, Some (Err ''outbound queue message is not releasable'')), w1)
        else if (case observed of Inl _ \<Rightarrow> True
                 | Inr metadata \<Rightarrow> \<not> qm_held metadata \<or> \<not> matchesQueueMetadata X record metadata)
        then ((None, Some (Err ''held outbound queue metadata is unavailable'')), w1)
        else case startQueueRelease X actor correlationID record w1 of
          (Inl e, w2) \<Rightarrow> ((None, Some e), w2)
        | (Inr _, w2) \<Rightarrow> releaseCommit X B actor correlationID record w2)"

definition releaseLocked ::
  "external \<Rightarrow> 'p boundary \<Rightarrow> ActorRef \<Rightarrow> string \<Rightarrow> string \<Rightarrow> string \<Rightarrow> ('p, queue_result) op"
where
  "releaseLocked X B actor correlationID queueID confirmation w =
     (case loadConn X queueID w of
        (Inl e, w1) \<Rightarrow> ((None, Some e), w1)
      | (Inr record, w1) \<Rightarrow>
         (case run_query (\<lambda>db. Inr ()) w1 of
            (Inl e, w2) \<Rightarrow> ((None, Some e), w2)
          | (Inr _, w2) \<Rightarrow>
             (case previewRecord X record w2 of
                (Inl e, w3) \<Rightarrow> ((None, Some e), w3)
              | (Inr plan, w3) \<Rightarrow>
                  if rp_confirmation plan \<noteq> confirmation
                  then ((None, Some (Err ''outbound queue release confirmation is stale'')), w3)
                  else releaseConfirmed X B actor correlationID record w3)))"

definition Release_queue ::
  "external \<Rightarrow> 'p boundary \<Rightarrow> ActorRef \<Rightarrow> string \<Rightarrow> string \<Rightarrow> string \<Rightarrow> ('p, queue_result) op"
where
  "Release_queue X B actor correlationID queueID confirmation w =
     (if actor_type actor = [] \<or> actor_id actor = [] \<or> correlationID = [] \<or> \<not> validLongQueueID queueID
         \<or> \<not> validLowerHexDigest confirmation
      then ((None, Some (Err ''invalid outbound queue release request'')), w)
      else with_lock (releaseLocked X B actor correlationID queueID confirmation) w)"

end
