(* ===== verification/Hold_Machine.thy ===== *)
theory Hold_Machine
  imports Release
begin

text \<open>
  The life of a held message. The specification is a map from queue IDs to provenance and hold state with the legal
  moves; every transaction of the program on the queue tables keeps all stored messages loadable and is a step of
  the specification. The transactions of \<^verbatim>\<open>reconcile.go\<close> and \<^verbatim>\<open>release.go\<close> share one contract, the locale
  \<open>hold_transition\<close>, which each of them interprets.
\<close>

section \<open>The specification\<close>

text \<open>
  What a message is to the rest of the system: its provenance, which never changes, and its hold state.
\<close>

record provenance =
  pv_fingerprint :: string
  pv_sender :: string
  pv_recipients :: "string list"
  pv_sources :: "QueueSource list"

type_synonym abs_queue = "string \<rightharpoonup> provenance \<times> HoldState"

text \<open>The moves of the hold state that the components make between them.\<close>

definition legal_move :: "HoldState \<Rightarrow> HoldState \<Rightarrow> bool" where
  "legal_move s t \<longleftrightarrow>
     t = HoldRequired
     \<or> t = HoldReconciling \<and> s \<in> {HoldRequired, HoldReconciliationError, HoldReconciling, HoldApplied}
     \<or> t \<in> {HoldApplied, HoldReconciliationError} \<and> s = HoldReconciling
     \<or> t = HoldReleaseReconciling \<and> s \<in> {HoldApplied, HoldReleaseError, HoldReleaseReconciling}
     \<or> t \<in> {HoldReleased, HoldReleaseError} \<and> s = HoldReleaseReconciling"

inductive abs_step :: "abs_queue \<Rightarrow> abs_queue \<Rightarrow> bool" where
  arrive: "M q = None \<Longrightarrow> abs_step M (M(q \<mapsto> (p, HoldPending)))"
| move: "M q = Some (p, s) \<Longrightarrow> legal_move s t \<Longrightarrow> abs_step M (M(q \<mapsto> (p, t)))"
| stutter: "abs_step M M"

lemma abs_step_keeps:
  assumes "abs_step M M'" and "M q = Some (p, s)"
  shows "\<exists>t. M' q = Some (p, t) \<and> (t = s \<or> legal_move s t)"
  using assms by cases (auto split: if_splits)

lemma abs_run_keeps: "abs_step\<^sup>*\<^sup>* M M' \<Longrightarrow> M q = Some (p, s) \<Longrightarrow> \<exists>t. M' q = Some (p, t)"
  by (induction rule: rtranclp_induct) (auto dest: abs_step_keeps)

section \<open>The abstraction\<close>

definition provenance_of :: "QueueRecord \<Rightarrow> provenance" where
  "provenance_of r =
     \<lparr>pv_fingerprint = qr_fingerprint r, pv_sender = qr_sender r, pv_recipients = qr_recipients r,
      pv_sources = qr_sources r\<rparr>"

definition abs_of :: "external \<Rightarrow> db \<Rightarrow> abs_queue" where
  "abs_of X db q =
     (case loadQueueRecord X db q of Inl _ \<Rightarrow> None | Inr r \<Rightarrow> Some (provenance_of r, qr_hold_state r))"

text \<open>Every stored message loads: no row, child row or digest is inconsistent.\<close>

definition queue_inv :: "external \<Rightarrow> db \<Rightarrow> bool" where
  "queue_inv X db \<longleftrightarrow>
     queue_tables_ok db \<and> (\<forall>m\<in>set (messages db). \<exists>r. loadQueueRecord X db (m_queue_id m) = Inr r)"

lemma queue_inv_empty: "queue_inv X empty_db"
  by (simp add: queue_inv_def queue_tables_ok_def empty_db_def)

lemma load_known: "loadQueueRecord X db q = Inr r \<Longrightarrow> q \<in> m_queue_id ` set (messages db)"
  by (auto dest!: loadQueueRecord_Inr find_message_Some)

lemma abs_of_None: "queue_inv X db \<Longrightarrow> abs_of X db q = None \<longleftrightarrow> q \<notin> m_queue_id ` set (messages db)"
  by (auto simp: queue_inv_def abs_of_def image_iff split: sum.splits dest: load_known)

section \<open>Replacing one message row\<close>

text \<open>What the queue ID is bound to for good.\<close>

definition row_identity :: "MessageRow \<Rightarrow> string \<times> string \<times> string \<times> string \<times> string \<times> int" where
  "row_identity m =
     (m_queue_id m, m_fingerprint m, m_sender m, m_recipient_digest m, m_source_digest m, m_first_seen m)"

text \<open>One message row is rewritten, one audit event is appended, nothing else changes.\<close>

definition moved :: "external \<Rightarrow> string \<Rightarrow> (MessageRow \<Rightarrow> bool) \<Rightarrow> (MessageRow \<Rightarrow> MessageRow) \<Rightarrow> db \<Rightarrow> db \<Rightarrow> bool" where
  "moved X q P f db db' \<longleftrightarrow>
     (\<exists>m row. m \<in> set (messages db) \<and> m_queue_id m = q \<and> P m \<and> check_message X (f m)
        \<and> db' = db\<lparr>messages := map (\<lambda>m. if m_queue_id m = q \<and> P m then f m else m) (messages db),
                   audit_events := audit_events db @ [row]\<rparr>)"

lemma WriteSQL_Inr: "WriteSQL rnd now e db = Inr db' \<Longrightarrow> db' = db\<lparr>audit_events := audit_events db @ [audit_row rnd now e]\<rparr>"
  by (auto simp: WriteSQL_def Let_def split: if_splits)

lemma update_message_Inr:
  assumes "update_message X q P f db = Inr (n, db')" and "n \<noteq> 0"
  shows "\<exists>m. m \<in> set (messages db) \<and> m_queue_id m = q \<and> P m \<and> check_message X (f m)"
    and "db' = db\<lparr>messages := map (\<lambda>m. if m_queue_id m = q \<and> P m then f m else m) (messages db)\<rparr>"
proof -
  have all: "list_all (\<lambda>m. m_queue_id m = q \<and> P m \<longrightarrow> check_message X (f m)) (messages db)"
    and n: "n = length (filter (\<lambda>m. m_queue_id m = q \<and> P m) (messages db))"
    and db': "db' = db\<lparr>messages := map (\<lambda>m. if m_queue_id m = q \<and> P m then f m else m) (messages db)\<rparr>"
    using assms(1) by (auto simp: update_message_def Let_def split: if_splits)
  then obtain m where "m \<in> set (messages db)" "m_queue_id m = q \<and> P m"
    using assms(2) by (auto simp: filter_empty_conv)
  then show "\<exists>m. m \<in> set (messages db) \<and> m_queue_id m = q \<and> P m \<and> check_message X (f m)"
    using all by (auto simp: list_all_iff)
  show "db' = db\<lparr>messages := map (\<lambda>m. if m_queue_id m = q \<and> P m then f m else m) (messages db)\<rparr>" by (fact db')
qed

lemma update_audited_moved:
  assumes "update_message X q P f db = Inr (n, db1)" and "n \<noteq> 0" and "WriteSQL rnd now e db1 = Inr db2"
  shows "moved X q P f db db2"
  using update_message_Inr [OF assms(1,2)] WriteSQL_Inr [OF assms(3)] unfolding moved_def by auto

lemma load_replace:
  assumes "loadQueueRecord X db q = Inr r" and "find_message db' q = Some m'" and "loadParent X q m' = Inr r'"
    and "recipient_rows X db' = recipient_rows X db" and "source_rows X db' = source_rows X db"
    and "qr_recipient_digest r' = qr_recipient_digest r" and "qr_source_digest r' = qr_source_digest r"
  shows "loadQueueRecord X db' q = Inr (r'\<lparr>qr_recipients := qr_recipients r, qr_sources := qr_sources r\<rparr>)"
  using assms by (auto simp: loadQueueRecord_def split: option.splits sum.splits if_splits)

lemma find_unique_key: "distinct (map k xs) \<Longrightarrow> x \<in> set xs \<Longrightarrow> List.find (\<lambda>y. k y = k x) xs = Some x"
  by (induction xs) auto

lemma find_message_unique:
  "queue_tables_ok db \<Longrightarrow> m \<in> set (messages db) \<Longrightarrow> find_message db (m_queue_id m) = Some m"
proof -
  assume "queue_tables_ok db" and m: "m \<in> set (messages db)"
  then have "distinct (map m_queue_id (messages db))" by (simp add: queue_tables_ok_def)
  then show ?thesis using m unfolding find_message_def by (rule find_unique_key)
qed

section \<open>Transactions that move the hold state\<close>

text \<open>
  The contract of a transaction on the hold state of the message \<open>q\<close>: it does nothing, or rewrites a row that
  satisfies \<open>P\<close> by \<open>f\<close> and audits it; \<open>f\<close> keeps the identity of the row, makes a legal move and leaves a
  row that can be loaded.
\<close>

locale hold_transition =
  fixes X :: external and q :: string and tx :: "tx_ctx \<Rightarrow> db \<Rightarrow> (unit \<times> db) result"
    and P :: "MessageRow \<Rightarrow> bool" and f :: "tx_ctx \<Rightarrow> MessageRow \<Rightarrow> MessageRow"
  assumes tx_effect: "tx cx db = Inr ((), db') \<Longrightarrow> db' = db \<or> moved X q P (f cx) db db'"
    and f_identity: "row_identity (f cx m) = row_identity m"
    and f_legal: "P m \<Longrightarrow> legal_move (m_hold_state m) (m_hold_state (f cx m))"
    and f_loads: "P m \<Longrightarrow> loadParent X q m = Inr r \<Longrightarrow> check_message X (f cx m) \<Longrightarrow> \<exists>r'. loadParent X q (f cx m) = Inr r'"
begin

lemma keys: "map m_queue_id (map (\<lambda>m. if m_queue_id m = q \<and> P m then f cx m else m) ms) = map m_queue_id ms"
  using f_identity by (induction ms) (auto simp: row_identity_def)

lemma moved_find:
  assumes "moved X q P (f cx) db db'"
  shows "find_message db' q' = map_option (\<lambda>m. if m_queue_id m = q \<and> P m then f cx m else m) (find_message db q')"
proof -
  have "List.find (\<lambda>m. m_queue_id m = q') (map (\<lambda>m. if m_queue_id m = q \<and> P m then f cx m else m) ms)
    = map_option (\<lambda>m. if m_queue_id m = q \<and> P m then f cx m else m) (List.find (\<lambda>m. m_queue_id m = q') ms)" for ms
    using f_identity by (induction ms) (auto simp: row_identity_def)
  then show ?thesis using assms by (auto simp: moved_def find_message_def)
qed

lemma moved_rows:
  assumes "moved X q P (f cx) db db'"
  shows "recipient_rows X db' = recipient_rows X db" and "source_rows X db' = source_rows X db"
  using assms by (auto simp: moved_def recipient_rows_def source_rows_def fun_eq_iff)

lemma moved_tables:
  assumes "moved X q P (f cx) db db'" and "queue_tables_ok db"
  shows "queue_tables_ok db'" and "m_queue_id ` set (messages db') = m_queue_id ` set (messages db)"
proof -
  have k: "map m_queue_id (messages db') = map m_queue_id (messages db)"
    and o: "recipients db' = recipients db" "sources db' = sources db"
    using assms(1) keys by (auto simp: moved_def)
  show i: "m_queue_id ` set (messages db') = m_queue_id ` set (messages db)"
    using arg_cong [OF k, of set] by simp
  show "queue_tables_ok db'" using assms(2) unfolding queue_tables_ok_def k o i .
qed

lemma moved_load_other:
  assumes "moved X q P (f cx) db db'" and "q' \<noteq> q"
  shows "loadQueueRecord X db' q' = loadQueueRecord X db q'"
proof -
  have "find_message db' q' = find_message db q'"
    using moved_find [OF assms(1), of q'] assms(2) by (cases "find_message db q'") (auto dest: find_message_Some)
  then show ?thesis unfolding loadQueueRecord_def moved_rows [OF assms(1)] by simp
qed

lemma moved_load:
  assumes mv: "moved X q P (f cx) db db'" and inv: "queue_inv X db"
  obtains m r r' where "find_message db q = Some m" and "P m" and "find_message db' q = Some (f cx m)"
    and "loadQueueRecord X db q = Inr r" and "loadQueueRecord X db' q = Inr r'"
    and "provenance_of r' = provenance_of r" and "qr_hold_state r = m_hold_state m" and "qr_hold_state r' = m_hold_state (f cx m)"
proof -
  obtain m where m: "m \<in> set (messages db)" "m_queue_id m = q" "P m" "check_message X (f cx m)"
    using mv by (auto simp: moved_def)
  have find: "find_message db q = Some m"
    using find_message_unique [of db m] inv m(1,2) by (simp add: queue_inv_def)
  obtain r where r: "loadQueueRecord X db q = Inr r" using inv m(1,2) by (auto simp: queue_inv_def)
  have p: "loadParent X q m = Inr (r\<lparr>qr_recipients := [], qr_sources := []\<rparr>)"
    using loadQueueRecord_Inr [OF r] find by auto
  obtain r0 where r0: "loadParent X q (f cx m) = Inr r0" using f_loads [OF m(3) p m(4)] by blast
  have find': "find_message db' q = Some (f cx m)" using moved_find [OF mv, of q] find m(2,3) by simp
  have id: "m_fingerprint (f cx m) = m_fingerprint m" "m_sender (f cx m) = m_sender m"
    "m_recipient_digest (f cx m) = m_recipient_digest m" "m_source_digest (f cx m) = m_source_digest m"
    using f_identity [of cx m] by (simp_all add: row_identity_def)
  note pm = loadParent_Inr [OF p] and pf = loadParent_Inr [OF r0]
  have l: "loadQueueRecord X db' q = Inr (r0\<lparr>qr_recipients := qr_recipients r, qr_sources := qr_sources r\<rparr>)"
    by (rule load_replace [OF r find' r0 moved_rows [OF mv]]) (use pm pf id in auto)
  show thesis
    by (rule that [OF find m(3) find' r l]) (use pm pf id in \<open>auto simp: provenance_of_def\<close>)
qed

text \<open>Every such transaction keeps the invariant and is a step of the specification.\<close>

lemma tx_step:
  assumes inv: "queue_inv X db" and "tx cx db = Inr ((), db')"
  shows "queue_inv X db' \<and> abs_step (abs_of X db) (abs_of X db')"
proof -
  consider "db' = db" | "moved X q P (f cx) db db'" using tx_effect [OF assms(2)] by blast
  then show ?thesis
  proof cases
    case 1
    then show ?thesis using inv by (auto intro: abs_step.stutter)
  next
    case 2
    from moved_load [OF 2 inv] obtain m r r' where m: "P m" "loadQueueRecord X db q = Inr r" "loadQueueRecord X db' q = Inr r'"
      "provenance_of r' = provenance_of r" "qr_hold_state r = m_hold_state m" "qr_hold_state r' = m_hold_state (f cx m)"
      by metis
    have "\<exists>r. loadQueueRecord X db' q' = Inr r" if "q' \<in> m_queue_id ` set (messages db')" for q'
    proof (cases "q' = q")
      case False
      have "q' \<in> m_queue_id ` set (messages db)" using that moved_tables(2) [OF 2] inv by (simp add: queue_inv_def)
      then show ?thesis using inv moved_load_other [OF 2 False] by (auto simp: queue_inv_def)
    qed (use m in simp)
    then have "queue_inv X db'" using moved_tables(1) [OF 2] inv by (auto simp: queue_inv_def)
    moreover have "abs_of X db' = (abs_of X db)(q \<mapsto> (provenance_of r, m_hold_state (f cx m)))"
      using m moved_load_other [OF 2] by (auto simp: abs_of_def fun_eq_iff)
    moreover have "abs_of X db q = Some (provenance_of r, m_hold_state m)" using m by (simp add: abs_of_def)
    ultimately show ?thesis using abs_step.move f_legal [OF m(1)] by metis
  qed
qed

end

section \<open>Rows that load\<close>

definition parent_ok :: "external \<Rightarrow> string \<Rightarrow> MessageRow \<Rightarrow> bool" where
  "parent_ok X q m \<longleftrightarrow>
     m_queue_id m = q \<and> validLongQueueID q \<and> normalizeQueueSender X (m_sender m) = Inr (m_sender m)
     \<and> 0 \<le> m_attempts m \<and> validHoldState (m_hold_state m) \<and> validLowerHexDigest (m_fingerprint m)
     \<and> validLowerHexDigest (m_recipient_digest m) \<and> validLowerHexDigest (m_source_digest m)
     \<and> m_first_seen m \<noteq> 0 \<and> m_first_seen m \<le> m_updated m
     \<and> (\<forall>c. m_error_code m = Some c \<longrightarrow> validQueueErrorCode c)
     \<and> (if m_hold_state m = HoldPending then m_reason m = None \<and> m_revisions m = Some []
        else (\<exists>r. m_reason m = Some r \<and> validQueueReason r)
          \<and> (\<exists>revs canonical. m_revisions m = Some revs \<and> revs \<noteq> []
               \<and> canonicalPolicyRevisions X revs = Inr canonical \<and> revisionMapsEqual revs canonical))"

lemma loadParent_iff: "(\<exists>r. loadParent X q m = Inr r) \<longleftrightarrow> parent_ok X q m"
  unfolding loadParent_def parent_ok_def
  by (auto simp: validQueuePolicyState_def not_less split: option.splits sum.splits if_splits)

lemma check_error_code: "check_message X m \<Longrightarrow> m_error_code m = Some c \<Longrightarrow> validQueueErrorCode c"
  by (auto simp: check_message_def validQueueErrorCode_def error_code_char_def list_all_iff)

lemma check_times: "check_message X m \<Longrightarrow> 0 \<le> m_attempts m \<and> m_first_seen m \<le> m_updated m"
  by (simp add: check_message_def)

text \<open>A rewrite that keeps identity, reason and revisions and stays away from \<open>pending\<close>.\<close>

lemma parent_ok_rewrite:
  assumes "parent_ok X q m" and "m_hold_state m \<noteq> HoldPending" and "check_message X m'"
    and "row_identity m' = row_identity m" and "m_reason m' = m_reason m" and "m_revisions m' = m_revisions m"
    and "validHoldState (m_hold_state m')" and "m_hold_state m' \<noteq> HoldPending"
  shows "parent_ok X q m'"
  using assms check_error_code [OF assms(3)] check_times [OF assms(3)] by (auto simp: parent_ok_def row_identity_def)

section \<open>Revision maps\<close>

definition revisions_ok :: "external \<Rightarrow> revisions \<Rightarrow> bool" where
  "revisions_ok X revs \<longleftrightarrow>
     revs \<noteq> [] \<and> length revs \<le> maxGoverningDomains \<and> distinct (map fst revs)
     \<and> (\<forall>(d, v)\<in>set revs. NormalizeDomain X d = Inr d \<and> v \<noteq> 0)"

lemma canonicalRevisionsLoop_Inr:
  assumes X: "idna_lookup X"
  shows "canonicalRevisionsLoop X revs acc = Inr out \<Longrightarrow> distinct (map fst acc) \<Longrightarrow>
    \<forall>(d, v)\<in>set acc. NormalizeDomain X d = Inr d \<and> v \<noteq> 0 \<Longrightarrow>
    distinct (map fst out) \<and> (\<forall>(d, v)\<in>set out. NormalizeDomain X d = Inr d \<and> v \<noteq> 0)
    \<and> length out \<le> length acc + length revs \<and> (revs \<noteq> [] \<or> acc \<noteq> [] \<longrightarrow> out \<noteq> [])"
proof (induction revs arbitrary: acc)
  case (Cons p rest)
  obtain raw v where p: "p = (raw, v)" by fastforce
  from Cons.prems(1) obtain d where d: "NormalizeDomain X raw = Inr d" and v: "v \<noteq> 0"
    and rec: "canonicalRevisionsLoop X rest (AList.update d v acc) = Inr out"
    by (auto simp: p split: sum.splits if_splits)
  have dd: "NormalizeDomain X d = Inr d" by (rule NormalizeDomain_fixed [OF NormalizeDomain_canonical [OF X d]])
  have u: "set (AList.update d v acc) = insert (d, v) {p \<in> set acc. fst p \<noteq> d}"
    by (rule set_update_distinct [OF Cons.prems(2)])
  have len: "length (AList.update d v acc) \<le> Suc (length acc)" by (induction acc) auto
  have ne: "AList.update d v acc \<noteq> []" by (rule update_nonempty)
  have ok: "distinct (map fst (AList.update d v acc))"
    "\<forall>(d, v)\<in>set (AList.update d v acc). NormalizeDomain X d = Inr d \<and> v \<noteq> 0"
    using Cons.prems(2,3) dd v unfolding u by (auto simp: distinct_update)
  show ?case using Cons.IH [OF rec ok] len ne by auto
qed simp

lemma canonicalPolicyRevisions_ok:
  assumes "idna_lookup X" and "canonicalPolicyRevisions X revs = Inr out"
  shows "revisions_ok X out"
proof -
  have l: "canonicalRevisionsLoop X revs [] = Inr out" "revs \<noteq> []" "length revs \<le> maxGoverningDomains"
    using assms(2) by (auto simp: canonicalPolicyRevisions_def split: if_splits)
  then show ?thesis using canonicalRevisionsLoop_Inr [OF assms(1) l(1)] by (auto simp: revisions_ok_def)
qed

lemma canonicalRevisionsLoop_fixed:
  "distinct (map fst (acc @ revs)) \<Longrightarrow> \<forall>(d, v)\<in>set revs. NormalizeDomain X d = Inr d \<and> v \<noteq> 0 \<Longrightarrow>
   canonicalRevisionsLoop X revs acc = Inr (acc @ revs)"
proof (induction revs arbitrary: acc)
  case (Cons p rest)
  obtain d v where p: "p = (d, v)" by fastforce
  have n: "map_of acc d = None" using Cons.prems(1) by (auto simp: p map_of_eq_None_iff)
  have "canonicalRevisionsLoop X rest (acc @ [(d, v)]) = Inr ((acc @ [(d, v)]) @ rest)"
    using Cons.prems by (intro Cons.IH) (auto simp: p)
  then show ?case using Cons.prems(2) n update_new [OF n] by (simp add: p)
qed simp

lemma revisions_ok_canonical: "revisions_ok X revs \<Longrightarrow> canonicalPolicyRevisions X revs = Inr revs"
  using canonicalRevisionsLoop_fixed [of "[]" revs X] by (auto simp: revisions_ok_def canonicalPolicyRevisions_def)

lemma revisionMapsEqual_refl: "distinct (map fst revs) \<Longrightarrow> revisionMapsEqual revs revs"
  by (auto simp: revisionMapsEqual_def list_all_iff)

section \<open>The transactions meet the contract\<close>

text \<open>A transaction that its caller runs only under a condition.\<close>

definition guarded :: "bool \<Rightarrow> (tx_ctx \<Rightarrow> db \<Rightarrow> (unit \<times> db) result) \<Rightarrow> tx_ctx \<Rightarrow> db \<Rightarrow> (unit \<times> db) result" where
  "guarded ok tx cx db = (if ok then tx cx db else Inl SqlError)"

abbreviation attempt_row :: "HoldState \<Rightarrow> tx_ctx \<Rightarrow> MessageRow \<Rightarrow> MessageRow" where
  "attempt_row state cx m \<equiv>
     m\<lparr>m_hold_state := state, m_attempts := m_attempts m + 1, m_error_code := None, m_updated := cx_now cx\<rparr>"

abbreviation finish_row :: "HoldState \<Rightarrow> string \<Rightarrow> tx_ctx \<Rightarrow> MessageRow \<Rightarrow> MessageRow" where
  "finish_row state code cx m \<equiv> m\<lparr>m_hold_state := state, m_error_code := nullString code, m_updated := cx_now cx\<rparr>"

abbreviation require_row :: "Decision \<Rightarrow> revisions \<Rightarrow> tx_ctx \<Rightarrow> MessageRow \<Rightarrow> MessageRow" where
  "require_row decision revs cx m \<equiv>
     m\<lparr>m_hold_state := HoldRequired, m_reason := Some (dec_reason decision), m_revisions := Some revs,
       m_error_code := None, m_updated := cx_now cx\<rparr>"

lemma rewrite_loads:
  assumes "loadParent X q m = Inr r" and "m_hold_state m \<noteq> HoldPending" and "check_message X m'"
    and "row_identity m' = row_identity m" and "m_reason m' = m_reason m" and "m_revisions m' = m_revisions m"
    and "validHoldState (m_hold_state m')" and "m_hold_state m' \<noteq> HoldPending"
  shows "\<exists>r'. loadParent X q m' = Inr r'"
  unfolding loadParent_iff by (rule parent_ok_rewrite [OF _ assms(2-)]) (use assms(1) loadParent_iff in blast)

interpretation start_reconcile: hold_transition X "qr_queue_id r" "startReconciliation_tx X actor correlationID r"
  "\<lambda>m. m_hold_state m \<in> {HoldRequired, HoldReconciliationError, HoldReconciling, HoldApplied}" "attempt_row HoldReconciling"
  for X actor correlationID r
proof
  fix cx db db' assume "startReconciliation_tx X actor correlationID r cx db = Inr ((), db')"
  then show "db' = db \<or> moved X (qr_queue_id r)
      (\<lambda>m. m_hold_state m \<in> {HoldRequired, HoldReconciliationError, HoldReconciling, HoldApplied})
      (attempt_row HoldReconciling cx) db db'"
    unfolding startReconciliation_tx_def by (auto split: sum.splits prod.splits if_splits intro: update_audited_moved)
qed (auto simp: row_identity_def legal_move_def validHoldState_def intro!: rewrite_loads)

interpretation start_release: hold_transition X "qr_queue_id r" "startRelease_tx X actor correlationID r"
  "\<lambda>m. m_hold_state m \<in> {HoldApplied, HoldReleaseError, HoldReleaseReconciling}" "attempt_row HoldReleaseReconciling"
  for X actor correlationID r
proof
  fix cx db db' assume "startRelease_tx X actor correlationID r cx db = Inr ((), db')"
  then show "db' = db \<or> moved X (qr_queue_id r)
      (\<lambda>m. m_hold_state m \<in> {HoldApplied, HoldReleaseError, HoldReleaseReconciling})
      (attempt_row HoldReleaseReconciling cx) db db'"
    unfolding startRelease_tx_def by (auto split: sum.splits prod.splits if_splits intro: update_audited_moved)
qed (auto simp: row_identity_def legal_move_def validHoldState_def intro!: rewrite_loads)

interpretation finish_reconcile: hold_transition X "qr_queue_id r"
  "guarded (state = HoldApplied \<or> state = HoldReconciliationError) (finishReconciliation_tx X actor correlationID r state code)"
  "\<lambda>m. m_hold_state m = HoldReconciling \<and> (state = HoldApplied \<or> state = HoldReconciliationError)" "finish_row state code"
  for X actor correlationID r state code
proof
  fix cx db db'
  assume "guarded (state = HoldApplied \<or> state = HoldReconciliationError)
    (finishReconciliation_tx X actor correlationID r state code) cx db = Inr ((), db')"
  then have ok: "state = HoldApplied \<or> state = HoldReconciliationError"
    and f: "finishReconciliation_tx X actor correlationID r state code cx db = Inr ((), db')"
    by (auto simp: guarded_def split: if_splits)
  from f show "db' = db \<or> moved X (qr_queue_id r)
      (\<lambda>m. m_hold_state m = HoldReconciling \<and> (state = HoldApplied \<or> state = HoldReconciliationError)) (finish_row state code cx) db db'"
    unfolding finishReconciliation_tx_def
    by (simp only: ok simp_thms) (auto split: sum.splits prod.splits if_splits intro: update_audited_moved)
qed (auto simp: row_identity_def legal_move_def validHoldState_def intro!: rewrite_loads)

interpretation finish_release: hold_transition X "qr_queue_id r"
  "guarded (state = HoldReleased \<or> state = HoldReleaseError) (finishRelease_tx X actor correlationID r state code)"
  "\<lambda>m. m_hold_state m = HoldReleaseReconciling \<and> (state = HoldReleased \<or> state = HoldReleaseError)" "finish_row state code"
  for X actor correlationID r state code
proof
  fix cx db db'
  assume "guarded (state = HoldReleased \<or> state = HoldReleaseError)
    (finishRelease_tx X actor correlationID r state code) cx db = Inr ((), db')"
  then have ok: "state = HoldReleased \<or> state = HoldReleaseError"
    and f: "finishRelease_tx X actor correlationID r state code cx db = Inr ((), db')"
    by (auto simp: guarded_def split: if_splits)
  from f show "db' = db \<or> moved X (qr_queue_id r)
      (\<lambda>m. m_hold_state m = HoldReleaseReconciling \<and> (state = HoldReleased \<or> state = HoldReleaseError)) (finish_row state code cx) db db'"
    unfolding finishRelease_tx_def
    by (simp only: ok simp_thms) (auto split: sum.splits prod.splits if_splits intro: update_audited_moved)
qed (auto simp: row_identity_def legal_move_def validHoldState_def intro!: rewrite_loads)

text \<open>What \<open>RequireHold\<close> has checked before its transaction.\<close>

definition require_ok :: "external \<Rightarrow> Decision \<Rightarrow> revisions \<Rightarrow> bool" where
  "require_ok X decision revs \<longleftrightarrow> dec_reason decision = ReasonPolicyHold \<and> revisions_ok X revs"

lemma update_found:
  assumes "find_message db q = Some m" and "update_message X q (\<lambda>_. True) f db = Inr (n, db1)"
  shows "n \<noteq> 0"
proof -
  have "filter (\<lambda>m. m_queue_id m = q \<and> True) (messages db) \<noteq> []"
    using find_message_Some [OF assms(1)] by (auto simp: filter_empty_conv)
  then show ?thesis using assms(2) by (auto simp: update_message_def Let_def split: if_splits)
qed

lemma requireHold_tx_Inr:
  assumes "requireHold_tx X actor correlationID q decision revs cx db = Inr ((), db')"
  shows "db' = db \<and> (\<exists>m prior. find_message db q = Some m \<and> m_reason m = Some (dec_reason decision)
       \<and> m_revisions m = Some prior \<and> revisionMapsEqual prior revs
       \<and> m_hold_state m \<in> {HoldRequired, HoldReconciling, HoldApplied, HoldReconciliationError})
   \<or> moved X q (\<lambda>_. True) (require_row decision revs cx) db db'"
proof -
  obtain m prior where m: "find_message db q = Some m" "m_revisions m = Some prior"
    using assms by (auto simp: requireHold_tx_def Let_def split: option.splits if_splits)
  show ?thesis
  proof (cases "m_reason m = Some (dec_reason decision) \<and> revisionMapsEqual prior revs
      \<and> (m_hold_state m = HoldRequired \<or> m_hold_state m = HoldReconciling \<or> m_hold_state m = HoldApplied
         \<or> m_hold_state m = HoldReconciliationError)")
    case True
    then show ?thesis using assms m by (auto simp: requireHold_tx_def Let_def split: if_splits)
  next
    case False
    obtain n db1 e where u: "update_message X q (\<lambda>_. True) (require_row decision revs cx) db = Inr (n, db1)"
      and w: "WriteSQL (cx_rnd cx) (cx_now cx) e db1 = Inr db'"
      using assms m False by (auto simp: requireHold_tx_def Let_def split: if_splits sum.splits prod.splits)
    show ?thesis using update_audited_moved [OF u update_found [OF m(1) u] w] by blast
  qed
qed

interpretation require_hold: hold_transition X q
  "guarded (require_ok X decision revs) (requireHold_tx X actor correlationID q decision revs)"
  "\<lambda>_. require_ok X decision revs" "require_row decision revs"
  for X q actor correlationID decision revs
proof
  fix cx db db'
  assume "guarded (require_ok X decision revs) (requireHold_tx X actor correlationID q decision revs) cx db = Inr ((), db')"
  then have ok: "require_ok X decision revs" and f: "requireHold_tx X actor correlationID q decision revs cx db = Inr ((), db')"
    by (auto simp: guarded_def split: if_splits)
  show "db' = db \<or> moved X q (\<lambda>_. require_ok X decision revs) (require_row decision revs cx) db db'"
    using requireHold_tx_Inr [OF f] ok by auto
next
  fix m r cx
  assume ok: "require_ok X decision revs" and p: "loadParent X q m = Inr r" and c: "check_message X (require_row decision revs cx m)"
  have pm: "parent_ok X q m" using p loadParent_iff by blast
  have r: "canonicalPolicyRevisions X revs = Inr revs" "revisionMapsEqual revs revs" "revs \<noteq> []" "dec_reason decision = ReasonPolicyHold"
    using ok revisions_ok_canonical revisionMapsEqual_refl by (auto simp: require_ok_def revisions_ok_def)
  have "parent_ok X q (require_row decision revs cx m)"
    using pm r check_times [OF c] by (auto simp: parent_ok_def validHoldState_def validQueueReason_def)
  then show "\<exists>r'. loadParent X q (require_row decision revs cx m) = Inr r'" using loadParent_iff by blast
qed (auto simp: row_identity_def legal_move_def)

section \<open>Arrival\<close>

lemma mapR_members: "mapR g xs = Inr ys \<Longrightarrow> y \<in> set ys \<Longrightarrow> \<exists>x\<in>set xs. g x = Inr y"
  by (induction xs arbitrary: ys) (auto split: sum.splits)

text \<open>One message is appended with its child rows.\<close>

definition appended :: "external \<Rightarrow> string \<Rightarrow> db \<Rightarrow> db \<Rightarrow> bool" where
  "appended X q db db' \<longleftrightarrow>
     (\<exists>m rs ss. m_queue_id m = q \<and> m_hold_state m = HoldPending \<and> find_message db q = None
        \<and> fst ` set rs \<subseteq> {q} \<and> fst ` set ss \<subseteq> {q}
        \<and> distinct (map (\<lambda>(q, r, d). (q, r)) (recipients db @ rs)) \<and> distinct (sources db @ ss)
        \<and> db' = db\<lparr>messages := messages db @ [m], recipients := recipients db @ rs, sources := sources db @ ss\<rparr>
        \<and> (\<exists>r. loadQueueRecord X db' q = Inr r))"

lemma register_tx_Inr:
  assumes "register_tx X r now db = Inr ((stored, created), db')"
  shows "sameQueueIdentity stored r" and "loadQueueRecord X db' (qr_queue_id r) = Inr stored"
    and "if created then appended X (qr_queue_id r) db db' else db' = db"
proof -
  obtain n db1 db2 where i: "insert_message X (message_of r now) db = Inr (n, db1)"
    and c: "(if n = 1 then bindR (copyQueueRecipients X r db1) (copyQueueSources X r) else Inr db1) = Inr db'"
    and l: "loadQueueRecord X db' (qr_queue_id r) = Inr stored" and s: "sameQueueIdentity stored r" and cr: "created \<longleftrightarrow> n = 1"
    using assms by (auto simp: register_tx_def Let_def split: sum.splits prod.splits if_splits)
  show "sameQueueIdentity stored r" "loadQueueRecord X db' (qr_queue_id r) = Inr stored" by fact+
  show "if created then appended X (qr_queue_id r) db db' else db' = db"
  proof (cases "n = 1")
    case True
    then have f: "find_message db (qr_queue_id r) = None" "db1 = db\<lparr>messages := messages db @ [message_of r now]\<rparr>"
      using i by (auto simp: insert_message_def message_of_def split: if_splits)
    obtain db2 where c2: "copyQueueRecipients X r db1 = Inr db2" "copyQueueSources X r db2 = Inr db'"
      using c True by (auto simp: bindR_def split: sum.splits)
    obtain rows where rows: "mapR (\<lambda>recipient. case normalizeQueueRecipient X recipient of Inl e \<Rightarrow> Inl e
          | Inr (_, domain) \<Rightarrow> Inr (qr_queue_id r, recipient, domain)) (qr_recipients r) = Inr rows"
      and cp: "copy_recipients X rows db1 = Inr db2"
      using c2(1) by (auto simp: copyQueueRecipients_def split: sum.splits)
    have "fst row = qr_queue_id r" if row: "row \<in> set rows" for row
    proof -
      obtain x where "(case normalizeQueueRecipient X x of Inl e \<Rightarrow> Inl e
          | Inr (_, domain) \<Rightarrow> Inr (qr_queue_id r, x, domain)) = Inr row"
        using mapR_members [OF rows row] by blast
      then show ?thesis by (cases "normalizeQueueRecipient X x") (auto split: prod.splits)
    qed
    then have q: "fst ` set rows \<subseteq> {qr_queue_id r}"
      "fst ` set (map (\<lambda>s. (qr_queue_id r, src_kind s, src_object s)) (qr_sources r)) \<subseteq> {qr_queue_id r}"
      by auto
    have db2: "db2 = db1\<lparr>recipients := recipients db1 @ rows\<rparr>" "distinct (map (\<lambda>(q, r, d). (q, r)) (recipients db1 @ rows))"
      using cp unfolding copy_recipients_def Let_def by (auto split: if_splits)
    have db': "db' = db2\<lparr>sources := sources db2 @ map (\<lambda>s. (qr_queue_id r, src_kind s, src_object s)) (qr_sources r)\<rparr>"
      "distinct (sources db2 @ map (\<lambda>s. (qr_queue_id r, src_kind s, src_object s)) (qr_sources r))"
      using c2(2) unfolding copyQueueSources_def copy_sources_def by (auto split: if_splits)
    have "appended X (qr_queue_id r) db db'"
      unfolding appended_def
      by (rule exI [of _ "message_of r now"], rule exI [of _ rows],
          rule exI [of _ "map (\<lambda>s. (qr_queue_id r, src_kind s, src_object s)) (qr_sources r)"])
        (use q f db2 db' l in \<open>simp add: message_of_def\<close>)
    then show ?thesis using cr True by simp
  qed (use i c cr in \<open>auto simp: insert_message_def split: if_splits\<close>)
qed


lemma appended_step:
  assumes inv: "queue_inv X db" and ap: "appended X q db db'"
  shows "queue_inv X db' \<and> abs_step (abs_of X db) (abs_of X db')"
proof -
  obtain m rs ss r where m: "m_queue_id m = q" "m_hold_state m = HoldPending" "find_message db q = None"
    and q: "fst ` set rs \<subseteq> {q}" "fst ` set ss \<subseteq> {q}"
    and d: "distinct (map (\<lambda>(q, r, d). (q, r)) (recipients db @ rs))" "distinct (sources db @ ss)"
    and db': "db' = db\<lparr>messages := messages db @ [m], recipients := recipients db @ rs, sources := sources db @ ss\<rparr>"
    and l: "loadQueueRecord X db' q = Inr r"
    using ap by (auto simp: appended_def)
  have other: "loadQueueRecord X db' q' = loadQueueRecord X db q'" if n: "q' \<noteq> q" for q'
  proof -
    have e: "filter (\<lambda>row. fst row = q') rs = []" "filter (\<lambda>row. fst row = q') ss = []"
      using q n by (auto simp: filter_empty_conv)
    have "find_message db' q' = find_message db q'"
      using n m(1) by (simp add: db' find_message_def find_append split: option.split)
    moreover have "recipient_rows X db' q' = recipient_rows X db q'" "source_rows X db' q' = source_rows X db q'"
      using e by (simp_all add: db' recipient_rows_def source_rows_def)
    ultimately show ?thesis unfolding loadQueueRecord_def by (simp only:)
  qed
  have nq: "q \<notin> m_queue_id ` set (messages db)" using m(3) by (simp add: find_message_None)
  have "queue_tables_ok db'"
    using inv d nq m(1) q unfolding queue_inv_def queue_tables_ok_def db' by (auto simp: image_Un)
  moreover have "\<exists>r. loadQueueRecord X db' (m_queue_id m') = Inr r" if "m' \<in> set (messages db')" for m'
  proof (cases "m_queue_id m' = q")
    case False
    then have "m' \<in> set (messages db)" using that m(1) by (auto simp: db')
    then show ?thesis using inv other [OF False] by (auto simp: queue_inv_def)
  qed (use l in simp)
  ultimately have "queue_inv X db'" by (simp add: queue_inv_def)
  moreover have "abs_of X db' = (abs_of X db)(q \<mapsto> (provenance_of r, HoldPending))"
  proof -
    have "find_message db' q = Some m" using m(1,3) by (simp add: db' find_message_def find_append)
    then have "qr_hold_state r = HoldPending"
      using loadQueueRecord_Inr [OF l] m(2) loadParent_Inr by fastforce
    then show ?thesis using l other by (auto simp: abs_of_def fun_eq_iff)
  qed
  moreover have "abs_of X db q = None" using nq load_known by (auto simp: abs_of_def split: sum.splits)
  ultimately show ?thesis using abs_step.arrive by metis
qed

section \<open>Steps\<close>

text \<open>
  The transactions of the program that touch the queue tables, with what their callers have checked, and changes of
  the other tables.
\<close>

inductive queue_step :: "external \<Rightarrow> db \<Rightarrow> db \<Rightarrow> bool" for X where
  register: "register_tx X r now db = Inr ((stored, created), db') \<Longrightarrow> queue_step X db db'"
| require: "revisions_ok X revs \<Longrightarrow> dec_reason decision = ReasonPolicyHold \<Longrightarrow>
    requireHold_tx X actor correlationID q decision revs cx db = Inr ((), db') \<Longrightarrow> queue_step X db db'"
| start_reconciliation: "startReconciliation_tx X actor correlationID r cx db = Inr ((), db') \<Longrightarrow> queue_step X db db'"
| finish_reconciliation: "state = HoldApplied \<or> state = HoldReconciliationError \<Longrightarrow>
    finishReconciliation_tx X actor correlationID r state code cx db = Inr ((), db') \<Longrightarrow> queue_step X db db'"
| start_release: "startRelease_tx X actor correlationID r cx db = Inr ((), db') \<Longrightarrow> queue_step X db db'"
| finish_release: "state = HoldReleased \<or> state = HoldReleaseError \<Longrightarrow>
    finishRelease_tx X actor correlationID r state code cx db = Inr ((), db') \<Longrightarrow> queue_step X db db'"
| other_tables: "messages db' = messages db \<Longrightarrow> recipients db' = recipients db \<Longrightarrow> sources db' = sources db \<Longrightarrow>
    audit_events db' = audit_events db @ events \<Longrightarrow> queue_step X db db'"

lemma other_tables_abs:
  assumes "messages db' = messages db" and "recipients db' = recipients db" and "sources db' = sources db"
  shows "loadQueueRecord X db' = loadQueueRecord X db" and "queue_tables_ok db' \<longleftrightarrow> queue_tables_ok db"
proof -
  show "loadQueueRecord X db' = loadQueueRecord X db"
  proof
    fix q show "loadQueueRecord X db' q = loadQueueRecord X db q"
      unfolding loadQueueRecord_def find_message_def recipient_rows_def source_rows_def assms ..
  qed
  show "queue_tables_ok db' \<longleftrightarrow> queue_tables_ok db" by (simp add: queue_tables_ok_def assms)
qed

lemma queue_step_refines:
  assumes "queue_step X db db'" and "queue_inv X db"
  shows "queue_inv X db' \<and> abs_step (abs_of X db) (abs_of X db')"
  using assms
proof cases
  case (register r now stored created)
  show ?thesis
  proof (cases created)
    case True
    then show ?thesis using register_tx_Inr(3) [OF register] appended_step [OF assms(2)] by simp
  next
    case False
    then show ?thesis using register_tx_Inr(3) [OF register] assms(2) by (auto intro: abs_step.stutter)
  qed
next
  case (require revs decision actor correlationID q cx)
  then show ?thesis
    using require_hold.tx_step [OF assms(2), of decision revs actor correlationID q cx db']
    by (simp add: guarded_def require_ok_def)
next
  case (start_reconciliation actor correlationID r cx)
  then show ?thesis by (rule start_reconcile.tx_step [OF assms(2)])
next
  case (finish_reconciliation state actor correlationID r code cx)
  then show ?thesis
    using finish_reconcile.tx_step [OF assms(2), of state actor correlationID r code cx db'] by (simp add: guarded_def)
next
  case (start_release actor correlationID r cx)
  then show ?thesis by (rule start_release.tx_step [OF assms(2)])
next
  case (finish_release state actor correlationID r code cx)
  then show ?thesis
    using finish_release.tx_step [OF assms(2), of state actor correlationID r code cx db'] by (simp add: guarded_def)
next
  case (other_tables events)
  note o = other_tables_abs [OF other_tables(1-3)]
  have "abs_of X db' = abs_of X db" by (simp add: abs_of_def fun_eq_iff o)
  then show ?thesis using assms(2) other_tables(1) by (auto simp: queue_inv_def o intro: abs_step.stutter)
qed

interpretation queue_system: invariant_system "\<lambda>db. db = empty_db" "queue_step X" "queue_inv X" for X
  by unfold_locales (auto simp: queue_inv_empty dest: queue_step_refines)

section \<open>Properties\<close>



end
