(* ===== verification/Activation.thy ===== *)
theory Activation
  imports Release
begin

text \<open>
  \<^verbatim>\<open>internal/outboundpolicy/admin.go\<close>: the plan of a change of the outbound scope of a domain with its confirmation
  digest, the transaction that applies it, and the activation that puts the affected messages on hold.
\<close>

section \<open>Data\<close>

record Impact =
  im_aliases :: nat
  im_external :: nat
  im_queued :: nat

record ChangePlan =
  cp_digest :: string
  cp_domain_id :: string
  cp_domain :: string
  cp_current :: Scope
  cp_requested :: Scope
  cp_revision :: u64
  cp_impact :: Impact
  cp_state_digest :: string
  cp_affected :: "string list"

record ActivationReconciliation =
  ar_selected :: nat
  ar_held :: nat
  ar_already_held :: nat
  ar_no_longer_blocked :: nat
  ar_failed :: nat

record ChangeResult =
  ch_plan :: ChangePlan
  ch_changed :: bool
  ch_reconciliation :: "ActivationReconciliation option"

definition maxPolicyAliases :: nat where "maxPolicyAliases = 100000"
definition maxAliasTargetJSONBytes :: nat where "maxAliasTargetJSONBytes = 1048576"
definition maxAliasTargets :: nat where "maxAliasTargets = 10000"
definition maxPolicyTargetBytes :: nat where "maxPolicyTargetBytes = 67108864"
definition maxPolicyQueuedRecipients :: nat where "maxPolicyQueuedRecipients = 1000000"

section \<open>State digests\<close>

text \<open>A running \<open>hash.Hash\<close> is the bytes written to it so far.\<close>

definition writePolicyStateDigest :: "string \<Rightarrow> string list \<Rightarrow> string" where
  "writePolicyStateDigest digest values = fold (\<lambda>v d. (d @ be64 (length v)) @ v) values digest"

definition newPolicyStateDigest :: "string \<Rightarrow> string" where
  "newPolicyStateDigest contract = writePolicyStateDigest [] [contract]"

definition digest_sum :: "string \<Rightarrow> string" where
  "digest_sum digest = hex_encode (sha256 digest)"

definition equalPlanDigest :: "string \<Rightarrow> string \<Rightarrow> bool" where
  "equalPlanDigest expected actual =
     (if length expected \<noteq> 64 \<or> length actual \<noteq> 64 then False
      else case (hex_decode expected, hex_decode actual) of
        (Some left, Some right) \<Rightarrow> length left = 32 \<and> length right = 32 \<and> left = right
      | _ \<Rightarrow> False)"

section \<open>The plan as JSON\<close>

text \<open>
  \<open>json.Marshal\<close> of a string, with the HTML-safe escapes: a byte below 0x80 is written as it is, with a
  backslash, or in hexadecimal; a malformed byte becomes U+FFFD; U+2028 and U+2029 are escaped.
\<close>

definition json_safe :: "char \<Rightarrow> bool" where
  "json_safe c \<longleftrightarrow> 32 \<le> byte c \<and> byte c < 128 \<and> c \<notin> {CHR 0x22, CHR 0x5C, CHR ''<'', CHR ''>'', CHR ''&''}"

definition json_byte :: "char \<Rightarrow> string" where
  "json_byte c =
     (if json_safe c then [c]
      else if c = CHR 0x22 \<or> c = CHR 0x5C then [CHR 0x5C, c]
      else if byte c = 8 then [CHR 0x5C, CHR ''b'']
      else if byte c = 12 then [CHR 0x5C, CHR ''f'']
      else if byte c = 10 then [CHR 0x5C, CHR ''n'']
      else if byte c = 13 then [CHR 0x5C, CHR ''r'']
      else if byte c = 9 then [CHR 0x5C, CHR ''t'']
      else CHR 0x5C # ''u00'' @ [hex_digit (byte c div 16), hex_digit (byte c mod 16)])"

function json_chars :: "string \<Rightarrow> string" where
  "json_chars s =
     (case s of [] \<Rightarrow> []
      | c # t \<Rightarrow>
          if byte c < 0x80 then json_byte c @ json_chars t
          else if rune_len s = 0 then CHR 0x5C # ''ufffd'' @ json_chars t
          else
            let n = rune_len s; rune = take n s in
            (if rune = [CHR 0xE2, CHR 0x80, CHR 0xA8] then CHR 0x5C # ''u2028''
             else if rune = [CHR 0xE2, CHR 0x80, CHR 0xA9] then CHR 0x5C # ''u2029''
             else rune) @ json_chars (drop n s))"
  by pat_completeness auto
termination
proof (relation "measure length")
  show "wf (measure (length :: string \<Rightarrow> nat))" by simp
next
  fix s t :: string and c :: char assume "s = c # t"
  then show "(t, s) \<in> measure length" by simp
next
  fix s t :: string and c :: char assume "s = c # t"
  then show "(t, s) \<in> measure length" by simp
next
  fix s t :: string and c :: char and n :: nat and r :: string
  assume "s = c # t" and "rune_len s \<noteq> 0" and "n = rune_len s" and "r = take n s"
  then show "(drop n s, s) \<in> measure length" by simp
qed

declare json_chars.simps [simp del]

definition json_text :: "string \<Rightarrow> string" where
  "json_text s = CHR 0x22 # json_chars s @ [CHR 0x22]"

definition json_name :: "string \<Rightarrow> string" where
  "json_name s = CHR 0x22 # s @ [CHR 0x22] @ '':''"

definition json_impact :: "Impact \<Rightarrow> string" where
  "json_impact i =
     ''{'' @ json_name ''aliases'' @ FormatUint (im_aliases i) @ '','' @ json_name ''external_targets''
     @ FormatUint (im_external i) @ '','' @ json_name ''queued_recipients'' @ FormatUint (im_queued i) @ ''}''"

definition plan_payload :: "ChangePlan \<Rightarrow> string" where
  "plan_payload plan =
     ''{'' @ json_name ''contract'' @ json_text ''gotth-mail/outbound-policy-plan/v2''
     @ '','' @ json_name ''domain_id'' @ json_text (cp_domain_id plan)
     @ '','' @ json_name ''domain'' @ json_text (cp_domain plan)
     @ '','' @ json_name ''current_scope'' @ json_text (cp_current plan)
     @ '','' @ json_name ''requested_scope'' @ json_text (cp_requested plan)
     @ '','' @ json_name ''revision'' @ FormatUint (unat (cp_revision plan))
     @ '','' @ json_name ''impact'' @ json_impact (cp_impact plan)
     @ '','' @ json_name ''state_digest'' @ json_text (cp_state_digest plan) @ ''}''"

definition planDigest :: "ChangePlan \<Rightarrow> string result" where
  "planDigest plan =
     (if \<not> validLowerHexDigest (cp_state_digest plan) then Inl (Err ''invalid outbound policy state digest'')
      else Inr (hex_encode (sha256 (plan_payload plan))))"

section \<open>The state a change affects\<close>

text \<open>
  A \<open>policyQueryer\<close>: the database that the next statement sees. On a handle every statement has its
  own; in a transaction they share one.
\<close>

type_synonym 's queryer = "'s \<Rightarrow> db result \<times> 's"

definition on_handle :: "'p world queryer" where
  "on_handle w = run_query Inr w"

definition in_tx :: "db queryer" where
  "in_tx db = (Inr db, db)"

definition alias_query :: "db \<Rightarrow> string \<Rightarrow> AliasRow list" where
  "alias_query db domainID =
     take (maxPolicyAliases + 1)
       (order_by (\<lambda>a b. al_id a \<le> al_id b) (filter (\<lambda>a. al_domain a = domainID \<and> al_enabled a) (aliases db)))"

text \<open>The targets of one alias outside the domain.\<close>

fun externalTargets :: "external \<Rightarrow> string \<Rightarrow> string list \<Rightarrow> nat result" where
  "externalTargets X domain [] = Inr 0"
| "externalTargets X domain (t # ts) =
     (case recipientDomain X t of
        Inl _ \<Rightarrow> Inl (Err ''stored alias target is invalid'')
      | Inr targetDomain \<Rightarrow>
         (case externalTargets X domain ts of
            Inl e \<Rightarrow> Inl e
          | Inr n \<Rightarrow> Inr (if targetDomain \<noteq> domain then Suc n else n)))"

fun aliasLoop ::
  "external \<Rightarrow> string \<Rightarrow> AliasRow list \<Rightarrow> nat \<Rightarrow> nat \<Rightarrow> Impact \<Rightarrow> string \<Rightarrow> (Impact \<times> string) result"
where
  "aliasLoop X domain [] seen used impact digest = Inr (impact, digest)"
| "aliasLoop X domain (a # rest) seen used impact digest =
     (let encodedBytes = length (al_json a) in
      if seen + 1 > maxPolicyAliases then Inl (Err ''outbound policy alias limit exceeded'')
      else if \<not> validQueueObjectID (al_id a) \<or> al_local a = [] \<or> encodedBytes > maxAliasTargetJSONBytes
              \<or> int used > int maxPolicyTargetBytes - int encodedBytes
      then Inl (Err ''outbound policy alias target data limit exceeded'')
      else case al_targets a of
        None \<Rightarrow> Inl (Err ''stored alias targets are invalid'')
      | Some targets \<Rightarrow>
          if length targets = 0 \<or> length targets > maxAliasTargets
          then Inl (Err ''stored alias targets are invalid'')
          else case externalTargets X domain targets of
            Inl e \<Rightarrow> Inl e
          | Inr n \<Rightarrow>
              aliasLoop X domain rest (seen + 1) (used + encodedBytes)
                (if n > 0 then impact\<lparr>im_aliases := im_aliases impact + 1, im_external := im_external impact + n\<rparr> else impact)
                (writePolicyStateDigest digest [al_id a, al_local a, al_json a]))"

definition loadAliasImpact :: "external \<Rightarrow> 's queryer \<Rightarrow> string \<Rightarrow> string \<Rightarrow> 's \<Rightarrow> (Impact \<times> string) result \<times> 's" where
  "loadAliasImpact X queryer domainID domain s =
     (case queryer s of
        (Inl e, s1) \<Rightarrow> (Inl e, s1)
      | (Inr db, s1) \<Rightarrow>
         (case aliasLoop X domain (alias_query db domainID) 0 0 \<lparr>im_aliases = 0, im_external = 0, im_queued = 0\<rparr>
             (newPolicyStateDigest ''gotth-mail/outbound-policy-alias-state/v1'') of
            Inl e \<Rightarrow> (Inl e, s1)
          | Inr (impact, digest) \<Rightarrow> (Inr (impact, digest_sum digest), s1)))"

text \<open>The messages not yet released, and the number of their sources that name no object.\<close>

definition active_messages :: "db \<Rightarrow> MessageRow list" where
  "active_messages db = filter (\<lambda>m. m_hold_state m \<noteq> ''released'') (messages db)"

definition unresolved_query :: "db \<Rightarrow> nat" where
  "unresolved_query db =
     length (concat (map (\<lambda>(q, k, i). if source_owner db (QueueSource k i) = None
                                     then filter (\<lambda>m. m_queue_id m = q) (active_messages db) else []) (sources db)))"

definition bound_to :: "db \<Rightarrow> string \<Rightarrow> SourceRow \<Rightarrow> bool" where
  "bound_to db domainID row =
     (case row of (q, k, i) \<Rightarrow>
       (case source_owner db (QueueSource k i) of None \<Rightarrow> False | Some (_, d) \<Rightarrow> d = domainID))"

type_synonym queue_row = "MessageRow \<times> string"

definition queue_query :: "external \<Rightarrow> db \<Rightarrow> string \<Rightarrow> string \<Rightarrow> queue_row list" where
  "queue_query X db domainID domain =
     order_by (\<lambda>(m, r) (m', r'). if m_queue_id m = m_queue_id m' then collate X r r' else collate X (m_queue_id m) (m_queue_id m'))
       (concat (map (\<lambda>(q, r, d). map (\<lambda>m. (m, r))
          (filter (\<lambda>m. m_queue_id m = q \<and> d \<noteq> domain
                      \<and> list_ex (\<lambda>row. fst row = q \<and> bound_to db domainID row) (sources db)) (active_messages db)))
        (recipients db)))"

fun queueLoop ::
  "external \<Rightarrow> string \<Rightarrow> queue_row list \<Rightarrow> nat \<Rightarrow> string list \<Rightarrow> string \<Rightarrow> string \<Rightarrow> (nat \<times> string \<times> string list) result"
where
  "queueLoop X domain [] count queueIDs lastQueueID digest = Inr (count, digest, queueIDs)"
| "queueLoop X domain ((m, recipient) # rest) count queueIDs lastQueueID digest =
     (if count \<ge> maxPolicyQueuedRecipients then Inl (Err ''outbound queue recipient impact limit exceeded'')
      else if \<not> validLongQueueID (m_queue_id m) \<or> \<not> validLowerHexDigest (m_fingerprint m)
              \<or> \<not> validLowerHexDigest (m_recipient_digest m) \<or> \<not> validLowerHexDigest (m_source_digest m)
              \<or> (case normalizeQueueRecipient X recipient of Inl _ \<Rightarrow> True
                 | Inr (canonical, rd) \<Rightarrow> canonical \<noteq> recipient \<or> rd = domain)
      then Inl (Err ''active outbound queue state is invalid'')
      else queueLoop X domain rest (count + 1)
        (if m_queue_id m \<noteq> lastQueueID then queueIDs @ [m_queue_id m] else queueIDs) (m_queue_id m)
        (writePolicyStateDigest digest
           [m_queue_id m, m_fingerprint m, m_recipient_digest m, m_source_digest m, recipient]))"

definition loadQueuedRecipientImpact ::
  "external \<Rightarrow> 's queryer \<Rightarrow> string \<Rightarrow> string \<Rightarrow> 's \<Rightarrow> (nat \<times> string \<times> string list) result \<times> 's"
where
  "loadQueuedRecipientImpact X queryer domainID domain s =
     (case queryer s of
        (Inl e, s1) \<Rightarrow> (Inl e, s1)
      | (Inr db, s1) \<Rightarrow>
          if unresolved_query db \<noteq> 0
          then (Inl (Err ''active outbound queue contains unresolved policy sources''), s1)
          else case queryer s1 of
            (Inl e, s2) \<Rightarrow> (Inl e, s2)
          | (Inr db', s2) \<Rightarrow>
             (case queueLoop X domain (queue_query X db' domainID domain) 0 [] []
                 (newPolicyStateDigest ''gotth-mail/outbound-policy-queue-state/v1'') of
                Inl e \<Rightarrow> (Inl e, s2)
              | Inr (count, digest, queueIDs) \<Rightarrow> (Inr (count, digest_sum digest, queueIDs), s2)))"

text \<open>The plan from the domain row, once the impact is known.\<close>

definition finishPlan :: "DomainRow \<Rightarrow> Scope \<Rightarrow> Impact \<Rightarrow> string \<Rightarrow> nat \<times> string \<times> string list \<Rightarrow> ChangePlan result" where
  "finishPlan d requested impact aliasDigest queued =
     (case queued of (count, queueDigest, queueIDs) \<Rightarrow>
        let plan = \<lparr>cp_digest = [], cp_domain_id = d_id d, cp_domain = d_name d, cp_current = d_scope d,
                    cp_requested = requested, cp_revision = of_int (d_revision d),
                    cp_impact = impact\<lparr>im_queued := count\<rparr>,
                    cp_state_digest = digestStrings [''gotth-mail/outbound-policy-state/v1'', aliasDigest, queueDigest],
                    cp_affected = queueIDs\<rparr> in
        (case planDigest plan of Inl e \<Rightarrow> Inl e | Inr digest \<Rightarrow> Inr (plan\<lparr>cp_digest := digest\<rparr>)))"

definition loadChangePlan :: "external \<Rightarrow> 's queryer \<Rightarrow> string \<Rightarrow> Scope \<Rightarrow> 's \<Rightarrow> ChangePlan result \<times> 's" where
  "loadChangePlan X queryer rawDomain requested s =
     (if \<not> validScope requested then (Inl (Err ''invalid outbound scope''), s)
      else case NormalizeDomain X rawDomain of
        Inl e \<Rightarrow> (Inl e, s)
      | Inr domain \<Rightarrow>
         (case queryer s of
            (Inl e, s1) \<Rightarrow> (Inl e, s1)
          | (Inr db, s1) \<Rightarrow>
             (case List.find (\<lambda>d. d_name d = domain \<and> d_enabled d) (domains db) of
                None \<Rightarrow> (Inl (Err ''enabled domain not found''), s1)
              | Some d \<Rightarrow>
                  if d_revision d < 0 then (Inl SqlError, s1)
                  else if \<not> validScope (d_scope d) \<or> d_revision d = 0
                  then (Inl (Err ''stored outbound policy state is invalid''), s1)
                  else case loadAliasImpact X queryer (d_id d) (d_name d) s1 of
                    (Inl e, s2) \<Rightarrow> (Inl e, s2)
                  | (Inr (impact, aliasDigest), s2) \<Rightarrow>
                     (case loadQueuedRecipientImpact X queryer (d_id d) (d_name d) s2 of
                        (Inl e, s3) \<Rightarrow> (Inl e, s3)
                      | (Inr queued, s3) \<Rightarrow> (finishPlan d requested impact aliasDigest queued, s3)))))"

definition Preview_change :: "external \<Rightarrow> string \<Rightarrow> Scope \<Rightarrow> ('p, ChangePlan) prog" where
  "Preview_change X domain requested = loadChangePlan X on_handle domain requested"

section \<open>Applying a change\<close>

text \<open>\<open>UPDATE domains SET ... WHERE id=... AND outbound_policy_revision=...\<close>, with the number of rows.\<close>

definition update_domain :: "string \<Rightarrow> int \<Rightarrow> (DomainRow \<Rightarrow> DomainRow) \<Rightarrow> db \<Rightarrow> (nat \<times> db) result" where
  "update_domain i revision f db =
     (let hit = (\<lambda>d. d_id d = i \<and> d_revision d = revision) in
      if list_all (\<lambda>d. hit d \<longrightarrow> check_domain (f d)) (domains db)
      then Inr (length (filter hit (domains db)), db\<lparr>domains := map (\<lambda>d. if hit d then f d else d) (domains db)\<rparr>)
      else Inl SqlError)"

definition scope_event :: "int \<Rightarrow> ActorRef \<Rightarrow> string \<Rightarrow> ChangePlan \<Rightarrow> Event" where
  "scope_event now actor correlationID plan =
     \<lparr>ev_id = [], ev_time = now, ev_actor = actor, ev_source = None, ev_action = ''domain.outbound_scope.update'',
      ev_resource = \<lparr>res_type = ''domain'', res_id = cp_domain_id plan\<rparr>,
      ev_before = JObj [(''scope'', JStr (cp_current plan)), (''revision'', JNum (uint (cp_revision plan)))],
      ev_after = JObj [(''scope'', JStr (cp_requested plan)), (''revision'', JNum (uint (cp_revision plan + 1))),
                       (''confirmation_digest'', JStr (cp_digest plan)),
                       (''impact'', JObj [(''aliases'', JNum (int (im_aliases (cp_impact plan)))),
                                         (''external_targets'', JNum (int (im_external (cp_impact plan)))),
                                         (''queued_recipients'', JNum (int (im_queued (cp_impact plan))))])],
      ev_correlation = correlationID, ev_result = ''success'', ev_error_code = []\<rparr>"

definition applyChange_tx ::
  "external \<Rightarrow> ActorRef \<Rightarrow> string \<Rightarrow> string \<Rightarrow> Scope \<Rightarrow> string \<Rightarrow> tx_ctx \<Rightarrow> db \<Rightarrow> ((ChangePlan \<times> bool) \<times> db) result"
where
  "applyChange_tx X actor correlationID domain requested confirmation cx db =
     (case fst (loadChangePlan X in_tx domain requested db) of
        Inl e \<Rightarrow> Inl e
      | Inr plan \<Rightarrow>
          if \<not> equalPlanDigest (cp_digest plan) confirmation
          then Inl (Err ''confirmation digest does not match current outbound policy state'')
          else if cp_current plan = cp_requested plan then Inr ((plan, False), db)
          else case update_domain (cp_domain_id plan) (uint (cp_revision plan))
              (\<lambda>d. d\<lparr>d_scope := cp_requested plan, d_revision := d_revision d + 1, d_updated := cx_now cx\<rparr>) db of
            Inl e \<Rightarrow> Inl e
          | Inr (affected, db1) \<Rightarrow>
              if affected \<noteq> 1 then Inl (Err ''outbound policy revision changed'')
              else case WriteSQL (cx_rnd cx) (cx_now cx) (scope_event (cx_now cx) actor correlationID plan) db1 of
                Inl e \<Rightarrow> Inl e
              | Inr db2 \<Rightarrow> Inr ((plan, True), db2))"

definition Apply_change ::
  "external \<Rightarrow> ActorRef \<Rightarrow> string \<Rightarrow> string \<Rightarrow> Scope \<Rightarrow> string \<Rightarrow> ('p, ChangePlan \<times> bool) prog"
where
  "Apply_change X actor correlationID domain requested confirmation w =
     (if actor_type actor = [] \<or> actor_id actor = [] \<or> \<not> validPolicyCorrelationID correlationID
      then (Inl (Err ''actor and correlation ID are required''), w)
      else run_tx (applyChange_tx X actor correlationID domain requested confirmation) w)"

section \<open>Activation\<close>

definition activationCorrelationID :: "string \<Rightarrow> string \<Rightarrow> nat \<Rightarrow> string \<Rightarrow> string" where
  "activationCorrelationID base queueID index phase =
     ''outbound-activation:'' @ hex_encode (take 16 (sha256
        (base @ [CHR 0x00] @ queueID @ [CHR 0x00] @ phase @ [CHR 0x00] @ FormatUint index)))"

text \<open>The loop over the recipients: failed (\<open>None\<close>), or whether the message needs a hold.\<close>

fun activationDecide ::
  "external \<Rightarrow> ActorRef \<Rightarrow> string \<Rightarrow> string \<Rightarrow> nat \<Rightarrow> string list \<Rightarrow> 'p world \<Rightarrow> bool option \<times> 'p world"
where
  "activationDecide X holdActor correlationID queueID index [] w = (Some False, w)"
| "activationDecide X holdActor correlationID queueID index (r # rs) w =
     (case Decide X holdActor (activationCorrelationID correlationID queueID index ''decision'')
         \<lparr>er_stage = StageTransport, er_queue_id = queueID, er_mailbox = [], er_system = [], er_envelope = [],
          er_recipient = r, er_sources = []\<rparr> w of
        ((decision, Some e), w1) \<Rightarrow> (None, w1)
      | ((decision, None), w1) \<Rightarrow>
          if dec_action decision = ActionDefer \<and> dec_reason decision = ReasonPolicyHold then (Some True, w1)
          else if dec_action decision \<noteq> ActionOK then (None, w1)
          else activationDecide X holdActor correlationID queueID (Suc index) rs w1)"

definition activateQueue ::
  "external \<Rightarrow> 'p boundary \<Rightarrow> ActorRef \<Rightarrow> ActorRef \<Rightarrow> string \<Rightarrow> string \<Rightarrow> ActivationReconciliation \<Rightarrow> 'p world
   \<Rightarrow> ActivationReconciliation \<times> 'p world"
where
  "activateQueue X B holdActor actor correlationID queueID summary w =
     (case Load X queueID w of
        (Inl _, w1) \<Rightarrow> (summary\<lparr>ar_failed := ar_failed summary + 1\<rparr>, w1)
      | (Inr record, w1) \<Rightarrow>
         (case activationDecide X holdActor correlationID queueID 0 (qr_recipients record) w1 of
            (None, w2) \<Rightarrow> (summary\<lparr>ar_failed := ar_failed summary + 1\<rparr>, w2)
          | (Some False, w2) \<Rightarrow> (summary\<lparr>ar_no_longer_blocked := ar_no_longer_blocked summary + 1\<rparr>, w2)
          | (Some True, w2) \<Rightarrow>
             (case Reconcile_queue X B actor (activationCorrelationID correlationID queueID 0 ''reconcile'') queueID w2 of
                ((_, Some _), w3) \<Rightarrow> (summary\<lparr>ar_failed := ar_failed summary + 1\<rparr>, w3)
              | ((Some (_, True), None), w3) \<Rightarrow> (summary\<lparr>ar_held := ar_held summary + 1\<rparr>, w3)
              | ((_, None), w3) \<Rightarrow> (summary\<lparr>ar_already_held := ar_already_held summary + 1\<rparr>, w3))))"

fun activateQueues ::
  "external \<Rightarrow> 'p boundary \<Rightarrow> ActorRef \<Rightarrow> ActorRef \<Rightarrow> string \<Rightarrow> string list \<Rightarrow> ActivationReconciliation \<Rightarrow> 'p world
   \<Rightarrow> ActivationReconciliation \<times> 'p world"
where
  "activateQueues X B holdActor actor correlationID [] summary w = (summary, w)"
| "activateQueues X B holdActor actor correlationID (q # qs) summary w =
     (case activateQueue X B holdActor actor correlationID q summary w of
        (summary', w1) \<Rightarrow> activateQueues X B holdActor actor correlationID qs summary' w1)"

text \<open>
  \<open>ActivationService.Apply\<close>. The boundary is \<open>None\<close> if the policy service or the reconciler is missing.
\<close>

definition Activate ::
  "external \<Rightarrow> 'p boundary option \<Rightarrow> ActorRef \<Rightarrow> ActorRef \<Rightarrow> string \<Rightarrow> string \<Rightarrow> Scope \<Rightarrow> string \<Rightarrow> ('p, ChangeResult) prog"
where
  "Activate X services holdActor actor correlationID domain requested confirmation w =
     (case Apply_change X actor correlationID domain requested confirmation w of
        (Inl e, w1) \<Rightarrow> (Inl e, w1)
      | (Inr (plan, changed), w1) \<Rightarrow>
          let result = \<lparr>ch_plan = plan, ch_changed = changed, ch_reconciliation = None\<rparr> in
          if requested \<noteq> ScopeSameDomainOnly then (Inr result, w1)
          else
            let selected = length (cp_affected plan);
                summary = \<lparr>ar_selected = selected, ar_held = 0, ar_already_held = 0, ar_no_longer_blocked = 0, ar_failed = 0\<rparr> in
            if selected = 0 then (Inr (result\<lparr>ch_reconciliation := Some summary\<rparr>), w1)
            else case services of
              None \<Rightarrow> (Inr (result\<lparr>ch_reconciliation := Some (summary\<lparr>ar_failed := selected\<rparr>)\<rparr>), w1)
            | Some B \<Rightarrow>
               (case activateQueues X B holdActor actor correlationID (cp_affected plan) summary w1 of
                  (summary', w2) \<Rightarrow> (Inr (result\<lparr>ch_reconciliation := Some summary'\<rparr>), w2)))"

end
