(* ===== verification/Guarantee.thy ===== *)
theory Guarantee
  imports Activation
begin

text \<open>
  Programs among other sessions. A relation on databases that is kept by every statement of a program and by whatever
  other sessions commit in between relates the databases before and after the program. The locale \<open>guarantee\<close>
  proves this for the ways programs are composed and for all programs that only read.
\<close>

definition relies :: "(db \<Rightarrow> db \<Rightarrow> bool) \<Rightarrow> 'p world \<Rightarrow> bool" where
  "relies R w \<longleftrightarrow> (\<forall>k db. R db (cx_other (w_env w k) db))"

definition guarantees :: "(db \<Rightarrow> db \<Rightarrow> bool) \<Rightarrow> ('p world \<Rightarrow> 'r \<times> 'p world) \<Rightarrow> bool" where
  "guarantees R prog \<longleftrightarrow>
     (\<forall>w. relies R w \<longrightarrow> w_env (snd (prog w)) = w_env w \<and> R (w_db w) (w_db (snd (prog w))))"

named_theorems guarantee_intros "programs that guarantee a relation on databases"

lemma guaranteesD:
  "guarantees R prog \<Longrightarrow> relies R w \<Longrightarrow> prog w = (r, w') \<Longrightarrow> w_env w' = w_env w \<and> relies R w' \<and> R (w_db w) (w_db w')"
  by (fastforce simp: guarantees_def relies_def)

lemma guarantees_sum [guarantee_intros]:
  "(\<And>e. v = Inl e \<Longrightarrow> guarantees R (f e)) \<Longrightarrow> (\<And>x. v = Inr x \<Longrightarrow> guarantees R (g x)) \<Longrightarrow>
   guarantees R (\<lambda>w. case v of Inl e \<Rightarrow> f e w | Inr x \<Rightarrow> g x w)"
  by (cases v) simp_all

lemma guarantees_option [guarantee_intros]:
  "(v = None \<Longrightarrow> guarantees R f) \<Longrightarrow> (\<And>x. v = Some x \<Longrightarrow> guarantees R (g x)) \<Longrightarrow>
   guarantees R (\<lambda>w. case v of None \<Rightarrow> f w | Some x \<Rightarrow> g x w)"
  by (cases v) simp_all

lemma guarantees_bool [guarantee_intros]:
  "(v \<Longrightarrow> guarantees R f) \<Longrightarrow> (\<not> v \<Longrightarrow> guarantees R g) \<Longrightarrow> guarantees R (\<lambda>w. case v of True \<Rightarrow> f w | False \<Rightarrow> g w)"
  by (cases v) simp_all

lemma guarantees_pair [guarantee_intros]:
  "(\<And>a b. v = (a, b) \<Longrightarrow> guarantees R (g a b)) \<Longrightarrow> guarantees R (\<lambda>w. case v of (a, b) \<Rightarrow> g a b w)"
  by (cases v) simp_all

lemma guarantees_if [guarantee_intros]:
  "(c \<Longrightarrow> guarantees R f) \<Longrightarrow> (\<not> c \<Longrightarrow> guarantees R g) \<Longrightarrow> guarantees R (\<lambda>w. if c then f w else g w)"
  by (cases c) simp_all

section \<open>Composition\<close>

locale guarantee =
  fixes R :: "db \<Rightarrow> db \<Rightarrow> bool"
  assumes refl [simp]: "R db db" and trans: "R db db1 \<Longrightarrow> R db1 db2 \<Longrightarrow> R db db2"
begin

lemma return [guarantee_intros]: "guarantees R (\<lambda>w. (r, w))"
  by (simp add: guarantees_def)

lemma bind [guarantee_intros]:
  fixes m :: "'p world \<Rightarrow> 'a \<times> 'p world"
  assumes "guarantees R m" and "\<And>a. guarantees R (g a)"
  shows "guarantees R (\<lambda>w. case m w of (a, w1) \<Rightarrow> g a w1)"
  unfolding guarantees_def
proof (intro allI impI)
  fix w :: "'p world" assume w: "relies R w"
  obtain a w1 where m: "m w = (a, w1)" by fastforce
  obtain b w2 where g: "g a w1 = (b, w2)" by fastforce
  note e1 = guaranteesD [OF assms(1) w m]
  then have "relies R w1" by simp
  note e2 = guaranteesD [OF assms(2) this g]
  show "w_env (snd (case m w of (a, w1) \<Rightarrow> g a w1)) = w_env w \<and> R (w_db w) (w_db (snd (case m w of (a, w1) \<Rightarrow> g a w1)))"
    using e1 e2 by (auto simp: m g intro: trans)
qed

lemma query [guarantee_intros]: "guarantees R (run_query body)"
  by (auto simp: guarantees_def run_query_def relies_def Let_def)

lemma postfix [guarantee_intros]: "guarantees R (on_postfix h)"
  by (auto simp: guarantees_def on_postfix_def split: prod.splits)

lemma tx:
  assumes "\<And>cx db x db'. body cx db = Inr (x, db') \<Longrightarrow> R db db'"
  shows "guarantees R (run_tx body :: 'p world \<Rightarrow> 'a result \<times> 'p world)"
  unfolding guarantees_def
proof (intro allI impI)
  fix w :: "'p world" assume w: "relies R w"
  let ?cx = "w_env w (w_count w)"
  have o: "R (w_db w) (cx_other ?cx (w_db w))" using w by (simp add: relies_def)
  show "w_env (snd (run_tx body w)) = w_env w \<and> R (w_db w) (w_db (snd (run_tx body w)))"
    using o assms [of ?cx "cx_other ?cx (w_db w)"]
    by (auto simp: run_tx_def Let_def split: sum.splits intro: trans)
qed

lemma with_lock [guarantee_intros]:
  assumes "guarantees R body" shows "guarantees R (with_lock body)"
  unfolding with_lock_def [abs_def] by (intro guarantee_intros assms)

section \<open>Programs that only read\<close>

lemma Load [guarantee_intros]: "guarantees R (Load X q)"
  unfolding Load_def [abs_def] by (intro guarantee_intros)

lemma loadConn [guarantee_intros]: "guarantees R (loadConn X q)"
  unfolding loadConn_def by (intro guarantee_intros)

lemma resolvePolicySources [guarantee_intros]: "guarantees R (resolvePolicySources X srcs)"
  unfolding resolvePolicySources_def [abs_def] by (intro guarantee_intros)

lemma previewRecord [guarantee_intros]: "guarantees R (previewRecord X r)"
  unfolding previewRecord_def [abs_def] by (intro guarantee_intros)

lemma expandLayers [guarantee_intros]: "guarantees R (expandLayers X n found seen frontier)"
proof (induction n arbitrary: found seen frontier)
  case 0
  show ?case
    unfolding expandLayers.simps [of X 0 found seen frontier, abs_def] nat.case by (intro guarantee_intros)
next
  case (Suc n)
  then show ?case
    unfolding expandLayers.simps [of X "Suc n" found seen frontier, abs_def] Let_def nat.case
    by (intro guarantee_intros) auto
qed

lemma loadExpansionAliases [guarantee_intros]: "guarantees R (loadExpansionAliases X originals)"
  unfolding loadExpansionAliases_def by (intro guarantee_intros)

lemma expansion [guarantee_intros]:
  "guarantees R (expandOriginal X raw)" "guarantees R (resolveExpansionDeliveries X deliveries)"
  unfolding expandOriginal_def [abs_def] resolveExpansionDeliveries_def [abs_def] by (intro guarantee_intros)+

lemma submissionSources [guarantee_intros]: "guarantees R (submissionSources X req)"
  unfolding submissionSources_def [abs_def] authoritySources_def [abs_def] mailboxObjectByAddress_def [abs_def]
    systemSenderAddress_def [abs_def] Let_def
  by (intro guarantee_intros)

lemma admitAuthority [guarantee_intros]: "guarantees R (admitAuthority X req)"
  unfolding admitAuthority_def [abs_def] by (intro guarantee_intros)

end

end
