(* ===== verification/Queue_Runs.thy ===== *)
theory Queue_Runs
  imports Hold_Machine Guarantee
begin

text \<open>
  Operations among other sessions: if what other sessions commit between two statements are transactions of this
  program, then each operation only adds such transactions, so the invariant and the refinement of \<open>Hold_Machine\<close>
  hold along every interleaving.
\<close>

section \<open>Programs among other sessions\<close>

text \<open>
  Other sessions run the same program: between the statements of an operation the database makes
  steps. A program keeps the queue if its own statements are steps as well.
\<close>

abbreviation rely :: "external \<Rightarrow> 'p world \<Rightarrow> bool" where
  "rely X \<equiv> relies ((queue_step X)\<^sup>*\<^sup>*)"

abbreviation keeps :: "external \<Rightarrow> ('p world \<Rightarrow> 'r \<times> 'p world) \<Rightarrow> bool" where
  "keeps X \<equiv> guarantees ((queue_step X)\<^sup>*\<^sup>*)"

interpretation queue_guarantee: guarantee "(queue_step X)\<^sup>*\<^sup>*" for X
  by unfold_locales auto

section \<open>The operations keep the queue\<close>

lemma keeps_step_tx: "(\<And>cx db x db'. body cx db = Inr (x, db') \<Longrightarrow> queue_step X db db') \<Longrightarrow> keeps X (run_tx body)"
  by (rule queue_guarantee.tx) blast

lemma keeps_Register [guarantee_intros]: "keeps X (Register X r)"
  unfolding Register_def [abs_def] by (intro guarantee_intros keeps_step_tx) (auto intro: queue_step.register)

lemma keeps_RequireHold:
  assumes X: "idna_lookup X" shows "keeps X (RequireHold X actor correlationID q decision)"
  unfolding RequireHold_def [abs_def]
  by (intro guarantee_intros keeps_step_tx)
    (auto intro: queue_step.require canonicalPolicyRevisions_ok [OF X])

lemma keeps_start [guarantee_intros]:
  "keeps X (startQueueReconciliation X actor correlationID r)" "keeps X (startQueueRelease X actor correlationID r)"
  unfolding startQueueReconciliation_def startQueueRelease_def
  by (auto intro!: keeps_step_tx intro: queue_step.start_reconciliation queue_step.start_release)

lemma keeps_finish [guarantee_intros]:
  "keeps X (finishQueueReconciliation X actor correlationID r state code)"
  "keeps X (finishQueueRelease X actor correlationID r state code)"
  unfolding finishQueueReconciliation_def [abs_def] finishQueueRelease_def [abs_def]
  by (intro guarantee_intros keeps_step_tx; auto intro: queue_step.finish_reconciliation queue_step.finish_release)+

lemma keeps_reconcile_parts [guarantee_intros]:
  "keeps X (reconcileFail X actor correlationID r code)" "keeps X (reconcileDone X actor correlationID r)"
  unfolding reconcileFail_def [abs_def] reconcileDone_def [abs_def] by (intro guarantee_intros)+

lemma keeps_reconcileHold [guarantee_intros]: "keeps X (reconcileHold X B actor correlationID r)"
  unfolding reconcileHold_def [abs_def] by (intro guarantee_intros)

lemma keeps_Reconcile [guarantee_intros]: "keeps X (Reconcile_queue X B actor correlationID q)"
  unfolding Reconcile_queue_def [abs_def] reconcileLocked_def [abs_def] reconcileStart_def [abs_def]
  by (intro guarantee_intros)

lemma keeps_release_parts [guarantee_intros]:
  "keeps X (releaseFail X actor correlationID r code)"
  unfolding releaseFail_def [abs_def] by (intro guarantee_intros)

lemma keeps_releaseCommit [guarantee_intros]: "keeps X (releaseCommit X B actor correlationID r)"
  unfolding releaseCommit_def [abs_def] by (intro guarantee_intros)

lemma keeps_Release [guarantee_intros]: "keeps X (Release_queue X B actor correlationID q confirmation)"
  unfolding Release_queue_def [abs_def] releaseLocked_def [abs_def] releaseConfirmed_def [abs_def]
  by (intro guarantee_intros)

lemma WriteSQL_step: "WriteSQL rnd now e db = Inr db' \<Longrightarrow> queue_step X db db'"
  by (auto dest!: WriteSQL_Inr intro: queue_step.other_tables)

lemma keeps_recordSubmissionDecision [guarantee_intros]: "keeps X (recordSubmissionDecision Y correlationID r d)"
  unfolding recordSubmissionDecision_def [abs_def]
proof (intro guarantee_intros keeps_step_tx)
  fix domain cx db x db'
  assume "map_sum id (Pair ()) (WriteSQL (cx_rnd cx) (cx_now cx) (submission_event correlationID domain d) db) = Inr (x, db')"
  then show "queue_step X db db'"
    using WriteSQL_step by (cases "WriteSQL (cx_rnd cx) (cx_now cx) (submission_event correlationID domain d) db") auto
qed

lemma keeps_Decide:
  assumes X: "idna_lookup X" shows "keeps X (Decide X actor correlationID req)"
  unfolding Decide_def [abs_def] decideSubmission_def [abs_def] decideTransport_def [abs_def] Let_def
  by (intro guarantee_intros keeps_RequireHold [OF X])

lemma keeps_DecideSMTPRecipient [guarantee_intros]: "keeps X (DecideSMTPRecipient X correlationID mailbox envelope recipient)"
  unfolding DecideSMTPRecipient_def [abs_def] by (intro guarantee_intros)

lemma keeps_Admit [guarantee_intros]: "keeps X (Admit X req)"
  unfolding Admit_def [abs_def] Let_def by (intro guarantee_intros)

lemma list_ex_key: "list_ex (\<lambda>z. k z = a) xs \<longleftrightarrow> a \<in> k ` set xs"
  by (induction xs) auto

lemma insert_sender_Inr:
  "insert_sender X y db = Inr (n, db') \<Longrightarrow>
   n = 0 \<and> db' = db \<and> ss_id y \<in> ss_id ` set (senders db)
   \<or> n = 1 \<and> db' = db\<lparr>senders := senders db @ [y]\<rparr> \<and> ss_id y \<notin> ss_id ` set (senders db)
     \<and> ss_address y \<notin> ss_address ` set (senders db) \<and> check_sender X y"
  by (auto simp: insert_sender_def list_ex_key split: if_splits)

lemma bind_tx_step: "bind_tx X actor correlationID i address domain cx db = Inr (b, db') \<Longrightarrow> queue_step X db db'"
  by (auto simp: bind_tx_def Let_def split: option.splits sum.splits prod.splits if_splits dest!: insert_sender_Inr WriteSQL_Inr
      intro: queue_step.other_tables [where events = "[]"] queue_step.other_tables)

lemma keeps_Bind [guarantee_intros]: "keeps X (Bind X actor correlationID i raw)"
  unfolding Bind_def [abs_def] by (intro guarantee_intros keeps_step_tx) (auto dest: bind_tx_step)

lemma applyChange_tx_step:
  assumes "applyChange_tx Y actor correlationID domain requested confirmation cx db = Inr (r, db')"
  shows "queue_step X db db'"
proof -
  have "messages db' = messages db \<and> recipients db' = recipients db \<and> sources db' = sources db
      \<and> (\<exists>events. audit_events db' = audit_events db @ events)"
    using assms
    by (auto simp: applyChange_tx_def update_domain_def Let_def split: sum.splits prod.splits if_splits dest!: WriteSQL_Inr)
  then show ?thesis by (auto intro: queue_step.other_tables)
qed

lemma keeps_Apply_change [guarantee_intros]: "keeps X (Apply_change Y actor correlationID domain requested confirmation)"
  unfolding Apply_change_def [abs_def]
  by (intro guarantee_intros keeps_step_tx) (auto dest: applyChange_tx_step)

lemma keeps_activationDecide:
  assumes X: "idna_lookup X" shows "keeps X (activationDecide X holdActor correlationID q index rs)"
proof (induction rs arbitrary: index)
  case Nil
  show ?case unfolding activationDecide.simps [abs_def] by (intro guarantee_intros)
next
  case (Cons r rs)
  show ?case unfolding activationDecide.simps [abs_def] by (intro guarantee_intros keeps_Decide [OF X] Cons)
qed

lemma keeps_activateQueue:
  assumes X: "idna_lookup X" shows "keeps X (activateQueue X B holdActor actor correlationID q summary)"
  unfolding activateQueue_def [abs_def] by (intro guarantee_intros keeps_activationDecide [OF X])

lemma keeps_activateQueues:
  assumes X: "idna_lookup X" shows "keeps X (activateQueues X B holdActor actor correlationID qs summary)"
proof (induction qs arbitrary: summary)
  case Nil
  show ?case unfolding activateQueues.simps [abs_def] by (intro guarantee_intros)
next
  case (Cons q qs)
  show ?case unfolding activateQueues.simps [abs_def] by (intro guarantee_intros keeps_activateQueue [OF X] Cons)
qed

lemma keeps_Activate:
  assumes X: "idna_lookup X" shows "keeps X (Activate X services holdActor actor correlationID domain requested confirmation)"
  unfolding Activate_def [abs_def] Let_def by (intro guarantee_intros keeps_activateQueues [OF X])

section \<open>Runs\<close>

datatype queue_op =
    OpRegister QueueRegistration
  | OpAdmit QueueAdmissionRequest
  | OpDecide ActorRef string EnforcementRequest
  | OpSMTP string string string string
  | OpRequireHold ActorRef string string Decision
  | OpReconcile ActorRef string string
  | OpRelease ActorRef string string string
  | OpBind ActorRef string string string
  | OpActivate ActorRef ActorRef string string Scope string

fun run_op :: "external \<Rightarrow> 'p boundary \<Rightarrow> queue_op \<Rightarrow> 'p world \<Rightarrow> 'p world" where
  "run_op X B (OpRegister r) w = snd (Register X r w)"
| "run_op X B (OpAdmit req) w = snd (Admit X req w)"
| "run_op X B (OpDecide actor correlationID req) w = snd (Decide X actor correlationID req w)"
| "run_op X B (OpSMTP correlationID mailbox envelope recipient) w =
     snd (DecideSMTPRecipient X correlationID mailbox envelope recipient w)"
| "run_op X B (OpRequireHold actor correlationID q d) w = snd (RequireHold X actor correlationID q d w)"
| "run_op X B (OpReconcile actor correlationID q) w = snd (Reconcile_queue X B actor correlationID q w)"
| "run_op X B (OpRelease actor correlationID q confirmation) w =
     snd (Release_queue X B actor correlationID q confirmation w)"
| "run_op X B (OpBind actor correlationID i raw) w = snd (Bind X actor correlationID i raw w)"
| "run_op X B (OpActivate holdActor actor correlationID domain requested confirmation) w =
     snd (Activate X (Some B) holdActor actor correlationID domain requested confirmation w)"

lemma run_op_steps:
  assumes X: "idna_lookup X" and w: "rely X w"
  shows "rely X (run_op X B op w) \<and> (queue_step X)\<^sup>*\<^sup>* (w_db w) (w_db (run_op X B op w))"
proof -
  have k: "rely X (snd (prog w)) \<and> (queue_step X)\<^sup>*\<^sup>* (w_db w) (w_db (snd (prog w)))" if "keeps X prog" for prog
    using guaranteesD [OF that w, of "fst (prog w)" "snd (prog w)"] by simp
  show ?thesis
    by (cases op) (simp_all add: k guarantee_intros keeps_Decide [OF X] keeps_RequireHold [OF X] keeps_Activate [OF X])
qed

lemma run_ops_steps:
  assumes "idna_lookup X" and "rely X w"
  shows "rely X (fold (run_op X B) ops w) \<and> (queue_step X)\<^sup>*\<^sup>* (w_db w) (w_db (fold (run_op X B) ops w))"
  using assms(2)
proof (induction ops arbitrary: w)
  case (Cons op ops)
  have "rely X (run_op X B op w)" "(queue_step X)\<^sup>*\<^sup>* (w_db w) (w_db (run_op X B op w))"
    using run_op_steps [OF assms(1) Cons.prems] by auto
  then show ?case using Cons.IH [of "run_op X B op w"] by (auto intro: rtranclp_trans)
qed simp

lemma queue_steps_refine:
  assumes "(queue_step X)\<^sup>*\<^sup>* db db'" and "queue_inv X db"
  shows "queue_inv X db' \<and> abs_step\<^sup>*\<^sup>* (abs_of X db) (abs_of X db')"
  using assms
proof (induction rule: rtranclp_induct)
  case (step b c)
  then have "queue_inv X c" "abs_step (abs_of X b) (abs_of X c)" using queue_step_refines by blast+
  then show ?case using step by (auto intro: rtranclp.rtrancl_into_rtrancl)
qed simp

lemma moved_audit: "moved X q P f db db' \<Longrightarrow> \<exists>row. audit_events db' = audit_events db @ [row]"
  by (auto simp: moved_def)

lemma queue_step_audit: "queue_step X db db' \<Longrightarrow> \<exists>rows. audit_events db' = audit_events db @ rows"
proof (induction rule: queue_step.induct)
  case (register r now db stored created db')
  show ?case using register_tx_Inr(3) [OF register] by (cases created) (auto simp: appended_def)
next
  case (require revs decision actor correlationID q cx db db')
  show ?case using requireHold_tx_Inr [OF require(3)] by (auto dest: moved_audit)
next
  case (start_reconciliation actor correlationID r cx db db')
  show ?case using start_reconcile.tx_effect [OF start_reconciliation] by (auto dest: moved_audit)
next
  case (finish_reconciliation state actor correlationID r code cx db db')
  then show ?case
    using finish_reconcile.tx_effect [of state X actor correlationID r code cx db db'] by (auto simp: guarded_def dest: moved_audit)
next
  case (start_release actor correlationID r cx db db')
  show ?case using start_release.tx_effect [OF start_release] by (auto dest: moved_audit)
next
  case (finish_release state actor correlationID r code cx db db')
  then show ?case
    using finish_release.tx_effect [of state X actor correlationID r code cx db db'] by (auto simp: guarded_def dest: moved_audit)
qed blast

lemma queue_steps_audit: "(queue_step X)\<^sup>*\<^sup>* db db' \<Longrightarrow> \<exists>rows. audit_events db' = audit_events db @ rows"
  by (induction rule: rtranclp_induct) (auto dest: queue_step_audit)

section \<open>Properties\<close>

text \<open>C9: along every sequence of operations, with other sessions running the same program in between and with
  transactions that fail or whose commit is lost at any point, all stored messages stay loadable, the provenance of
  every message (fingerprint, sender, recipients, sources) never changes, its hold state takes legal moves only, and
  the audit log is only appended to.\<close>

theorem queue_runs_safe:
  assumes "idna_lookup X" and "rely X w" and "queue_inv X (w_db w)" and "w' = fold (run_op X B) ops w"
  shows "queue_inv X (w_db w') \<and> abs_step\<^sup>*\<^sup>* (abs_of X (w_db w)) (abs_of X (w_db w'))
     \<and> (\<forall>q p s. abs_of X (w_db w) q = Some (p, s) \<longrightarrow> (\<exists>t. abs_of X (w_db w') q = Some (p, t)))
     \<and> (\<exists>rows. audit_events (w_db w') = audit_events (w_db w) @ rows)"
proof -
  have steps: "(queue_step X)\<^sup>*\<^sup>* (w_db w) (w_db w')" using run_ops_steps [OF assms(1,2)] assms(4) by simp
  from queue_steps_refine [OF this assms(3)] queue_steps_audit [OF steps] show ?thesis
    using abs_run_keeps by blast
qed

definition idle_boundary :: "unit boundary" where
  "idle_boundary = \<lparr>bd_inspect = (\<lambda>_ p. (Inl SqlError, p)), bd_hold = (\<lambda>_ p. (None, p)), bd_release = (\<lambda>_ p. (None, p))\<rparr>"

theorem queue_runs_safe_witness:
  "queue_inv ascii_external (w_db (fold (run_op ascii_external idle_boundary)
     [OpRegister sample_registration, OpReconcile \<lparr>actor_type = ''service'', actor_id = ''x''\<rparr> ''c1'' (qreg_queue_id sample_registration)]
     (sample_world empty_db)))"
proof -
  have "rely ascii_external (sample_world empty_db)" by (simp add: relies_def sample_world_def quiet_def)
  moreover have "queue_inv ascii_external (w_db (sample_world empty_db))" using queue_inv_empty by simp
  ultimately show ?thesis using queue_runs_safe [OF ascii_external_idna _ _ refl] by blast
qed

end
