(* ===== verification/Enforcement_Facts.thy ===== *)
theory Enforcement_Facts
  imports Queue_Runs
begin

text \<open>
  What the decisions of \<^verbatim>\<open>decision.go\<close> and the admission of \<^verbatim>\<open>admission.go\<close> guarantee: a recipient is admitted only
  for an authenticated sender and inside every confined domain; errors defer; rejections are audited and holds are
  recorded; an admitted message has a proved provenance; a system sender is bound once.
\<close>

section \<open>Governing domains\<close>

text \<open>The enabled domain that a source is bound to, if the source and the domain are enabled and valid.\<close>

definition governed_by :: "external \<Rightarrow> db \<Rightarrow> QueueSource \<Rightarrow> DomainRow \<Rightarrow> bool" where
  "governed_by X db s d \<longleftrightarrow>
     policy_row db s = (True, Some d) \<and> d_enabled d \<and> 0 < d_revision d
     \<and> NormalizeDomain X (d_name d) = Inr (d_name d) \<and> validScope (d_scope d)"

definition governing_of :: "DomainRow \<Rightarrow> GoverningDomain" where
  "governing_of d = \<lparr>gd_domain = d_name d, gd_scope = d_scope d, gd_revision = of_int (d_revision d)\<rparr>"

lemma governing_row_Inr:
  "governing_row X (policy_row db s) = Inr g \<longleftrightarrow> (\<exists>d. governed_by X db s d \<and> g = governing_of d)"
  by (auto simp: governing_row_def governed_by_def governing_of_def split: prod.splits option.splits sum.splits if_splits)

lemma resolvePolicySources_Inr:
  assumes "resolvePolicySources X srcs w = (Inr gs, w')" and "still w"
  shows "w_db w' = w_db w" and "still w'" and "srcs \<noteq> []" and "length srcs \<le> maxQueueSources"
    and "map (\<lambda>s. governing_row X (policy_row (w_db w) s)) srcs = map Inr gs"
    and "\<forall>s\<in>set srcs. \<exists>d. governed_by X (w_db w) s d \<and> governing_of d \<in> set gs"
proof -
  obtain body where q: "run_query body w = (Inr gs, w')" and ne: "srcs \<noteq> []" and len: "length srcs \<le> maxQueueSources"
    and body: "body = (\<lambda>db. case mapR (governing_row X) (map (policy_row db) srcs) of
          Inl e \<Rightarrow> Inl e
        | Inr governing \<Rightarrow>
            if length governing \<noteq> length srcs
            then Inl (Err ''outbound policy source resolution was incomplete'')
            else Inr governing)"
    using assms(1) by (auto simp: resolvePolicySources_def split: if_splits)
  note rq = run_query_still [OF q assms(2)]
  show "w_db w' = w_db w" "still w'" "srcs \<noteq> []" "length srcs \<le> maxQueueSources" using rq(1,2) ne len by auto
  have "mapR (governing_row X) (map (policy_row (w_db w)) srcs) = Inr gs"
    using rq(4) body by (auto split: sum.splits if_splits)
  then show m: "map (\<lambda>s. governing_row X (policy_row (w_db w) s)) srcs = map Inr gs"
    by (simp add: mapR_Inr comp_def)
  show "\<forall>s\<in>set srcs. \<exists>d. governed_by X (w_db w) s d \<and> governing_of d \<in> set gs"
  proof
    fix s assume "s \<in> set srcs"
    then have "governing_row X (policy_row (w_db w) s) \<in> set (map Inr gs)" unfolding m [symmetric] by simp
    then obtain g where "g \<in> set gs" "governing_row X (policy_row (w_db w) s) = Inr g" by (auto simp: eq_commute)
    then show "\<exists>d. governed_by X (w_db w) s d \<and> governing_of d \<in> set gs" unfolding governing_row_Inr by auto
  qed
qed

text \<open>An admitted recipient lies in the domain of every source whose domain is confined.\<close>

definition confined :: "external \<Rightarrow> db \<Rightarrow> QueueSource set \<Rightarrow> string \<Rightarrow> bool" where
  "confined X db S recipient \<longleftrightarrow>
     (\<forall>s\<in>S. \<exists>d. governed_by X db s d
        \<and> (d_scope d = ScopeSameDomainOnly \<longrightarrow> recipientDomain X recipient = Inr (d_name d)))"

lemma Evaluate_OK_domain:
  assumes "dec_action (Evaluate X req) = ActionOK" and "g \<in> set (rq_governing req)"
    and "gd_scope g = ScopeSameDomainOnly" and "NormalizeDomain X (gd_domain g) = Inr d"
  shows "recipientDomain X (rq_recipient req) = Inr d"
proof -
  have "d \<in> restricted_domains X (set (rq_governing req))" using assms(2-4) by (auto simp: restricted_domains_def)
  then have "d = projr (recipientDomain X (rq_recipient req))" using assms(1) unfolding Evaluate_OK by auto
  moreover have "\<exists>d. recipientDomain X (rq_recipient req) = Inr d"
    using assms(1) unfolding Evaluate_OK request_ok_def by auto
  ultimately show ?thesis by auto
qed

lemma Evaluate_OK_confined:
  assumes "resolvePolicySources X srcs w = (Inr gs, w')" and "still w"
    and "dec_action (Evaluate X (req\<lparr>rq_governing := gs\<rparr>)) = ActionOK"
  shows "confined X (w_db w) (set srcs) (rq_recipient req)"
  unfolding confined_def
proof
  fix s assume "s \<in> set srcs"
  then obtain d where d: "governed_by X (w_db w) s d" "governing_of d \<in> set gs"
    using resolvePolicySources_Inr(6) [OF assms(1,2)] by blast
  have "recipientDomain X (rq_recipient req) = Inr (d_name d)" if "d_scope d = ScopeSameDomainOnly"
    using Evaluate_OK_domain [OF assms(3), of "governing_of d" "d_name d"] d that
    by (simp add: governing_of_def governed_by_def)
  with d(1) show "\<exists>d. governed_by X (w_db w) s d \<and> (d_scope d = ScopeSameDomainOnly \<longrightarrow> recipientDomain X (rq_recipient req) = Inr (d_name d))"
    by blast
qed

section \<open>Submission authority\<close>

lemma run_query_Inr:
  assumes "run_query body w = (Inr x, w')" and "still w"
  shows "body (w_db w) = Inr x" and "w_db w' = w_db w" and "still w'"
  using run_query_still [OF assms] by auto

text \<open>The mailbox row and the domain row behind an authenticated submission.\<close>

definition owns_mailbox :: "external \<Rightarrow> db \<Rightarrow> string \<Rightarrow> string \<Rightarrow> string \<Rightarrow> bool" where
  "owns_mailbox X db rawAddress envelope i \<longleftrightarrow>
     (\<exists>m\<in>set (mailboxes db). \<exists>d\<in>set (domains db). \<exists>local.
        mb_id m = i \<and> mb_enabled m \<and> d_enabled d \<and> mb_domain m = d_id d
        \<and> normalizeQueueRecipient X rawAddress = Inr (local @ ''@'' @ d_name d, d_name d)
        \<and> EqualFold (mb_local m) local \<and> EqualFold (mb_local m @ ''@'' @ d_name d) envelope)"

lemma mailbox_rows_mem:
  "(i, l, n) \<in> set (mailbox_rows db local domain) \<Longrightarrow>
   \<exists>m\<in>set (mailboxes db). \<exists>d\<in>set (domains db). mb_id m = i \<and> mb_local m = l \<and> d_name d = n \<and> n = domain
     \<and> mb_enabled m \<and> d_enabled d \<and> mb_domain m = d_id d \<and> ToLower l = ToLower local"
  by (force simp: mailbox_rows_def dest!: in_set_takeD)

lemma split_last_normalized:
  assumes "normalizeQueueRecipient X raw = Inr (a, d)"
  shows "\<exists>l. a = l @ ''@'' @ d"
proof -
  obtain local rest where "split_last CHR ''@'' (TrimSpace raw) = Some (local, rest)"
    using assms by (auto simp: normalizeQueueRecipient_def recipientDomain_def Let_def split: sum.splits option.splits if_splits)
  then show ?thesis using assms by (auto simp: normalizeQueueRecipient_def split: sum.splits)
qed

lemma authoritySources_mailbox:
  assumes X: "idna_lookup X" and "authoritySources X req envelope w = (Inr srcs, w')" and "still w" and "er_mailbox req \<noteq> []"
  shows "\<exists>i. owns_mailbox X (w_db w) (er_mailbox req) envelope i
     \<and> srcs = [QueueSource SourceAuthenticatedMailbox i, QueueSource SourceEnvelopeSender i]"
    and "w_db w' = w_db w" and "still w'"
proof -
  obtain mailbox i where mb: "mailboxObjectByAddress X (er_mailbox req) w = (Inr (mailbox, i), w')"
    and eq: "EqualFold mailbox envelope"
    and s: "srcs = [QueueSource SourceAuthenticatedMailbox i, QueueSource SourceEnvelopeSender i]"
    using assms(2,4) by (auto simp: authoritySources_def split: sum.splits prod.splits if_splits)
  from mb obtain address domain where n: "normalizeQueueRecipient X (er_mailbox req) = Inr (address, domain)"
    by (auto simp: mailboxObjectByAddress_def split: sum.splits)
  obtain l where l: "address = l @ CHR ''@'' # domain" using split_last_normalized [OF n] by auto
  have "CHR ''@'' \<notin> set domain" using normalizeQueueRecipient_iff [OF X] n canonical_domain_dot_atom dot_atom_not_at NormalizeDomain_canonical [OF X] by metis
  then have sp: "split_last CHR ''@'' address = Some (l, domain)" using l by (simp add: split_last_Some_iff)
  obtain body where q: "run_query body w = (Inr (mailbox, i), w')" and
    body: "body = (\<lambda>db. case mailbox_rows db l domain of
              [(i, storedLocal, storedDomain)] \<Rightarrow> Inr (ToLower storedLocal @ ''@'' @ storedDomain, i)
            | _ \<Rightarrow> Inl (Err ''authenticated mailbox is missing or ambiguous''))"
    using mb n sp by (simp add: mailboxObjectByAddress_def)
  note rq = run_query_Inr [OF q assms(3)]
  then show "w_db w' = w_db w" "still w'" by auto
  obtain sl sd where rows: "mailbox_rows (w_db w) l domain = [(i, sl, sd)]" and mx: "mailbox = ToLower sl @ ''@'' @ sd"
    using rq(1) body by (auto split: list.splits)
  obtain m d where md: "m \<in> set (mailboxes (w_db w))" "d \<in> set (domains (w_db w))" "mb_id m = i" "mb_local m = sl"
    "d_name d = sd" "sd = domain" "mb_enabled m" "d_enabled d" "mb_domain m = d_id d" "ToLower sl = ToLower l"
    using mailbox_rows_mem [of i sl sd "w_db w" l domain] rows by auto
  have "owns_mailbox X (w_db w) (er_mailbox req) envelope i"
    unfolding owns_mailbox_def
    using md n l eq mx by (intro bexI [of _ m] bexI [of _ d] exI [of _ l]) (auto simp: EqualFold_def)
  then show "\<exists>i. owns_mailbox X (w_db w) (er_mailbox req) envelope i
     \<and> srcs = [QueueSource SourceAuthenticatedMailbox i, QueueSource SourceEnvelopeSender i]"
    using s by blast
qed

text \<open>The binding behind a submission by a system sender; a null reverse path needs no address.\<close>

definition owns_system :: "external \<Rightarrow> db \<Rightarrow> string \<Rightarrow> string \<Rightarrow> bool" where
  "owns_system X db i envelope \<longleftrightarrow>
     (\<exists>y\<in>set (senders db). \<exists>d\<in>set (domains db).
        ss_id y = i \<and> ss_enabled y \<and> d_enabled d \<and> ss_domain y = d_id d
        \<and> (\<exists>n. normalizeQueueRecipient X (ss_address y) = Inr (ss_address y, n))
        \<and> (envelope = ''<>'' \<or> EqualFold (ss_address y) envelope))"

lemma sender_row_Some:
  "sender_row db i = Some y \<Longrightarrow>
   y \<in> set (senders db) \<and> ss_id y = i \<and> ss_enabled y \<and> (\<exists>d\<in>set (domains db). d_id d = ss_domain y \<and> d_enabled d)"
  by (auto simp: sender_row_def find_Some_iff list_ex_iff)

lemma systemSenderAddress_Inr:
  assumes "systemSenderAddress X i w = (Inr a, w')" and "still w"
  shows "\<exists>y n. sender_row (w_db w) i = Some y \<and> a = ss_address y \<and> normalizeQueueRecipient X a = Inr (a, n)"
    and "w_db w' = w_db w" and "still w'" and "validQueueObjectID i"
proof -
  obtain body where q: "run_query body w = (Inr a, w')" and v: "validQueueObjectID i"
    and body: "body = (\<lambda>db.
        case sender_row db i of
          None \<Rightarrow> Inl (Err ''system sender identity not found'')
        | Some y \<Rightarrow>
           (case normalizeQueueRecipient X (ss_address y) of
              Inl _ \<Rightarrow> Inl (Err ''stored system sender identity is invalid'')
            | Inr (canonical, _) \<Rightarrow>
                if canonical \<noteq> ss_address y then Inl (Err ''stored system sender identity is invalid'')
                else Inr (ss_address y)))"
    using assms(1) by (auto simp: systemSenderAddress_def split: if_splits)
  note rq = run_query_Inr [OF q assms(2)]
  show "w_db w' = w_db w" "still w'" "validQueueObjectID i" using rq v by auto
  show "\<exists>y n. sender_row (w_db w) i = Some y \<and> a = ss_address y \<and> normalizeQueueRecipient X a = Inr (a, n)"
    using rq(1) body by (auto split: option.splits sum.splits if_splits)
qed

lemma authoritySources_system:
  assumes "authoritySources X req envelope w = (Inr srcs, w')" and "still w" and "er_mailbox req = []"
  shows "owns_system X (w_db w) (er_system req) envelope" and "srcs = [QueueSource SourceSystemSender (er_system req)]"
    and "w_db w' = w_db w" and "still w'" and "validQueueObjectID (er_system req)"
proof -
  obtain a where sa: "systemSenderAddress X (er_system req) w = (Inr a, w')"
    and eq: "envelope = ''<>'' \<or> EqualFold a envelope" and s: "srcs = [QueueSource SourceSystemSender (er_system req)]"
    using assms(1,3) by (auto simp: authoritySources_def split: sum.splits prod.splits if_splits)
  note sy = systemSenderAddress_Inr [OF sa assms(2)]
  show "w_db w' = w_db w" "still w'" "srcs = [QueueSource SourceSystemSender (er_system req)]"
    "validQueueObjectID (er_system req)" using sy(2-4) s by auto
  obtain y n where y: "sender_row (w_db w) (er_system req) = Some y" "a = ss_address y" "normalizeQueueRecipient X a = Inr (a, n)"
    using sy(1) by blast
  obtain d where "d \<in> set (domains (w_db w))" "d_id d = ss_domain y" "d_enabled d"
    using sender_row_Some [OF y(1)] by blast
  then show "owns_system X (w_db w) (er_system req) envelope"
    unfolding owns_system_def using sender_row_Some [OF y(1)] y(2,3) eq
    by (intro bexI [of _ y] bexI [of _ d]) auto
qed

text \<open>The authority behind a submission: exactly one of a mailbox and a system sender, which owns the envelope sender.\<close>

definition authenticated :: "external \<Rightarrow> db \<Rightarrow> EnforcementRequest \<Rightarrow> QueueSource list \<Rightarrow> bool" where
  "authenticated X db req authority \<longleftrightarrow>
     (\<exists>envelope. admittedEnvelope X (er_envelope req) = Inr envelope \<and>
       (if er_mailbox req \<noteq> []
        then er_system req = [] \<and>
          (\<exists>i. owns_mailbox X db (er_mailbox req) envelope i
            \<and> authority = [QueueSource SourceAuthenticatedMailbox i, QueueSource SourceEnvelopeSender i])
        else er_system req \<noteq> [] \<and> owns_system X db (er_system req) envelope
          \<and> authority = [QueueSource SourceSystemSender (er_system req)]))"

lemma submissionSources_Inr:
  assumes X: "idna_lookup X" and "still w" and "submissionSources X req w = (Inr srcs, w')"
  shows "\<exists>authority. authenticated X (w_db w) req authority \<and> srcs = authority @ er_sources req"
    and "\<forall>s\<in>set (er_sources req). expansion_source_ok s" and "er_queue_id req = []" and "w_db w' = w_db w" and "still w'"
proof -
  obtain envelope authority where e: "admittedEnvelope X (er_envelope req) = Inr envelope"
    and x: "(er_mailbox req = []) \<noteq> (er_system req = [])"
    and a: "authoritySources X req envelope w = (Inr authority, w')" and s: "srcs = authority @ er_sources req"
    and ok: "\<forall>s\<in>set (er_sources req). expansion_source_ok s" and q: "er_queue_id req = []"
    using assms(3) by (auto simp: submissionSources_def list_ex_iff split: sum.splits prod.splits if_splits)
  show "\<forall>s\<in>set (er_sources req). expansion_source_ok s" "er_queue_id req = []" by fact+
  show "\<exists>authority. authenticated X (w_db w) req authority \<and> srcs = authority @ er_sources req"
  proof (cases "er_mailbox req = []")
    case True
    then show ?thesis using authoritySources_system [OF a assms(2) True] e x s by (auto simp: authenticated_def)
  next
    case False
    then show ?thesis using authoritySources_mailbox(1) [OF X a assms(2) False] e x s by (auto simp: authenticated_def)
  qed
  show "w_db w' = w_db w" "still w'"
    using authoritySources_system(3,4) [OF a assms(2)] authoritySources_mailbox(2,3) [OF X a assms(2)] by blast+
qed

section \<open>Leaves\<close>

text \<open>The decision of the loop for one leaf.\<close>

definition leaf_decision :: "external \<Rightarrow> GoverningDomain list \<Rightarrow> string \<Rightarrow> Decision" where
  "leaf_decision X gs r =
     Evaluate X \<lparr>rq_stage = StageSubmission, rq_queue_id = [], rq_recipient = r, rq_governing = gs\<rparr>"

lemma decideLeaves_Cons:
  assumes "decideLeaves X gs (x # rs) result = Inr (d, r)"
  shows "dec_action (leaf_decision X gs x) = ActionReject \<and> dec_action d = ActionReject \<and> r = Some x
    \<or> dec_action (leaf_decision X gs x) = ActionOK
      \<and> (\<exists>result'. dec_action result' = dec_action result \<and> decideLeaves X gs rs result' = Inr (d, r))"
proof -
  let ?d = "leaf_decision X gs x"
  define revs where "revs = fold (\<lambda>(d, v) m. AList.update d v m) (dec_revisions ?d) (dec_revisions result)"
  define res where "res = result\<lparr>dec_revisions := revs,
    dec_reason := (if dec_reason ?d = ReasonSameDomain then ReasonSameDomain else dec_reason result)\<rparr>"
  have "decideLeaves X gs (x # rs) result =
    (if dec_action ?d = ActionReject then Inr (?d\<lparr>dec_revisions := revs\<rparr>, Some x)
     else if dec_action ?d \<noteq> ActionOK then Inl (Err ''invalid submission expansion policy result'')
     else decideLeaves X gs rs res)"
    by (simp only: decideLeaves.simps Let_def leaf_decision_def res_def revs_def)
  moreover have "dec_action res = dec_action result" by (simp add: res_def)
  ultimately show ?thesis using assms by (auto split: if_splits)
qed

lemma decideLeaves_Inr:
  "decideLeaves X gs rs result = Inr (d, r) \<Longrightarrow>
   (case r of Some x \<Rightarrow> x \<in> set rs \<and> dec_action d = ActionReject
    | None \<Rightarrow> dec_action d = dec_action result \<and> (\<forall>x\<in>set rs. dec_action (leaf_decision X gs x) = ActionOK))"
proof (induction rs arbitrary: result)
  case (Cons x rs)
  from decideLeaves_Cons [OF Cons.prems]
  consider "dec_action d = ActionReject" "r = Some x"
    | result' where "dec_action (leaf_decision X gs x) = ActionOK" "dec_action result' = dec_action result"
      "decideLeaves X gs rs result' = Inr (d, r)"
    by blast
  then show ?case
  proof cases
    case 2
    then show ?thesis using Cons.IH [OF 2(3)] by (simp split: option.splits)
  qed simp
qed (auto split: option.splits)

lemma expandOriginal_world:
  assumes "expandOriginal X raw w = (Inr x, w')" and "still w"
  shows "w_db w' = w_db w \<and> still w'"
  using assms expandLayers_sound [OF _ assms(2) layered_empty]
  by (fastforce simp: expandOriginal_def loadExpansionAliases_def split: sum.splits prod.splits)

text \<open>C7: an SMTP recipient is admitted only if the envelope sender belongs to the authenticated mailbox and every
  address the alias graph of the recipient leads to lies in the domain of every confined source: the
  mailbox, the envelope sender and all aliases on the way. Nothing else in the database plays a role; other
  sessions are assumed not to change it meanwhile.\<close>

theorem DecideSMTPRecipient_confines:
  assumes "idna_lookup X" and "still w"
    and "DecideSMTPRecipient X correlationID mailbox envelope recipient w = ((d, err), w')" and "dec_action d = ActionOK"
  shows "\<exists>original domain i env. normalizeQueueRecipient X recipient = Inr (original, domain)
     \<and> admittedEnvelope X envelope = Inr env \<and> owns_mailbox X (w_db w) mailbox env i
     \<and> well_expanding X (w_db w) original
     \<and> (\<forall>leaf\<in>db_leaves X (w_db w) original.
          confined X (w_db w) ({QueueSource SourceAuthenticatedMailbox i, QueueSource SourceEnvelopeSender i}
                               \<union> db_sources X (w_db w) original) leaf)"
proof -
  let ?req = "\<lparr>er_stage = StageSubmission, er_queue_id = [], er_mailbox = mailbox, er_system = [],
           er_envelope = envelope, er_recipient = recipient, er_sources = []\<rparr>"
  have nu: "dec_action (fst (unavailableDecision e)) \<noteq> ActionOK" for e by (simp add: unavailableDecision_def)
  obtain authority w1 rcpts expansion w2 gs w3 r where s: "submissionSources X ?req w = (Inr authority, w1)"
    and x: "expandOriginal X recipient w1 = (Inr (rcpts, expansion), w2)"
    and p: "resolvePolicySources X (authority @ expansion) w2 = (Inr gs, w3)"
    and l: "decideLeaves X gs rcpts \<lparr>dec_action = ActionOK, dec_reason = ReasonUnrestricted, dec_revisions = []\<rparr> = Inr (d, r)"
    using assms(3,4) nu decideLeaves_Inr
    by (auto simp: DecideSMTPRecipient_def recordSubmissionDecision_def unavailableDecision_def
        split: if_splits sum.splits prod.splits option.splits)
  note ss = submissionSources_Inr [OF assms(1,2) s]
  note ew = expandOriginal_world [OF x ss(5)]
  obtain i env where a: "admittedEnvelope X envelope = Inr env" "owns_mailbox X (w_db w) mailbox env i"
    "authority = [QueueSource SourceAuthenticatedMailbox i, QueueSource SourceEnvelopeSender i]"
    using ss(1) by (auto simp: authenticated_def split: if_splits)
  have c: "confined X (w_db w2) (set (authority @ expansion)) leaf" if "leaf \<in> set rcpts" for leaf
    using Evaluate_OK_confined [OF p, of "\<lparr>rq_stage = StageSubmission, rq_queue_id = [], rq_recipient = leaf, rq_governing = []\<rparr>"]
      decideLeaves_Inr [OF l] assms(4) that ew by (auto simp: leaf_decision_def split: option.splits)
  obtain original domain where o: "normalizeQueueRecipient X recipient = Inr (original, domain)"
    "well_expanding X (w_db w) original" "set rcpts = db_leaves X (w_db w) original" "set expansion = db_sources X (w_db w) original"
    using expandOriginal_Inr [OF ss(5) x] ss(4) by auto
  have "w_db w2 = w_db w" using ew ss(4) by simp
  moreover have "set (authority @ expansion) =
      {QueueSource SourceAuthenticatedMailbox i, QueueSource SourceEnvelopeSender i} \<union> db_sources X (w_db w) original"
    using a(3) o(4) by simp
  ultimately show ?thesis using c o a(1,2) by metis
qed

section \<open>Transport\<close>

lemma run_tx_Inr:
  assumes "run_tx body w = (Inr x, w')"
  shows "\<exists>cx db. body cx db = Inr (x, w_db w') \<and> cx = w_env w (w_count w) \<and> db = cx_other cx (w_db w)"
  using assms by (auto simp: run_tx_def Let_def split: if_splits sum.splits)

lemma sortedStringContains_mem: "sortedStringContains values target \<Longrightarrow> target \<in> set values"
  unfolding sortedStringContains_def Let_def by (metis nth_mem)

lemma Load_Inr:
  assumes "Load X q w = (Inr r, w')" and "still w"
  shows "loadQueueRecord X (w_db w) q = Inr r" and "w_db w' = w_db w" and "still w'"
proof -
  have q: "run_query (\<lambda>db. loadQueueRecord X db q) w = (Inr r, w')"
    using assms(1) by (auto simp: Load_def split: if_splits)
  show "loadQueueRecord X (w_db w) q = Inr r" "w_db w' = w_db w" "still w'" using run_query_Inr [OF q assms(2)] by auto
qed

lemma decideTransport_OK:
  assumes "still w" and "decideTransport X actor correlationID req w = ((d, err), w')" and "dec_action d = ActionOK"
  shows "\<exists>r recipient domain. loadQueueRecord X (w_db w) (er_queue_id req) = Inr r
     \<and> normalizeQueueRecipient X (er_recipient req) = Inr (recipient, domain) \<and> recipient \<in> set (qr_recipients r)
     \<and> confined X (w_db w) (set (qr_sources r)) recipient"
proof -
  obtain r w1 where l: "Load X (er_queue_id req) w = (Inr r, w1)"
    using assms(2,3) by (auto simp: decideTransport_def unavailableDecision_def split: sum.splits prod.splits)
  obtain recipient domain where n: "normalizeQueueRecipient X (er_recipient req) = Inr (recipient, domain)"
    and m: "sortedStringContains (qr_recipients r) recipient"
    using assms(2,3) l by (auto simp: decideTransport_def unavailableDecision_def split: sum.splits prod.splits if_splits)
  obtain gs w2 where p: "resolvePolicySources X (qr_sources r) w1 = (Inr gs, w2)"
    using assms(2,3) l n m by (auto simp: decideTransport_def unavailableDecision_def Let_def split: sum.splits prod.splits)
  let ?rq = "\<lparr>rq_stage = StageTransport, rq_queue_id = qr_queue_id r, rq_recipient = recipient, rq_governing = gs\<rparr>"
  have "d = Evaluate X ?rq"
    using assms(2,3) l n m p
    by (auto simp: decideTransport_def unavailableDecision_def Let_def split: sum.splits prod.splits if_splits)
  then have ok: "dec_action (Evaluate X ?rq) = ActionOK" using assms(3) by simp
  note li = Load_Inr [OF l assms(1)]
  have "confined X (w_db w1) (set (qr_sources r)) recipient"
    using Evaluate_OK_confined [OF p li(3), of "\<lparr>rq_stage = StageTransport, rq_queue_id = qr_queue_id r, rq_recipient = recipient, rq_governing = []\<rparr>"] ok
    by simp
  then show ?thesis using li n sortedStringContains_mem [OF m] by auto
qed

lemma recordSubmissionDecision_cases:
  assumes "recordSubmissionDecision X correlationID r d w = ((d', err), w')"
  obtains "dec_action d = ActionOK" "d' = d" "err = None" "w' = w"
  | e where "err = Some e" "d' = fst (unavailableDecision e)"
  | domain rnd now where "d' = d" "err = None" "dec_action d \<noteq> ActionOK" "recipientDomain X r = Inr domain"
      "\<exists>rows. audit_events (w_db w') = rows @ [audit_row rnd now (submission_event correlationID domain d)]"
proof (cases "dec_action d = ActionOK")
  case True
  then have "d' = d" "err = None" "w' = w" using assms by (auto simp: recordSubmissionDecision_def)
  then show ?thesis using True that(1) by blast
next
  case False
  show ?thesis
  proof (cases "recipientDomain X r")
    case (Inl e)
    then have "err = Some e" "d' = fst (unavailableDecision e)"
      using assms False by (auto simp: recordSubmissionDecision_def unavailableDecision_def)
    then show ?thesis using that(2) by blast
  next
    case (Inr domain)
    let ?body = "\<lambda>(cx :: tx_ctx) db. map_sum id (Pair ()) (WriteSQL (cx_rnd cx) (cx_now cx) (submission_event correlationID domain d) db)"
    obtain res w1 where t: "run_tx ?body w = (res, w1)" by fastforce
    show ?thesis
    proof (cases res)
      case (Inl e)
      then have "err = Some e" "d' = fst (unavailableDecision e)"
        using assms False Inr t by (auto simp: recordSubmissionDecision_def unavailableDecision_def)
      then show ?thesis using that(2) by blast
    next
      case res: (Inr u)
      then have "run_tx ?body w = (Inr u, w1)" using t by simp
      from run_tx_Inr [OF this] obtain cx db where "?body cx db = Inr (u, w_db w1)"
        by blast
      then have "WriteSQL (cx_rnd cx) (cx_now cx) (submission_event correlationID domain d) db = Inr (w_db w1)"
        by (cases "WriteSQL (cx_rnd cx) (cx_now cx) (submission_event correlationID domain d) db") auto
      then have "\<exists>rows. audit_events (w_db w1) = rows @ [audit_row (cx_rnd cx) (cx_now cx) (submission_event correlationID domain d)]"
        by (auto dest: WriteSQL_Inr)
      moreover have "d' = d" "err = None" "w' = w1" using assms False Inr t res by (auto simp: recordSubmissionDecision_def)
      ultimately show ?thesis using that(3) False Inr by blast
    qed
  qed
qed

text \<open>C6: \<open>Decide\<close> admits a recipient at submission only for an authenticated mailbox or system sender that owns the
  envelope sender, and at transport only for a recipient of the stored message; in both cases the recipient lies in the
  domain of every source that is confined.\<close>

theorem Decide_confines:
  assumes "idna_lookup X" and "still w" and "Decide X actor correlationID req w = ((d, err), w')" and "dec_action d = ActionOK"
  shows "if er_stage req = StageSubmission
     then \<exists>authority. authenticated X (w_db w) req authority
       \<and> confined X (w_db w) (set authority \<union> set (er_sources req)) (er_recipient req)
     else er_stage req = StageTransport \<and>
       (\<exists>r recipient domain. loadQueueRecord X (w_db w) (er_queue_id req) = Inr r
         \<and> normalizeQueueRecipient X (er_recipient req) = Inr (recipient, domain) \<and> recipient \<in> set (qr_recipients r)
         \<and> confined X (w_db w) (set (qr_sources r)) recipient)"
proof (cases "er_stage req = StageSubmission")
  case True
  have ds: "decideSubmission X correlationID req w = ((d, err), w')"
    using assms(3,4) True by (auto simp: Decide_def unavailableDecision_def split: if_splits)
  obtain srcs w1 gs w2 where s: "submissionSources X req w = (Inr srcs, w1)" and p: "resolvePolicySources X srcs w1 = (Inr gs, w2)"
    using ds assms(4) by (auto simp: decideSubmission_def unavailableDecision_def split: sum.splits prod.splits)
  let ?rq = "\<lparr>rq_stage = StageSubmission, rq_queue_id = [], rq_recipient = er_recipient req, rq_governing = gs\<rparr>"
  have "recordSubmissionDecision X correlationID (er_recipient req) (Evaluate X ?rq) w2 = ((d, err), w')"
    using ds s p by (simp add: decideSubmission_def)
  then have "dec_action (Evaluate X ?rq) = ActionOK"
    by (cases rule: recordSubmissionDecision_cases) (use assms(4) in \<open>auto simp: unavailableDecision_def\<close>)
  note ss = submissionSources_Inr [OF assms(1,2) s]
  from Evaluate_OK_confined [OF p ss(5), of "\<lparr>rq_stage = StageSubmission, rq_queue_id = [], rq_recipient = er_recipient req, rq_governing = []\<rparr>"]
    \<open>dec_action (Evaluate X ?rq) = ActionOK\<close>
  have "confined X (w_db w) (set srcs) (er_recipient req)" using ss(4) by simp
  then show ?thesis using True ss(1) by auto
next
  case False
  have "er_stage req = StageTransport \<and> decideTransport X actor correlationID req w = ((d, err), w')"
    using assms(3,4) False by (auto simp: Decide_def unavailableDecision_def split: if_splits)
  then show ?thesis using False decideTransport_OK [OF assms(2) _ assms(4)] by auto
qed

text \<open>C32: a hold decision at transport is returned only once it is durable: the stored message then requires, undergoes or
  has a hold, with the reason and the policy revisions of the decision.\<close>

theorem Decide_hold_recorded:
  assumes "idna_lookup X" and "er_stage req = StageTransport" and "Decide X actor correlationID req w = ((d, None), w')"
    and "dec_action d = ActionDefer" and "dec_reason d = ReasonPolicyHold"
  shows "\<exists>m revs prior. find_message (w_db w') (er_queue_id req) = Some m
     \<and> m_hold_state m \<in> {HoldRequired, HoldReconciling, HoldApplied, HoldReconciliationError}
     \<and> m_reason m = Some ReasonPolicyHold
     \<and> canonicalPolicyRevisions X (dec_revisions d) = Inr revs \<and> m_revisions m = Some prior \<and> revisionMapsEqual prior revs"
proof -
  have dt: "decideTransport X actor correlationID req w = ((d, None), w')"
    using assms(2-5) by (auto simp: Decide_def unavailableDecision_def split: if_splits)
  obtain r w1 where l: "Load X (er_queue_id req) w = (Inr r, w1)"
    using dt by (auto simp: decideTransport_def unavailableDecision_def split: sum.splits prod.splits)
  have q: "qr_queue_id r = er_queue_id req"
    using l by (auto simp: Load_def run_query_def Let_def split: if_splits dest!: loadQueueRecord_Inr loadParent_Inr)
  obtain w2 where rh: "RequireHold X (hold_actor actor) correlationID (qr_queue_id r) d w2 = (Inr (), w')"
    using dt l assms(4,5)
    by (auto simp: decideTransport_def unavailableDecision_def Let_def split: sum.splits prod.splits if_splits)
  obtain revs where c: "canonicalPolicyRevisions X (dec_revisions d) = Inr revs"
    and t: "run_tx (requireHold_tx X (hold_actor actor) correlationID (qr_queue_id r) d revs) w2 = (Inr (), w')"
    using rh by (auto simp: RequireHold_def split: if_splits sum.splits)
  have ok: "require_ok X d revs" using canonicalPolicyRevisions_ok [OF assms(1) c] assms(5) by (simp add: require_ok_def)
  obtain cx db where tx: "requireHold_tx X (hold_actor actor) correlationID (qr_queue_id r) d revs cx db = Inr ((), w_db w')"
    using run_tx_Inr [OF t] by blast
  from requireHold_tx_Inr [OF tx] show ?thesis
  proof
    assume "w_db w' = db \<and> (\<exists>m prior. find_message db (qr_queue_id r) = Some m \<and> m_reason m = Some (dec_reason d)
       \<and> m_revisions m = Some prior \<and> revisionMapsEqual prior revs
       \<and> m_hold_state m \<in> {HoldRequired, HoldReconciling, HoldApplied, HoldReconciliationError})"
    then show ?thesis using c q assms(5) by auto
  next
    assume mv: "moved X (qr_queue_id r) (\<lambda>_. True) (require_row d revs cx) db (w_db w')"
    then have "moved X (qr_queue_id r) (\<lambda>_. require_ok X d revs) (require_row d revs cx) db (w_db w')" using ok by simp
    note f = require_hold.moved_find [OF this]
    have "qr_queue_id r \<in> m_queue_id ` set (messages db)" using mv unfolding moved_def by (metis imageI)
    then obtain m where "find_message db (qr_queue_id r) = Some m"
      using find_message_None [of db "qr_queue_id r"] by blast
    then have "find_message (w_db w') (qr_queue_id r) = Some (require_row d revs cx m)"
      using f [of "qr_queue_id r"] ok find_message_Some [of db "qr_queue_id r" m] by simp
    moreover have "revisionMapsEqual revs revs"
      using ok revisionMapsEqual_refl by (simp add: require_ok_def revisions_ok_def)
    ultimately show ?thesis using c q assms(5) by auto
  qed
qed

section \<open>Failing closed\<close>

lemma recordSubmissionDecision_error:
  "recordSubmissionDecision X correlationID r d w = ((d', Some e), w') \<Longrightarrow> d' = fst (unavailableDecision e)"
  by (erule recordSubmissionDecision_cases) auto

text \<open>C34: whenever a decision is returned with an error it is the deferral for unavailability: no error path of
  \<open>Decide\<close> or \<open>DecideSMTPRecipient\<close> admits or rejects a recipient.\<close>

theorem decisions_fail_closed:
  assumes "Decide X actor correlationID req w = ((d, Some e), w')
    \<or> DecideSMTPRecipient X correlationID mailbox envelope recipient w = ((d, Some e), w')"
  shows "d = \<lparr>dec_action = ActionDefer, dec_reason = ReasonUnavailable, dec_revisions = []\<rparr>"
  using assms
proof
  assume "Decide X actor correlationID req w = ((d, Some e), w')"
  then show ?thesis
    by (auto simp: Decide_def decideSubmission_def decideTransport_def unavailableDecision_def Let_def
        split: if_splits sum.splits prod.splits dest!: recordSubmissionDecision_error)
next
  assume "DecideSMTPRecipient X correlationID mailbox envelope recipient w = ((d, Some e), w')"
  then show ?thesis
    by (auto simp: DecideSMTPRecipient_def unavailableDecision_def
        split: if_splits sum.splits prod.splits option.splits dest!: recordSubmissionDecision_error)
qed

text \<open>C33: a rejection is returned only once it is in the audit log: the last row of the log then is the denial of
  this request, with its correlation ID, the domain of a recipient, and the reason and revisions of the decision.\<close>

theorem rejections_audited:
  assumes "Decide X actor correlationID req w = ((d, err), w')
    \<or> DecideSMTPRecipient X correlationID mailbox envelope recipient w = ((d, err), w')"
    and "dec_action d = ActionReject"
  shows "\<exists>rows rnd now domain. audit_events (w_db w') = rows @ [audit_row rnd now (submission_event correlationID domain d)]"
  using assms(1)
proof
  assume a: "Decide X actor correlationID req w = ((d, err), w')"
  show ?thesis
  proof (cases "er_stage req = StageSubmission")
    case True
    then have "decideSubmission X correlationID req w = ((d, err), w')"
      using a assms(2) by (auto simp: Decide_def unavailableDecision_def split: if_splits)
    then obtain r d0 w2 where "recordSubmissionDecision X correlationID r d0 w2 = ((d, err), w')"
      using assms(2) by (auto simp: decideSubmission_def unavailableDecision_def split: sum.splits prod.splits)
    then show ?thesis
      by (cases rule: recordSubmissionDecision_cases) (use assms(2) in \<open>auto simp: unavailableDecision_def\<close>)
  next
    case False
    then have "decideTransport X actor correlationID req w = ((d, err), w')"
      using a assms(2) by (auto simp: Decide_def unavailableDecision_def split: if_splits)
    then obtain rq where "d = Evaluate X rq" "rq_stage rq = StageTransport"
      using assms(2)
      by (auto simp: decideTransport_def unavailableDecision_def Let_def split: sum.splits prod.splits if_splits)
    then show ?thesis using assms(2) Evaluate_verdict [of X rq] by (auto simp: spec_verdict_def Let_def split: if_splits)
  qed
next
  assume a: "DecideSMTPRecipient X correlationID mailbox envelope recipient w = ((d, err), w')"
  have "\<exists>r d0 w3. recordSubmissionDecision X correlationID r d0 w3 = ((d, err), w')"
    using a assms(2) decideLeaves_Inr
    by (fastforce simp: DecideSMTPRecipient_def unavailableDecision_def split: if_splits sum.splits prod.splits option.splits)
  then obtain r d0 w3 where "recordSubmissionDecision X correlationID r d0 w3 = ((d, err), w')" by blast
  then show ?thesis
    by (cases rule: recordSubmissionDecision_cases) (use assms(2) in \<open>auto simp: unavailableDecision_def\<close>)
qed

section \<open>System senders\<close>

definition sender_keys :: "db \<Rightarrow> bool" where
  "sender_keys db \<longleftrightarrow> distinct (map ss_id (senders db)) \<and> distinct (map ss_address (senders db))"

definition binding_of :: "SenderRow \<Rightarrow> SystemSenderBinding" where
  "binding_of y =
     \<lparr>sb_id = ss_id y, sb_domain_id = ss_domain y, sb_address = ss_address y, sb_enabled = ss_enabled y,
      sb_revision = of_int (ss_revision y)\<rparr>"

lemma bind_tx_Inr:
  assumes "bind_tx X actor correlationID i address domain cx db = Inr (b, db')"
  obtains d n db1 y where "List.find (\<lambda>d. d_name d = domain \<and> d_enabled d) (domains db) = Some d"
    and "insert_sender X \<lparr>ss_id = i, ss_domain = d_id d, ss_address = address, ss_enabled = True, ss_revision = 1,
           ss_created = cx_now cx, ss_updated = cx_now cx\<rparr> db = Inr (n, db1)"
    and "List.find (\<lambda>y. ss_id y = i) (senders db1) = Some y"
    and "ss_domain y = d_id d" and "ss_address y = address" and "ss_enabled y" and "0 < ss_revision y" and "b = binding_of y"
    and "if n = 1 then \<exists>e. WriteSQL (cx_rnd cx) (cx_now cx) e db1 = Inr db' else db' = db1"
proof -
  obtain d where d: "List.find (\<lambda>d. d_name d = domain \<and> d_enabled d) (domains db) = Some d"
    using assms by (auto simp: bind_tx_def split: option.splits)
  let ?row = "\<lparr>ss_id = i, ss_domain = d_id d, ss_address = address, ss_enabled = True, ss_revision = 1,
    ss_created = cx_now cx, ss_updated = cx_now cx\<rparr>"
  obtain n db1 where ins: "insert_sender X ?row db = Inr (n, db1)"
    using assms d by (auto simp: bind_tx_def split: sum.splits)
  obtain y where y: "List.find (\<lambda>y. ss_id y = i) (senders db1) = Some y"
    using assms d ins by (auto simp: bind_tx_def split: option.splits)
  have ok: "\<not> (ss_domain y \<noteq> d_id d \<or> ss_address y \<noteq> address \<or> \<not> ss_enabled y \<or> ss_revision y \<le> 0)"
    using assms d ins y by (auto simp: bind_tx_def split: if_splits)
  have b: "b = binding_of y" "if n = 1 then \<exists>e. WriteSQL (cx_rnd cx) (cx_now cx) e db1 = Inr db' else db' = db1"
    using assms d ins y ok by (auto simp: bind_tx_def binding_of_def Let_def split: if_splits sum.splits)
  show thesis by (rule that [OF d ins y]) (use ok b in auto)
qed

lemma find_key_Some: "List.find (\<lambda>y. k y = a) xs = Some y \<Longrightarrow> y \<in> set xs \<and> k y = a"
  by (auto simp: find_Some_iff)

text \<open>C35: a system sender ID is bound once. After a successful \<open>Bind\<close> the ID has an enabled row with exactly this address,
  older rows are untouched and no ID or address occurs twice; binding it to the same address again changes
  nothing, and binding it to another address fails.\<close>

theorem bind_tx_once:
  assumes "sender_keys db" and "bind_tx X actor correlationID i address domain cx db = Inr (b, db')"
  shows "sender_keys db'
    \<and> (\<exists>new. senders db' = senders db @ new \<and> length new \<le> 1)
    \<and> (\<exists>y\<in>set (senders db'). ss_id y = i \<and> ss_address y = address \<and> ss_enabled y \<and> b = binding_of y)
    \<and> bind_tx X actor' correlationID' i address domain cx' db' = Inr (b, db')
    \<and> (address' \<noteq> address \<longrightarrow> (\<exists>e. bind_tx X actor' correlationID' i address' domain' cx' db' = Inl e))"
proof -
  from assms(2) obtain d n db1 y where d: "List.find (\<lambda>d. d_name d = domain \<and> d_enabled d) (domains db) = Some d"
    and ins: "insert_sender X \<lparr>ss_id = i, ss_domain = d_id d, ss_address = address, ss_enabled = True, ss_revision = 1,
           ss_created = cx_now cx, ss_updated = cx_now cx\<rparr> db = Inr (n, db1)"
    and y: "List.find (\<lambda>y. ss_id y = i) (senders db1) = Some y" "ss_domain y = d_id d" "ss_address y = address" "ss_enabled y"
      "0 < ss_revision y" "b = binding_of y"
    and fin: "if n = 1 then \<exists>e. WriteSQL (cx_rnd cx) (cx_now cx) e db1 = Inr db' else db' = db1"
    by (rule bind_tx_Inr)
  have same: "senders db' = senders db1" "domains db' = domains db1"
    using fin by (auto split: if_splits dest: WriteSQL_Inr)
  note new = insert_sender_Inr [OF ins]
  have doms: "domains db1 = domains db" using new by auto
  have keys: "sender_keys db'" using assms(1) new same by (auto simp: sender_keys_def)
  have app: "\<exists>new. senders db' = senders db @ new \<and> length new \<le> 1" using new same by auto
  have yin: "y \<in> set (senders db')" "ss_id y = i" using find_key_Some [OF y(1)] same by auto
  have chk: "check_sender X \<lparr>ss_id = i, ss_domain = d_id d, ss_address = address, ss_enabled = True, ss_revision = 1,
           ss_created = cx_now cx', ss_updated = cx_now cx'\<rparr>"
    using ins by (auto simp: insert_sender_def check_sender_def split: if_splits)
  have known: "list_ex (\<lambda>z. ss_id z = i) (senders db')" using yin by (auto simp: list_ex_iff)
  have again: "bind_tx X actor' correlationID' i address domain cx' db' = Inr (b, db')"
    using d doms same chk known y by (simp add: bind_tx_def insert_sender_def Let_def binding_of_def)
  have rebind: "\<exists>e. bind_tx X actor' correlationID' i address' domain' cx' db' = Inl e" if n: "address' \<noteq> address"
  proof (rule ccontr)
    assume "\<nexists>e. bind_tx X actor' correlationID' i address' domain' cx' db' = Inl e"
    then obtain b' db'' where r: "bind_tx X actor' correlationID' i address' domain' cx' db' = Inr (b', db'')"
      by (cases "bind_tx X actor' correlationID' i address' domain' cx' db'") auto
    then obtain d' :: DomainRow and n' db1' y' where i': "insert_sender X \<lparr>ss_id = i, ss_domain = d_id d', ss_address = address', ss_enabled = True,
          ss_revision = 1, ss_created = cx_now cx', ss_updated = cx_now cx'\<rparr> db' = Inr (n', db1')"
      and y': "List.find (\<lambda>y. ss_id y = i) (senders db1') = Some y'" "ss_address y' = address'"
      by (rule bind_tx_Inr) metis
    have "db1' = db'" using i' known by (auto simp: insert_sender_def split: if_splits)
    then have "y' = y" using y'(1) y(1) same by simp
    then show False using y'(2) y(3) n by simp
  qed
  show ?thesis using keys app yin y(3,4,6) again rebind by blast
qed

section \<open>Admission to the queue\<close>

lemma resolveExpansionDeliveries_world:
  assumes "resolveExpansionDeliveries X deliveries w = (Inr srcs, w')" and "still w"
  shows "w_db w' = w_db w" and "still w'"
proof -
  obtain canonical amap where c: "mapR (canonicalDelivery X) deliveries = Inr canonical"
    and l: "loadExpansionAliases X (map dl_original canonical) w = (Inr amap, w')"
    using assms(1) by (auto simp: resolveExpansionDeliveries_def split: sum.splits prod.splits)
  show "w_db w' = w_db w" "still w'"
    using expandLayers_sound [OF l [unfolded loadExpansionAliases_def] assms(2) layered_empty] by auto
qed

lemma canonicalDelivery_final:
  "canonicalDelivery X d = Inr c \<Longrightarrow>
     \<not> isl (normalizeQueueRecipient X (dl_recipient d)) \<and> dl_recipient c = fst (projr (normalizeQueueRecipient X (dl_recipient d)))"
  by (auto simp: canonicalDelivery_def split: sum.splits prod.splits)

lemma canonical_recipients:
  assumes "mapR (canonicalDelivery X) deliveries = Inr canonical"
  shows "dl_recipient ` set canonical = (\<lambda>r. fst (projr (normalizeQueueRecipient X r))) ` dl_recipient ` set deliveries"
proof -
  have "map dl_recipient canonical = map (\<lambda>d. fst (projr (normalizeQueueRecipient X (dl_recipient d)))) deliveries"
    using assms by (induction deliveries arbitrary: canonical) (auto split: sum.splits dest!: canonicalDelivery_final)
  then have "set (map dl_recipient canonical) = set (map (\<lambda>d. fst (projr (normalizeQueueRecipient X (dl_recipient d)))) deliveries)"
    by (rule arg_cong)
  then show ?thesis by (simp add: image_image)
qed

lemma registered_recipients:
  assumes "normalizeQueueRegistration X r = Inr record"
  shows "set (qr_recipients record) = (\<lambda>r. fst (projr (normalizeQueueRecipient X r))) ` set (qreg_recipients r)"
    and "set (qr_sources record) = set (qreg_sources r)"
proof -
  obtain sender pairs where p: "map (normalizeQueueRecipient X) (qreg_recipients r) = map Inr pairs"
    and q: "qr_recipients record = sorted_set (map fst pairs)" "qr_sources record = sorted_set (qreg_sources r)"
    using assms unfolding normalizeQueueRegistration_Inr by auto
  have "map (\<lambda>r. fst (projr (normalizeQueueRecipient X r))) (qreg_recipients r) = map fst pairs"
    using arg_cong [OF p, of "map (\<lambda>x. fst (projr x))"] by (simp add: comp_def)
  then show "set (qr_recipients record) = (\<lambda>r. fst (projr (normalizeQueueRecipient X r))) ` set (qreg_recipients r)"
    using q(1) by (metis list.set_map set_sorted_set)
  show "set (qr_sources record) = set (qreg_sources r)" using q(2) by simp
qed

text \<open>The request that authenticates the sender of an admission.\<close>

definition admission_request :: "QueueAdmissionRequest \<Rightarrow> EnforcementRequest" where
  "admission_request req =
     \<lparr>er_stage = StageSubmission, er_queue_id = [], er_mailbox = ad_mailbox req, er_system = ad_system req,
      er_envelope = qm_sender (ad_metadata req), er_recipient = dl_recipient (ad_deliveries req ! 0), er_sources = []\<rparr>"

lemma admitAuthority_Inr:
  assumes "idna_lookup X" and "still w" and "admitAuthority X req w = (Inr authority, w')"
  shows "if ad_mailbox req = [] \<and> ad_system req = [] then authority = []
         else authenticated X (w_db w) (admission_request req) authority"
    and "w_db w' = w_db w" and "still w'"
proof -
  have *: "ad_mailbox req = [] \<and> ad_system req = [] \<and> authority = [] \<and> w' = w
      \<or> \<not> (ad_mailbox req = [] \<and> ad_system req = []) \<and> submissionSources X (admission_request req) w = (Inr authority, w')"
    using assms(3) by (auto simp: admitAuthority_def admission_request_def split: if_splits)
  note s = submissionSources_Inr [OF assms(1,2), of "admission_request req" authority w']
  show "if ad_mailbox req = [] \<and> ad_system req = [] then authority = []
         else authenticated X (w_db w) (admission_request req) authority"
    using * s(1) by (auto simp: admission_request_def)
  show "w_db w' = w_db w" "still w'" using * s(4,5) assms(2) by auto
qed

lemma Admit_Inr:
  assumes "idna_lookup X" and "still w" and "Admit X req w = (Inr (r, created), w')"
  shows "\<exists>authority canonical record.
     (if ad_mailbox req = [] \<and> ad_system req = [] then authority = []
      else authenticated X (w_db w) (admission_request req) authority)
     \<and> mapR (canonicalDelivery X) (ad_deliveries req) = Inr canonical
     \<and> (\<forall>d\<in>set canonical. dl_original d \<noteq> dl_recipient d \<longrightarrow> dl_recipient d \<in> db_leaves X (w_db w) (dl_original d))
     \<and> set (qr_recipients record) = dl_recipient ` set canonical
     \<and> set (qr_sources record) = set authority
         \<union> (\<Union>d\<in>{d \<in> set canonical. dl_original d \<noteq> dl_recipient d}. db_sources X (w_db w) (dl_original d))
     \<and> qr_recipient_digest record = digestStrings (qr_recipients record)
     \<and> qr_source_digest record = digestSources (qr_sources record)
     \<and> sameQueueIdentity r record \<and> loadQueueRecord X (w_db w') (qm_queue_id (ad_metadata req)) = Inr r"
proof -
  let ?m = "ad_metadata req"
  obtain authority w1 expansion w2 where v: "validateQueueDeliveries X (qm_recipients ?m) (ad_deliveries req) = None"
    and a: "admitAuthority X req w = (Inr authority, w1)"
    and e: "resolveExpansionDeliveries X (ad_deliveries req) w1 = (Inr expansion, w2)"
    and g: "Register X \<lparr>qreg_queue_id = qm_queue_id ?m, qreg_fingerprint = qm_fingerprint ?m, qreg_sender = qm_sender ?m,
              qreg_recipients = qm_recipients ?m, qreg_sources = authority @ expansion\<rparr> w2 = (Inr (r, created), w')"
    using assms(3) by (auto simp: Admit_def Let_def split: if_splits option.splits sum.splits prod.splits)
  let ?reg = "\<lparr>qreg_queue_id = qm_queue_id ?m, qreg_fingerprint = qm_fingerprint ?m, qreg_sender = qm_sender ?m,
              qreg_recipients = qm_recipients ?m, qreg_sources = authority @ expansion\<rparr>"
  note auth = admitAuthority_Inr [OF assms(1,2) a]
  obtain canonical where c: "mapR (canonicalDelivery X) (ad_deliveries req) = Inr canonical"
    and l: "\<forall>d\<in>set canonical. dl_original d \<noteq> dl_recipient d \<longrightarrow> dl_recipient d \<in> db_leaves X (w_db w) (dl_original d)"
    and x: "set expansion = (\<Union>d\<in>{d \<in> set canonical. dl_original d \<noteq> dl_recipient d}. db_sources X (w_db w) (dl_original d))"
    using resolveExpansionDeliveries_Inr [OF auth(3) e] auth(2) by auto
  obtain rec where n: "normalizeQueueRegistration X ?reg = Inr rec"
    and t: "run_tx (\<lambda>cx. register_tx X rec (cx_now cx)) w2 = (Inr (r, created), w')"
    using g by (auto simp: Register_def split: sum.splits)
  obtain cx :: tx_ctx and db where tx: "register_tx X rec (cx_now cx) db = Inr ((r, created), w_db w')"
    using run_tx_Inr [OF t] by auto
  have id: "qr_queue_id rec = qm_queue_id ?m" "qr_recipient_digest rec = digestStrings (qr_recipients rec)"
    "qr_source_digest rec = digestSources (qr_sources rec)"
    using n unfolding normalizeQueueRegistration_Inr by auto
  note reg = registered_recipients [OF n]
  have "recipient_set X (map dl_recipient (ad_deliveries req)) = recipient_set X (qm_recipients ?m)"
    "recipient_set X (qm_recipients ?m) \<noteq> None"
    using v unfolding validateQueueDeliveries_iff by auto
  then have "set (qr_recipients rec) = dl_recipient ` set canonical"
    using reg(1) canonical_recipients [OF c] by (auto simp: recipient_set_def split: if_splits)
  then show ?thesis
    using auth(1) c l x reg(2) register_tx_Inr(1,2) [OF tx] id by (intro exI [of _ authority] exI [of _ canonical] exI [of _ rec]) simp
qed

text \<open>C4: a message is admitted to the queue only with a proved provenance. The stored record then has the identity of
  a record whose recipients are exactly the final recipients of the deliveries and whose sources are those of the
  authenticated sender together with every alias between an original recipient and its final ones; each final
  recipient is a leaf of the alias graph below its original.\<close>

theorem Admit_provenance:
  assumes "idna_lookup X" and "still w" and "Admit X req w = (Inr (r, created), w')"
  shows "\<exists>authority canonical record.
     (if ad_mailbox req = [] \<and> ad_system req = [] then authority = []
      else authenticated X (w_db w) (admission_request req) authority)
     \<and> mapR (canonicalDelivery X) (ad_deliveries req) = Inr canonical
     \<and> (\<forall>d\<in>set canonical. dl_original d \<noteq> dl_recipient d \<longrightarrow> dl_recipient d \<in> db_leaves X (w_db w) (dl_original d))
     \<and> set (qr_recipients record) = dl_recipient ` set canonical
     \<and> set (qr_sources record) = set authority
         \<union> (\<Union>d\<in>{d \<in> set canonical. dl_original d \<noteq> dl_recipient d}. db_sources X (w_db w) (dl_original d))
     \<and> qr_recipient_digest record = digestStrings (qr_recipients record)
     \<and> qr_source_digest record = digestSources (qr_sources record)
     \<and> sameQueueIdentity r record \<and> loadQueueRecord X (w_db w') (qm_queue_id (ad_metadata req)) = Inr r"
  by (rule Admit_Inr [OF assms])

section \<open>Witnesses\<close>

definition mail_db :: db where
  "mail_db = graph_db\<lparr>mailboxes := [\<lparr>mb_id = ''m1'', mb_domain = ''d1'', mb_local = ''a'', mb_enabled = True\<rparr>]\<rparr>"

lemma mail_rows:
  "mailbox_rows mail_db ''a'' ''x.io'' = [(''m1'', ''a'', ''x.io'')]"
  "split_last CHR ''@'' ''a@x.io'' = Some (''a'', ''x.io'')" "ToLower ''a'' = ''a''" "EqualFold ''a@x.io'' ''a@x.io''"
  "validPolicyCorrelationID ''c1''" "validSourceKind SourceEnvelopeSender" "validSourceKind SourceAuthenticatedMailbox"
  "validQueueObjectID ''m1''"
  by code_simp+

lemma mail_audit: "audit_events mail_db = []"
  by (simp add: mail_db_def graph_db_def empty_db_def)

lemma audit_row_fields:
  "ar_actor (audit_row rnd now e) = ev_actor e" "ar_action (audit_row rnd now e) = ev_action e"
  "ar_resource (audit_row rnd now e) = ev_resource e" "ar_correlation (audit_row rnd now e) = ev_correlation e"
  "ar_result (audit_row rnd now e) = ev_result e"
  by (simp_all add: audit_row_def Normalize_def Let_def)

lemma pg_words:
  "pg_text ''service''" "pg_text ''outbound-policy''" "pg_text ''submission''" "pg_text ''outbound_submission''"
  "pg_text ''outbound.policy.reject''" "pg_text ''c1''"
  by code_simp+

lemma mail_domain:
  "NormalizeDomain ascii_external ''x.io'' = Inr ''x.io''"
  "recipientDomain ascii_external ''a@x.io'' = Inr ''x.io''" "recipientDomain ascii_external ''b@y.io'' = Inr ''y.io''"
  by code_simp+

lemma mail_sources:
  "submissionSources ascii_external
     \<lparr>er_stage = StageSubmission, er_queue_id = [], er_mailbox = ''a@x.io'', er_system = [], er_envelope = ''a@x.io'',
      er_recipient = r, er_sources = []\<rparr> (sample_world mail_db)
   = (Inr [QueueSource SourceAuthenticatedMailbox ''m1'', QueueSource SourceEnvelopeSender ''m1''], (sample_world mail_db)\<lparr>w_count := 1\<rparr>)"
  by (simp add: submissionSources_def admittedEnvelope_def authoritySources_def mailboxObjectByAddress_def graph_addresses mail_rows
      run_query_def Let_def sample_world_def quiet_def)

lemma mail_policy:
  "src_object s = ''m1'' \<Longrightarrow> src_kind s = SourceAuthenticatedMailbox \<or> src_kind s = SourceEnvelopeSender \<Longrightarrow>
   governing_row ascii_external (policy_row mail_db s) = Inr \<lparr>gd_domain = ''x.io'', gd_scope = ScopeSameDomainOnly, gd_revision = 4\<rparr>"
  by (auto simp: governing_row_def policy_row_def source_owner_def mail_db_def graph_db_def mail_domain validScope_def)

abbreviation mail_governing :: GoverningDomain where
  "mail_governing \<equiv> \<lparr>gd_domain = ''x.io'', gd_scope = ScopeSameDomainOnly, gd_revision = 4\<rparr>"

lemma mail_evaluate:
  "Evaluate ascii_external \<lparr>rq_stage = StageSubmission, rq_queue_id = [], rq_recipient = ''a@x.io'', rq_governing = [mail_governing, mail_governing]\<rparr>
   = \<lparr>dec_action = ActionOK, dec_reason = ReasonSameDomain, dec_revisions = [(''x.io'', 4)]\<rparr>"
  "Evaluate ascii_external \<lparr>rq_stage = StageSubmission, rq_queue_id = [], rq_recipient = ''b@y.io'', rq_governing = [mail_governing, mail_governing]\<rparr>
   = \<lparr>dec_action = ActionReject, dec_reason = ReasonRecipientForbidden, dec_revisions = [(''x.io'', 4)]\<rparr>"
  by (simp_all add: Evaluate_def mail_domain maxGoverningDomains_def validScope_def)

lemma mail_resolve:
  "resolvePolicySources ascii_external [QueueSource SourceAuthenticatedMailbox ''m1'', QueueSource SourceEnvelopeSender ''m1'']
     ((sample_world mail_db)\<lparr>w_count := k\<rparr>)
   = (Inr [mail_governing, mail_governing], (sample_world mail_db)\<lparr>w_count := Suc k\<rparr>)"
  by (simp add: resolvePolicySources_def mail_policy mail_rows run_query_def Let_def sample_world_def quiet_def maxQueueSources_def)

abbreviation mail_request :: "string \<Rightarrow> EnforcementRequest" where
  "mail_request r \<equiv>
     \<lparr>er_stage = StageSubmission, er_queue_id = [], er_mailbox = ''a@x.io'', er_system = [], er_envelope = ''a@x.io'',
      er_recipient = r, er_sources = []\<rparr>"

abbreviation nobody :: ActorRef where "nobody \<equiv> \<lparr>actor_type = [], actor_id = []\<rparr>"

lemma mail_decide:
  "Decide ascii_external nobody ''c1'' (mail_request ''a@x.io'') (sample_world mail_db)
   = ((\<lparr>dec_action = ActionOK, dec_reason = ReasonSameDomain, dec_revisions = [(''x.io'', 4)]\<rparr>, None), (sample_world mail_db)\<lparr>w_count := 2\<rparr>)"
  by (simp add: Decide_def mail_rows decideSubmission_def mail_sources mail_resolve mail_evaluate recordSubmissionDecision_def)

lemma mail_reject:
  "\<exists>w'. Decide ascii_external nobody ''c1'' (mail_request ''b@y.io'') (sample_world mail_db)
   = ((\<lparr>dec_action = ActionReject, dec_reason = ReasonRecipientForbidden, dec_revisions = [(''x.io'', 4)]\<rparr>, None), w')"
  by (simp add: Decide_def mail_rows decideSubmission_def mail_sources mail_resolve mail_evaluate recordSubmissionDecision_def mail_domain)
    (simp add: run_tx_def WriteSQL_def Let_def audit_row_fields mail_audit pg_words sample_world_def quiet_def submission_event_def)

lemma mail_expand:
  "expandOriginal ascii_external ''a@x.io'' ((sample_world mail_db)\<lparr>w_count := k\<rparr>) =
   (Inr ([''a@x.io''], []), (sample_world mail_db)\<lparr>w_count := Suc k\<rparr>)"
proof -
  have "address_rows mail_db ''a@x.io'' = []" by code_simp
  then show ?thesis
    by (simp add: expandOriginal_def loadExpansionAliases_def walkFrom_def sample_world_def quiet_def graph_eval)
qed

lemma mail_smtp:
  "DecideSMTPRecipient ascii_external ''c1'' ''a@x.io'' ''a@x.io'' ''a@x.io'' (sample_world mail_db)
   = ((\<lparr>dec_action = ActionOK, dec_reason = ReasonSameDomain, dec_revisions = [(''x.io'', 4)]\<rparr>, None), (sample_world mail_db)\<lparr>w_count := 3\<rparr>)"
  by (simp add: DecideSMTPRecipient_def mail_rows mail_sources mail_expand mail_resolve mail_evaluate Let_def)

theorem DecideSMTPRecipient_confines_witness:
  "\<exists>original domain i env. normalizeQueueRecipient ascii_external ''a@x.io'' = Inr (original, domain)
     \<and> admittedEnvelope ascii_external ''a@x.io'' = Inr env \<and> owns_mailbox ascii_external mail_db ''a@x.io'' env i
     \<and> well_expanding ascii_external mail_db original"
  using DecideSMTPRecipient_confines [OF ascii_external_idna _ mail_smtp] by force

theorem Decide_confines_witness:
  "\<exists>authority. authenticated ascii_external mail_db (mail_request ''a@x.io'') authority
     \<and> confined ascii_external mail_db (set authority) ''a@x.io''"
  using Decide_confines [OF ascii_external_idna _ mail_decide] by simp

theorem decisions_fail_closed_witness:
  "Decide ascii_external nobody [] (mail_request ''a@x.io'') (sample_world mail_db)
   = ((\<lparr>dec_action = ActionDefer, dec_reason = ReasonUnavailable, dec_revisions = []\<rparr>,
       Some (Err ''outbound enforcement service is unavailable'')), sample_world mail_db)"
proof -
  obtain d where d: "Decide ascii_external nobody [] (mail_request ''a@x.io'') (sample_world mail_db)
      = ((d, Some (Err ''outbound enforcement service is unavailable'')), sample_world mail_db)"
    by (simp add: Decide_def validPolicyCorrelationID_def unavailableDecision_def)
  then show ?thesis using decisions_fail_closed [OF disjI1 [OF d]] by simp
qed

theorem rejections_audited_witness:
  "\<exists>w' rows rnd now domain.
     snd (Decide ascii_external nobody ''c1'' (mail_request ''b@y.io'') (sample_world mail_db)) = w'
     \<and> audit_events (w_db w') = rows @ [audit_row rnd now (submission_event ''c1'' domain
         \<lparr>dec_action = ActionReject, dec_reason = ReasonRecipientForbidden, dec_revisions = [(''x.io'', 4)]\<rparr>)]"
proof -
  obtain w' where d: "Decide ascii_external nobody ''c1'' (mail_request ''b@y.io'') (sample_world mail_db)
   = ((\<lparr>dec_action = ActionReject, dec_reason = ReasonRecipientForbidden, dec_revisions = [(''x.io'', 4)]\<rparr>, None), w')"
    using mail_reject by blast
  from rejections_audited [OF disjI1 [OF d]] show ?thesis unfolding d by simp
qed

abbreviation mail_queue_id :: string where "mail_queue_id \<equiv> ''4bXyzT3GkRz2cB''"

abbreviation mail_authority :: "QueueSource list" where
  "mail_authority \<equiv> [QueueSource SourceAuthenticatedMailbox ''m1'', QueueSource SourceEnvelopeSender ''m1'']"

definition mail_registration :: "string \<Rightarrow> QueueRegistration" where
  "mail_registration a =
     \<lparr>qreg_queue_id = mail_queue_id, qreg_fingerprint = replicate 64 CHR ''a'', qreg_sender = ''a@x.io'',
      qreg_recipients = [a], qreg_sources = mail_authority\<rparr>"

definition mail_record :: "string \<Rightarrow> QueueRecord" where
  "mail_record a =
     \<lparr>qr_queue_id = mail_queue_id, qr_fingerprint = replicate 64 CHR ''a'', qr_sender = ''a@x.io'',
      qr_recipient_digest = digestStrings [a], qr_source_digest = digestSources mail_authority,
      qr_hold_state = HoldPending, qr_reason = [], qr_revisions = [], qr_attempts = 0,
      qr_error_code = [], qr_first_seen = 0, qr_updated = 0, qr_recipients = [a], qr_sources = mail_authority\<rparr>"

lemma mail_texts:
  "validLongQueueID mail_queue_id" "validLowerHexDigest (replicate 64 CHR ''a'')"
  "normalizeQueueSender ascii_external ''a@x.io'' = Inr ''a@x.io''"
  "\<forall>s\<in>set mail_authority. valid_source s" "sorted_set mail_authority = mail_authority"
  by code_simp+

lemma mail_normalizes:
  assumes "normalizeQueueRecipient ascii_external a = Inr (a, d)"
  shows "normalizeQueueRegistration ascii_external (mail_registration a) = Inr (mail_record a)"
  unfolding normalizeQueueRegistration_Inr
  using mail_texts assms
  by (auto simp: mail_registration_def mail_record_def queue_limits sorted_set_def intro!: exI [of _ "[(a, d)]"])

lemma mail_storable: "a = ''a@x.io'' \<or> a = ''b@y.io'' \<Longrightarrow> storable ascii_external (mail_record a)"
  by (auto simp: storable_def mail_record_def ascii_external_def maxEnvelopeRecipientBytes_def)

lemma mail_db_queue: "queue_tables_ok mail_db" "find_message mail_db q = None"
  by (simp_all add: queue_tables_ok_def find_message_def mail_db_def graph_db_def empty_db_def)

lemma ascii_bytewise: "bytewise ascii_external" by (simp add: bytewise_def ascii_external_def)

lemma mail_address: "a = ''a@x.io'' \<or> a = ''b@y.io'' \<Longrightarrow> \<exists>d. normalizeQueueRecipient ascii_external a = Inr (a, d)"
  by (auto simp: graph_addresses)

lemma mail_stored:
  assumes "a = ''a@x.io'' \<or> a = ''b@y.io''"
  shows "register_tx ascii_external (mail_record a) 1000 mail_db =
      Inr (((mail_record a)\<lparr>qr_first_seen := 1000, qr_updated := 1000\<rparr>, True), stored_rows ascii_external (mail_record a) 1000 mail_db)"
    and "loadQueueRecord ascii_external (stored_rows ascii_external (mail_record a) 1000 mail_db) mail_queue_id
      = Inr ((mail_record a)\<lparr>qr_first_seen := 1000, qr_updated := 1000\<rparr>)"
    and "queue_tables_ok (stored_rows ascii_external (mail_record a) 1000 mail_db)"
proof -
  obtain d where d: "normalizeQueueRecipient ascii_external a = Inr (a, d)" using mail_address [OF assms] by blast
  note n = mail_normalizes [OF d]
  note ci = normalizeQueueRegistration_canonical [OF ascii_external_idna n]
  note init = normalizeQueueRegistration_init [OF n]
  have q: "qr_queue_id (mail_record a) = mail_queue_id" by (simp add: mail_record_def)
  show "register_tx ascii_external (mail_record a) 1000 mail_db =
      Inr (((mail_record a)\<lparr>qr_first_seen := 1000, qr_updated := 1000\<rparr>, True), stored_rows ascii_external (mail_record a) 1000 mail_db)"
    by (rule register_tx_fresh [OF ascii_external_idna ascii_bytewise ci mail_storable [OF assms] _ mail_db_queue init(1-5)]) simp
  show "loadQueueRecord ascii_external (stored_rows ascii_external (mail_record a) 1000 mail_db) mail_queue_id
      = Inr ((mail_record a)\<lparr>qr_first_seen := 1000, qr_updated := 1000\<rparr>)"
    using load_stored_rows [OF ascii_external_idna ascii_bytewise ci mail_storable [OF assms] _ mail_db_queue init(1-5), of 1000]
    unfolding q by simp
  show "queue_tables_ok (stored_rows ascii_external (mail_record a) 1000 mail_db)"
    by (rule stored_rows_tables_ok [OF mail_db_queue ci])
qed

definition mail_metadata :: "string \<Rightarrow> bool \<Rightarrow> QueueMetadata" where
  "mail_metadata a held =
     \<lparr>qm_queue_id = mail_queue_id, qm_fingerprint = replicate 64 CHR ''a'', qm_sender = ''a@x.io'', qm_recipients = [a],
      qm_held = held\<rparr>"

definition mail_admission :: QueueAdmissionRequest where
  "mail_admission =
     \<lparr>ad_metadata = mail_metadata ''a@x.io'' False,
      ad_deliveries = [\<lparr>dl_original = ''a@x.io'', dl_recipient = ''a@x.io''\<rparr>], ad_mailbox = ''a@x.io'', ad_system = []\<rparr>"

lemma mail_deliveries:
  "validateQueueDeliveries ascii_external [''a@x.io''] [\<lparr>dl_original = ''a@x.io'', dl_recipient = ''a@x.io''\<rparr>] = None"
  "resolveExpansionDeliveries ascii_external [\<lparr>dl_original = ''a@x.io'', dl_recipient = ''a@x.io''\<rparr>]
     ((sample_world mail_db)\<lparr>w_count := Suc 0\<rparr>) = (Inr [], (sample_world mail_db)\<lparr>w_count := 2\<rparr>)"
proof -
  have rows: "address_rows mail_db ''a@x.io'' = []" by code_simp
  show "resolveExpansionDeliveries ascii_external [\<lparr>dl_original = ''a@x.io'', dl_recipient = ''a@x.io''\<rparr>]
     ((sample_world mail_db)\<lparr>w_count := Suc 0\<rparr>) = (Inr [], (sample_world mail_db)\<lparr>w_count := 2\<rparr>)"
    by (simp add: resolveExpansionDeliveries_def canonicalDelivery_def loadExpansionAliases_def sample_world_def quiet_def rows graph_eval)
qed (simp add: validateQueueDeliveries_iff recipient_set_def graph_addresses)

lemma mail_admit:
  "\<exists>w'. Admit ascii_external mail_admission (sample_world mail_db)
     = (Inr ((mail_record ''a@x.io'')\<lparr>qr_first_seen := 1000, qr_updated := 1000\<rparr>, True), w')"
proof -
  have "Register ascii_external (mail_registration ''a@x.io'') ((sample_world mail_db)\<lparr>w_count := 2\<rparr>)
      = (Inr ((mail_record ''a@x.io'')\<lparr>qr_first_seen := 1000, qr_updated := 1000\<rparr>, True),
         (sample_world mail_db)\<lparr>w_count := 3, w_db := stored_rows ascii_external (mail_record ''a@x.io'') 1000 mail_db\<rparr>)"
    using mail_stored(1) [of "''a@x.io''"] mail_normalizes [OF graph_addresses(4)]
    by (simp add: Register_def run_tx_def Let_def sample_world_def quiet_def)
  then show ?thesis
    by (simp add: Admit_def mail_admission_def mail_metadata_def mail_deliveries admitAuthority_def mail_sources Let_def mail_registration_def
        maxQueueRecipients_def)
qed

theorem Admit_provenance_witness:
  "\<exists>authority. authenticated ascii_external mail_db (admission_request mail_admission) authority"
proof -
  obtain w' where a: "Admit ascii_external mail_admission (sample_world mail_db)
     = (Inr ((mail_record ''a@x.io'')\<lparr>qr_first_seen := 1000, qr_updated := 1000\<rparr>, True), w')"
    using mail_admit by blast
  from Admit_provenance [OF ascii_external_idna _ a] show ?thesis by (auto simp: mail_admission_def split: if_splits)
qed

theorem bind_tx_once_witness:
  "\<exists>b db'. bind_tx ascii_external nobody ''c1'' ''s1'' ''a@x.io'' ''x.io'' (quiet 1000 0) mail_db = Inr (b, db')
     \<and> sender_keys db' \<and> bind_tx ascii_external nobody ''c2'' ''s1'' ''a@x.io'' ''x.io'' (quiet 1000 1) db' = Inr (b, db')"
proof -
  have c: "check_sender ascii_external \<lparr>ss_id = ''s1'', ss_domain = ''d1'', ss_address = ''a@x.io'', ss_enabled = True, ss_revision = 1,
      ss_created = 1000, ss_updated = 1000\<rparr>" by code_simp
  have p: "pg_text []" "pg_text ''s1''" "pg_text ''system_sender''" "pg_text ''system_sender.bind''" by code_simp+
  have m: "domains mail_db = domains graph_db" "senders mail_db = []" by (simp_all add: mail_db_def graph_db_def empty_db_def)
  obtain b db' where b: "bind_tx ascii_external nobody ''c1'' ''s1'' ''a@x.io'' ''x.io'' (quiet 1000 0) mail_db = Inr (b, db')"
    by (simp add: bind_tx_def insert_sender_def quiet_def m graph_db_def c Let_def WriteSQL_def audit_row_fields bind_event_def p pg_words
        mail_audit)
  have "sender_keys mail_db" by (simp add: sender_keys_def m)
  from bind_tx_once [OF this b] show ?thesis using b by blast
qed

end
