(* ===== verification/Release_Facts.thy ===== *)
theory Release_Facts
  imports Enforcement_Facts
begin

text \<open>
  What a successful reconciliation and a successful release of a held message rest on, and the release that cannot be
  repeated (\<^verbatim>\<open>reconcile.go\<close>, \<^verbatim>\<open>release.go\<close>).
\<close>

section \<open>A session that runs alone\<close>

text \<open>No other session changes the database: what the locks on the message and on the policy tables exclude for the rows an
  operation reads.\<close>

definition alone :: "'p world \<Rightarrow> bool" where
  "alone w \<longleftrightarrow> (\<forall>k db. cx_other (w_env w k) db = db)"

lemma alone_still: "alone w \<Longrightarrow> still w" by (simp add: alone_def still_def)

lemma alone_query:
  assumes "run_query body w = (x, w')" and "alone w"
  shows "w_db w' = w_db w" and "alone w'" and "w_postfix w' = w_postfix w" and "x = Inr y \<Longrightarrow> body (w_db w) = Inr y"
  using assms by (auto simp: run_query_def alone_def Let_def split: if_splits)

lemma alone_tx:
  assumes "run_tx body w = (x, w')" and "alone w"
  shows "alone w'" and "w_postfix w' = w_postfix w" and "x = Inr y \<Longrightarrow> \<exists>cx. body cx (w_db w) = Inr (y, w_db w')"
  using assms by (auto simp: run_tx_def alone_def Let_def split: if_splits sum.splits)

lemma alone_postfix:
  assumes "on_postfix f w = (x, w')"
  shows "alone w' = alone w" and "w_db w' = w_db w" and "f (w_postfix w) = (x, w_postfix w')"
  using assms by (auto simp: on_postfix_def alone_def split: prod.splits)

lemma alone_loadConn:
  assumes "loadConn X q w = (Inr r, w')" and "alone w"
  shows "loadQueueRecord X (w_db w) q = Inr r" and "w_db w' = w_db w" and "alone w'" and "w_postfix w' = w_postfix w"
  using alone_query [OF assms(1) [unfolded loadConn_def] assms(2)] by auto

lemma with_lock_None:
  assumes "with_lock body w = ((Some r, None), w')" and "alone w"
  obtains w1 w2 where "body w1 = ((Some r, None), w2)" and "alone w1" and "w_db w1 = w_db w" and "w_postfix w1 = w_postfix w"
    and "alone w2 \<longrightarrow> w_db w' = w_db w2 \<and> w_postfix w' = w_postfix w2"
proof -
  obtain u w1 w2 v where q: "run_query (\<lambda>db. Inr ()) w = (Inr u, w1)" and b: "body w1 = ((Some r, None), w2)"
    and q': "run_query (\<lambda>db. Inr ()) w2 = (Inr v, w')"
    using assms(1) by (auto simp: with_lock_def split: sum.splits prod.splits if_splits)
  show thesis by (rule that [OF b]) (use alone_query(1-3) [OF q assms(2)] alone_query(1-3) [OF q'] in simp_all)
qed

section \<open>What a result rests on\<close>

text \<open>The last thing the operation did with Postfix was an inspection that showed the message of the record, held or not.\<close>

definition last_observed :: "external \<Rightarrow> 'p boundary \<Rightarrow> QueueRecord \<Rightarrow> bool \<Rightarrow> 'p world \<Rightarrow> bool" where
  "last_observed X B r held w \<longleftrightarrow>
     (\<exists>p metadata. bd_inspect B (qr_queue_id r) p = (Inr metadata, w_postfix w)
        \<and> qm_held metadata = held \<and> matchesQueueMetadata X r metadata)"

lemma finishRelease_moved:
  "finishRelease_tx X actor correlationID r state code cx db = Inr (u, db') \<Longrightarrow> state \<in> {HoldReleased, HoldReleaseError} \<Longrightarrow>
   moved X (qr_queue_id r) (\<lambda>m. m_hold_state m = HoldReleaseReconciling \<and> (state = HoldReleased \<or> state = HoldReleaseError))
     (finish_row state code cx) db db'"
  unfolding finishRelease_tx_def
  by (simp only: insert_iff empty_iff simp_thms) (auto split: sum.splits prod.splits if_splits intro: update_audited_moved)

lemma finishReconciliation_moved:
  "finishReconciliation_tx X actor correlationID r state code cx db = Inr (u, db') \<Longrightarrow>
   state \<in> {HoldApplied, HoldReconciliationError} \<Longrightarrow>
   moved X (qr_queue_id r) (\<lambda>m. m_hold_state m = HoldReconciling \<and> (state = HoldApplied \<or> state = HoldReconciliationError))
     (finish_row state code cx) db db'"
  unfolding finishReconciliation_tx_def
  by (simp only: insert_iff empty_iff simp_thms) (auto split: sum.splits prod.splits if_splits intro: update_audited_moved)

lemma finishQueueRelease_alone:
  assumes "finishQueueRelease X actor correlationID r HoldReleased [] w = (Inr u, w')" and "alone w" and "queue_inv X (w_db w)"
    and "loadQueueRecord X (w_db w') (qr_queue_id r) = Inr stored"
  shows "qr_hold_state stored = HoldReleased" and "alone w'" and "w_postfix w' = w_postfix w"
proof -
  have t: "run_tx (finishRelease_tx X actor correlationID r HoldReleased []) w = (Inr u, w')"
    using assms(1) by (simp add: finishQueueRelease_def)
  show "alone w'" "w_postfix w' = w_postfix w" using alone_tx(1,2) [OF t assms(2)] by simp_all
  obtain cx where "finishRelease_tx X actor correlationID r HoldReleased [] cx (w_db w) = Inr (u, w_db w')"
    using alone_tx(3) [OF t assms(2) refl] by auto
  then have "moved X (qr_queue_id r) (\<lambda>m. m_hold_state m = HoldReleaseReconciling \<and> (HoldReleased = HoldReleased \<or> HoldReleased = HoldReleaseError))
     (finish_row HoldReleased [] cx) (w_db w) (w_db w')"
    by (rule finishRelease_moved) simp
  from finish_release.moved_load [OF this assms(3)] show "qr_hold_state stored = HoldReleased" using assms(4) by auto
qed

lemma finishQueueReconciliation_alone:
  assumes "finishQueueReconciliation X actor correlationID r HoldApplied [] w = (Inr u, w')" and "alone w" and "queue_inv X (w_db w)"
    and "loadQueueRecord X (w_db w') (qr_queue_id r) = Inr stored"
  shows "qr_hold_state stored = HoldApplied" and "alone w'" and "w_postfix w' = w_postfix w"
proof -
  have t: "run_tx (finishReconciliation_tx X actor correlationID r HoldApplied []) w = (Inr u, w')"
    using assms(1) by (simp add: finishQueueReconciliation_def)
  show "alone w'" "w_postfix w' = w_postfix w" using alone_tx(1,2) [OF t assms(2)] by simp_all
  obtain cx where "finishReconciliation_tx X actor correlationID r HoldApplied [] cx (w_db w) = Inr (u, w_db w')"
    using alone_tx(3) [OF t assms(2) refl] by auto
  then have "moved X (qr_queue_id r) (\<lambda>m. m_hold_state m = HoldReconciling \<and> (HoldApplied = HoldApplied \<or> HoldApplied = HoldReconciliationError))
     (finish_row HoldApplied [] cx) (w_db w) (w_db w')"
    by (rule finishReconciliation_moved) simp
  from finish_reconcile.moved_load [OF this assms(3)] show "qr_hold_state stored = HoldApplied" using assms(4) by auto
qed

lemma loadQueueRecord_id: "loadQueueRecord X db q = Inr r \<Longrightarrow> qr_queue_id r = q"
  by (auto dest!: loadQueueRecord_Inr loadParent_Inr)

lemma fail_not_None:
  "reconcileFail X actor correlationID r code w \<noteq> ((x, None), w')" "releaseFail X actor correlationID r code w \<noteq> ((x, None), w')"
  by (auto simp: reconcileFail_def releaseFail_def split: sum.splits prod.splits)

lemma start_keeps:
  assumes "alone w" and "queue_inv X (w_db w)"
  shows "startQueueReconciliation X actor correlationID r w = (Inr u, w1) \<Longrightarrow> alone w1 \<and> queue_inv X (w_db w1)"
    and "startQueueRelease X actor correlationID r w = (Inr u, w1) \<Longrightarrow> alone w1 \<and> queue_inv X (w_db w1)"
proof -
  assume "startQueueReconciliation X actor correlationID r w = (Inr u, w1)"
  then have t: "run_tx (startReconciliation_tx X actor correlationID r) w = (Inr u, w1)" by (simp add: startQueueReconciliation_def)
  obtain cx where "startReconciliation_tx X actor correlationID r cx (w_db w) = Inr (u, w_db w1)"
    using alone_tx(3) [OF t assms(1) refl] by auto
  then show "alone w1 \<and> queue_inv X (w_db w1)" using alone_tx(1) [OF t assms(1)] start_reconcile.tx_step [OF assms(2)] by simp
next
  assume "startQueueRelease X actor correlationID r w = (Inr u, w1)"
  then have t: "run_tx (startRelease_tx X actor correlationID r) w = (Inr u, w1)" by (simp add: startQueueRelease_def)
  obtain cx where "startRelease_tx X actor correlationID r cx (w_db w) = Inr (u, w_db w1)"
    using alone_tx(3) [OF t assms(1) refl] by auto
  then show "alone w1 \<and> queue_inv X (w_db w1)" using alone_tx(1) [OF t assms(1)] start_release.tx_step [OF assms(2)] by simp
qed

section \<open>Reconciliation\<close>

lemma reconcileDone_None:
  assumes "reconcileDone X actor correlationID r w = ((Some (stored, changed), None), w')" and "alone w" and "queue_inv X (w_db w)"
  shows "qr_hold_state stored = HoldApplied" and "loadQueueRecord X (w_db w') (qr_queue_id r) = Inr stored"
    and "alone w'" and "w_postfix w' = w_postfix w" and "changed"
proof -
  obtain u w1 where f: "finishQueueReconciliation X actor correlationID r HoldApplied [] w = (Inr u, w1)"
    and l: "loadConn X (qr_queue_id r) w1 = (Inr stored, w')" and c: changed
    using assms(1) by (auto simp: reconcileDone_def split: sum.splits prod.splits)
  have t: "run_tx (finishReconciliation_tx X actor correlationID r HoldApplied []) w = (Inr u, w1)"
    using f by (simp add: finishQueueReconciliation_def)
  note ld = alone_loadConn [OF l alone_tx(1) [OF t assms(2)]]
  note fin = finishQueueReconciliation_alone [OF f assms(2,3) ld(1)]
  show "qr_hold_state stored = HoldApplied" "loadQueueRecord X (w_db w') (qr_queue_id r) = Inr stored" "alone w'"
    "w_postfix w' = w_postfix w" changed
    using ld fin c by simp_all
qed

lemma reconcileHold_None:
  assumes "reconcileHold X B actor correlationID r w = ((Some (stored, changed), None), w')" and "alone w" and "queue_inv X (w_db w)"
  shows "qr_hold_state stored = HoldApplied \<and> loadQueueRecord X (w_db w') (qr_queue_id r) = Inr stored
    \<and> last_observed X B r True w' \<and> alone w'"
proof -
  obtain metadata w1 where i: "on_postfix (bd_inspect B (qr_queue_id r)) w = (Inr metadata, w1)"
    and m: "matchesQueueMetadata X r metadata"
    using assms(1) by (auto simp: reconcileHold_def fail_not_None split: sum.splits prod.splits if_splits)
  note p = alone_postfix [OF i]
  have fin: "qr_hold_state stored = HoldApplied \<and> loadQueueRecord X (w_db w') (qr_queue_id r) = Inr stored
      \<and> last_observed X B r True w' \<and> alone w'"
    if "on_postfix (bd_inspect B (qr_queue_id r)) w2 = (Inr metadata', w3)" "qm_held metadata'" "matchesQueueMetadata X r metadata'"
      "reconcileDone X actor correlationID r w3 = ((Some (stored, changed), None), w')" "alone w2" "w_db w2 = w_db w" for w2 w3 metadata'
  proof -
    note p = alone_postfix [OF that(1)]
    have "alone w3" "queue_inv X (w_db w3)" using p that(5,6) assms(3) by simp_all
    note rd = reconcileDone_None [OF that(4) this]
    have "last_observed X B r True w'" using p(3) that(2,3) rd(4) unfolding last_observed_def by metis
    then show ?thesis using rd by simp
  qed
  show ?thesis
  proof (cases "qm_held metadata")
    case True
    then show ?thesis using fin [OF i True m _ assms(2)] assms(1) i m by (simp add: reconcileHold_def)
  next
    case False
    obtain w2 where h: "on_postfix (bd_hold B (qr_queue_id r)) w1 = (None, w2)"
      using assms(1) i m False by (auto simp: reconcileHold_def fail_not_None split: option.splits prod.splits)
    obtain metadata' w3 where i': "on_postfix (bd_inspect B (qr_queue_id r)) w2 = (Inr metadata', w3)"
      using assms(1) i m False h by (auto simp: reconcileHold_def fail_not_None split: sum.splits prod.splits)
    have m': "matchesQueueMetadata X r metadata'" "qm_held metadata'"
      and d: "reconcileDone X actor correlationID r w3 = ((Some (stored, changed), None), w')"
      using assms(1) i m False h i' by (auto simp: reconcileHold_def fail_not_None split: if_splits)
    show ?thesis by (rule fin [OF i' m'(2,1) d]) (use p alone_postfix [OF h] assms(2) in simp_all)
  qed
qed

lemma Reconcile_held:
  assumes "alone w" and "queue_inv X (w_db w)"
    and "Reconcile_queue X B actor correlationID queueID w = ((Some (stored, changed), None), w')"
  shows "loadQueueRecord X (w_db w') queueID = Inr stored \<and> qr_hold_state stored = HoldApplied
    \<and> (\<exists>r. loadQueueRecord X (w_db w) queueID = Inr r \<and> last_observed X B r True w')"
proof -
  have "with_lock (reconcileLocked X B actor correlationID queueID) w = ((Some (stored, changed), None), w')"
    using assms(3) by (simp add: Reconcile_queue_def split: if_splits)
  then obtain w1 w2 where b: "reconcileLocked X B actor correlationID queueID w1 = ((Some (stored, changed), None), w2)"
    and k: "alone w1" "w_db w1 = w_db w" "w_postfix w1 = w_postfix w"
    and e: "alone w2 \<longrightarrow> w_db w' = w_db w2 \<and> w_postfix w' = w_postfix w2"
    by (rule with_lock_None [OF _ assms(1)])
  obtain r w3 where l: "loadConn X queueID w1 = (Inr r, w3)" using b by (auto simp: reconcileLocked_def split: sum.splits prod.splits)
  note ld = alone_loadConn [OF l k(1)]
  have q: "qr_queue_id r = queueID" by (rule loadQueueRecord_id [OF ld(1)])
  have start: "qr_hold_state stored = HoldApplied \<and> loadQueueRecord X (w_db w2) queueID = Inr stored
      \<and> last_observed X B r True w2 \<and> alone w2"
    if st: "reconcileStart X B actor correlationID r w4 = ((Some (stored, changed), None), w2)" "alone w4" "w_db w4 = w_db w" for w4
  proof -
    obtain u w5 where s: "startQueueReconciliation X actor correlationID r w4 = (Inr u, w5)"
      and h: "reconcileHold X B actor correlationID r w5 = ((Some (stored, changed), None), w2)"
      using st(1) by (auto simp: reconcileStart_def split: sum.splits prod.splits if_splits)
    have "alone w5 \<and> queue_inv X (w_db w5)" using start_keeps(1) [OF st(2) _ s] assms(2) st(3) by simp
    then show ?thesis using reconcileHold_None [OF h] q by simp
  qed
  have "qr_hold_state stored = HoldApplied \<and> loadQueueRecord X (w_db w2) queueID = Inr stored
      \<and> last_observed X B r True w2 \<and> alone w2"
  proof (cases "\<exists>w4. alone w4 \<and> w_db w4 = w_db w \<and> reconcileStart X B actor correlationID r w4 = ((Some (stored, changed), None), w2)")
    case True
    then show ?thesis using start by blast
  next
    case False
    have ap: "qr_hold_state r = HoldApplied" using b l False ld(2,3) k(2) by (auto simp: reconcileLocked_def split: if_splits)
    obtain seen w4 where i: "on_postfix (bd_inspect B queueID) w3 = (seen, w4)" by fastforce
    have "alone w4" "w_db w4 = w_db w" using alone_postfix [OF i] ld k by simp_all
    then have ns: "reconcileStart X B actor correlationID r w4 \<noteq> ((Some (stored, changed), None), w2)" using False by blast
    obtain metadata where o: "seen = Inr metadata" using b l i ap ns by (cases seen) (auto simp: reconcileLocked_def)
    have m: "qm_held metadata" "matchesQueueMetadata X r metadata" "stored = r" "qr_hold_state r = HoldApplied" "w4 = w2"
      using b l i o ap ns by (auto simp: reconcileLocked_def split: if_splits)
    note p = alone_postfix [OF i]
    have "last_observed X B r True w2" using p(3) m(1,2,5) o q unfolding last_observed_def by metis
    then show ?thesis using p m ld k o by simp
  qed
  then show ?thesis using e ld(1) k(2) by (auto simp: last_observed_def)
qed

text \<open>C3: when \<open>Reconcile\<close> reports success, the message is held: the stored record has the state \<open>applied\<close>, and the last
  thing the operation did with Postfix was an inspection that showed this very message on hold. The queue tables are
  consistent and no other session interferes.\<close>

theorem Reconcile_observes_hold:
  assumes "alone w" and "queue_inv X (w_db w)"
    and "Reconcile_queue X B actor correlationID queueID w = ((Some (stored, changed), None), w')"
  shows "loadQueueRecord X (w_db w') queueID = Inr stored \<and> qr_hold_state stored = HoldApplied
    \<and> (\<exists>r. loadQueueRecord X (w_db w) queueID = Inr r \<and> last_observed X B r True w')"
  using assms by (rule Reconcile_held)

section \<open>Release\<close>

lemma previewRecord_Inr:
  assumes "previewRecord X r w = (Inr plan, w')" and "alone w"
  shows "w_db w' = w_db w" and "alone w'" and "w_postfix w' = w_postfix w"
    and "\<exists>gs revs snapshot. map (\<lambda>s. governing_row X (policy_row (w_db w) s)) (qr_sources r) = map Inr gs
       \<and> releasePolicySnapshot X gs = Inr (revs, snapshot) \<and> rp_confirmation plan = digestStrings (release_values r snapshot)"
    and "\<forall>a\<in>set (qr_recipients r). confined X (w_db w) (set (qr_sources r)) a"
proof -
  obtain gs revs snapshot where p: "resolvePolicySources X (qr_sources r) w = (Inr gs, w')"
    and ok: "\<forall>a\<in>set (qr_recipients r). dec_action (Evaluate X \<lparr>rq_stage = StageTransport, rq_queue_id = qr_queue_id r,
               rq_recipient = a, rq_governing = gs\<rparr>) = ActionOK"
    and s: "releasePolicySnapshot X gs = Inr (revs, snapshot)" "rp_confirmation plan = digestStrings (release_values r snapshot)"
    using assms(1) by (auto simp: previewRecord_def list_ex_iff split: if_splits sum.splits prod.splits)
  note st = alone_still [OF assms(2)]
  obtain body where q: "run_query body w = (Inr gs, w')" using p by (auto simp: resolvePolicySources_def split: if_splits)
  show "w_db w' = w_db w" "alone w'" "w_postfix w' = w_postfix w" using alone_query(1-3) [OF q assms(2)] by auto
  show "\<exists>gs revs snapshot. map (\<lambda>s. governing_row X (policy_row (w_db w) s)) (qr_sources r) = map Inr gs
       \<and> releasePolicySnapshot X gs = Inr (revs, snapshot) \<and> rp_confirmation plan = digestStrings (release_values r snapshot)"
    using resolvePolicySources_Inr(5) [OF p st] s by blast
  show "\<forall>a\<in>set (qr_recipients r). confined X (w_db w) (set (qr_sources r)) a"
  proof
    fix a assume "a \<in> set (qr_recipients r)"
    then show "confined X (w_db w) (set (qr_sources r)) a"
      using Evaluate_OK_confined [OF p st, of "\<lparr>rq_stage = StageTransport, rq_queue_id = qr_queue_id r, rq_recipient = a, rq_governing = []\<rparr>"] ok
      by simp
  qed
qed

lemma previewRecord_world:
  assumes "previewRecord X r w = (x, w')" and "alone w"
  shows "w_db w' = w_db w" and "alone w'" and "w_postfix w' = w_postfix w"
proof -
  obtain y w1 where p: "resolvePolicySources X (qr_sources r) w = (y, w1)" by fastforce
  then consider "w1 = w" | body where "run_query body w = (y, w1)" by (auto simp: resolvePolicySources_def split: if_splits)
  then have "w_db w1 = w_db w \<and> alone w1 \<and> w_postfix w1 = w_postfix w"
    by cases (use assms(2) in \<open>auto dest: alone_query(1-3)\<close>)
  moreover have "w' = w \<or> w' = w1" using assms(1) p by (auto simp: previewRecord_def split: if_splits sum.splits prod.splits)
  ultimately show "w_db w' = w_db w" "alone w'" "w_postfix w' = w_postfix w" using assms(2) by auto
qed

lemma releaseCommit_None:
  assumes "releaseCommit X B actor correlationID r w = ((Some (stored, changed), None), w')" and "alone w" and "queue_inv X (w_db w)"
  shows "qr_hold_state stored = HoldReleased \<and> loadQueueRecord X (w_db w') (qr_queue_id r) = Inr stored
    \<and> last_observed X B r False w' \<and> alone w' \<and> changed"
proof -
  obtain w1 where h: "on_postfix (bd_release B (qr_queue_id r)) w = (None, w1)"
    using assms(1) by (auto simp: releaseCommit_def fail_not_None split: option.splits prod.splits)
  obtain metadata w2 where i: "on_postfix (bd_inspect B (qr_queue_id r)) w1 = (Inr metadata, w2)"
    using assms(1) h by (auto simp: releaseCommit_def fail_not_None split: sum.splits prod.splits)
  have m: "\<not> qm_held metadata" "matchesQueueMetadata X r metadata"
    using assms(1) h i by (auto simp: releaseCommit_def fail_not_None split: if_splits)
  obtain u w3 where f: "finishQueueRelease X actor correlationID r HoldReleased [] w2 = (Inr u, w3)"
    and l: "loadConn X (qr_queue_id r) w3 = (Inr stored, w')" and c: changed
    using assms(1) h i m by (auto simp: releaseCommit_def split: sum.splits prod.splits)
  note p = alone_postfix [OF h] alone_postfix [OF i]
  have a: "alone w2" "queue_inv X (w_db w2)" using p assms(2,3) by simp_all
  have t: "run_tx (finishRelease_tx X actor correlationID r HoldReleased []) w2 = (Inr u, w3)"
    using f by (simp add: finishQueueRelease_def)
  note ld = alone_loadConn [OF l alone_tx(1) [OF t a(1)]]
  note fin = finishQueueRelease_alone [OF f a ld(1)]
  have "last_observed X B r False w'" using alone_postfix(3) [OF i] m ld(4) fin(3) unfolding last_observed_def by metis
  then show ?thesis using ld fin c by simp
qed

lemma releaseConfirmed_None:
  assumes "releaseConfirmed X B actor correlationID r w = ((Some (stored, changed), None), w')" and "alone w"
    and "queue_inv X (w_db w)" and "loadQueueRecord X (w_db w) (qr_queue_id r) = Inr r"
  shows "qr_hold_state stored = HoldReleased \<and> loadQueueRecord X (w_db w') (qr_queue_id r) = Inr stored
    \<and> last_observed X B r False w' \<and> alone w'
    \<and> (if changed then last_observed X B r True (snd (on_postfix (bd_inspect B (qr_queue_id r)) w))
       else w_db w' = w_db w \<and> stored = r)"
proof -
  obtain seen w1 where i: "on_postfix (bd_inspect B (qr_queue_id r)) w = (seen, w1)" by fastforce
  note p = alone_postfix [OF i]
  obtain metadata where o: "seen = Inr metadata" and m: "matchesQueueMetadata X r metadata"
    using assms(1) i by (cases seen) (auto simp: releaseConfirmed_def split: if_splits)
  show ?thesis
  proof (cases "qr_hold_state r = HoldReleased")
    case True
    then have r: "stored = r" "\<not> changed" "w' = w1" "\<not> qm_held metadata"
      using assms(1) i o by (auto simp: releaseConfirmed_def split: if_splits)
    have "last_observed X B r False w'" using p(3) o m r unfolding last_observed_def by metis
    then show ?thesis using True r p assms(2,4) by simp
  next
    case False
    have h: "qm_held metadata" using assms(1) i o False by (auto simp: releaseConfirmed_def split: if_splits)
    have l: "last_observed X B r True w1" using p(3) o m h unfolding last_observed_def by metis
    obtain u w2 where s: "startQueueRelease X actor correlationID r w1 = (Inr u, w2)"
      and c: "releaseCommit X B actor correlationID r w2 = ((Some (stored, changed), None), w')"
      using assms(1) i o False by (auto simp: releaseConfirmed_def split: if_splits sum.splits prod.splits)
    have "alone w2 \<and> queue_inv X (w_db w2)" using start_keeps(2) [OF _ _ s] p assms(2,3) by simp
    then show ?thesis using releaseCommit_None [OF c] l i by simp
  qed
qed

text \<open>C2: \<open>Release\<close> reports success only for a message that the current policy permits and that has left the hold queue. The
  confirmation is the digest of the queue identity, the recipients, the sources and the current scope and
  revision of every governing domain; every recipient lies in the domain of every confined source; the
  stored state is \<open>released\<close>; and the last inspection of Postfix showed this very message, not held. If nothing is
  reported as changed, the database is as before.\<close>

theorem Release_permitted:
  assumes "alone w" and "queue_inv X (w_db w)"
    and "Release_queue X B actor correlationID queueID confirmation w = ((Some (stored, changed), None), w')"
  shows "\<exists>r gs revs snapshot. loadQueueRecord X (w_db w) queueID = Inr r
    \<and> (\<forall>a\<in>set (qr_recipients r). confined X (w_db w) (set (qr_sources r)) a)
    \<and> map (\<lambda>s. governing_row X (policy_row (w_db w) s)) (qr_sources r) = map Inr gs
    \<and> releasePolicySnapshot X gs = Inr (revs, snapshot) \<and> confirmation = digestStrings (release_values r snapshot)
    \<and> loadQueueRecord X (w_db w') queueID = Inr stored \<and> qr_hold_state stored = HoldReleased
    \<and> last_observed X B r False w' \<and> (changed \<or> w_db w' = w_db w \<and> stored = r)"
proof -
  have "with_lock (releaseLocked X B actor correlationID queueID confirmation) w = ((Some (stored, changed), None), w')"
    using assms(3) by (simp add: Release_queue_def split: if_splits)
  then obtain w1 w2 where b: "releaseLocked X B actor correlationID queueID confirmation w1 = ((Some (stored, changed), None), w2)"
    and k: "alone w1" "w_db w1 = w_db w" "w_postfix w1 = w_postfix w"
    and e: "alone w2 \<longrightarrow> w_db w' = w_db w2 \<and> w_postfix w' = w_postfix w2"
    by (rule with_lock_None [OF _ assms(1)])
  obtain r w3 where l: "loadConn X queueID w1 = (Inr r, w3)" using b by (auto simp: releaseLocked_def split: sum.splits prod.splits)
  note ld = alone_loadConn [OF l k(1)]
  have q: "qr_queue_id r = queueID" by (rule loadQueueRecord_id [OF ld(1)])
  obtain u w4 where lk: "run_query (\<lambda>db. Inr ()) w3 = (Inr u, w4)" using b l by (auto simp: releaseLocked_def split: sum.splits prod.splits)
  note lq = alone_query(1-3) [OF lk ld(3)]
  obtain plan w5 where p: "previewRecord X r w4 = (Inr plan, w5)" and cf: "rp_confirmation plan = confirmation"
    and c: "releaseConfirmed X B actor correlationID r w5 = ((Some (stored, changed), None), w2)"
    using b l lk by (auto simp: releaseLocked_def split: sum.splits prod.splits if_splits)
  note pr = previewRecord_Inr [OF p lq(2)]
  have w: "w_db w4 = w_db w" "w_db w5 = w_db w" using lq ld k pr(1) by simp_all
  have "queue_inv X (w_db w5)" "loadQueueRecord X (w_db w5) (qr_queue_id r) = Inr r" using assms(2) ld(1) k(2) q w by simp_all
  note rc = releaseConfirmed_None [OF c pr(2) this]
  have lo: "last_observed X B r False w'" using rc e by (auto simp: last_observed_def)
  from pr(4) obtain gs revs snapshot where "map (\<lambda>s. governing_row X (policy_row (w_db w) s)) (qr_sources r) = map Inr gs"
    "releasePolicySnapshot X gs = Inr (revs, snapshot)" "confirmation = digestStrings (release_values r snapshot)"
    unfolding w cf by blast
  moreover have "changed \<or> w_db w' = w_db w \<and> stored = r" using rc e w by (auto split: if_splits)
  moreover have "loadQueueRecord X (w_db w) queueID = Inr r" using ld(1) k(2) by simp
  moreover have "\<forall>a\<in>set (qr_recipients r). confined X (w_db w) (set (qr_sources r)) a" using pr(5) w by simp
  moreover have "loadQueueRecord X (w_db w') queueID = Inr stored \<and> qr_hold_state stored = HoldReleased" using rc e q by simp
  ultimately show ?thesis using lo by blast
qed


section \<open>Witnesses\<close>

text \<open>The sample message in a state other than \<open>pending\<close>.\<close>

definition held_row :: "string \<Rightarrow> HoldState \<Rightarrow> MessageRow" where
  "held_row a state =
     (message_of (mail_record a) 1000)\<lparr>m_hold_state := state, m_reason := Some ReasonPolicyHold, m_revisions := Some [(''x.io'', 4)]\<rparr>"

definition held_db :: "string \<Rightarrow> HoldState \<Rightarrow> db" where
  "held_db a state = (stored_rows ascii_external (mail_record a) 1000 mail_db)\<lparr>messages := [held_row a state]\<rparr>"

definition held_record :: "string \<Rightarrow> HoldState \<Rightarrow> QueueRecord" where
  "held_record a state =
     (mail_record a)\<lparr>qr_hold_state := state, qr_reason := ReasonPolicyHold, qr_revisions := [(''x.io'', 4)],
       qr_first_seen := 1000, qr_updated := 1000\<rparr>"

lemma held_parent:
  assumes "validHoldState state" and "state \<noteq> HoldPending"
  shows "loadParent ascii_external mail_queue_id (held_row a state) = Inr ((held_record a state)\<lparr>qr_recipients := [], qr_sources := []\<rparr>)"
proof -
  have r: "canonicalPolicyRevisions ascii_external [(''x.io'', 4)] = Inr [(''x.io'', 4)]"
    "revisionMapsEqual [(''x.io'', 4)] [(''x.io'', 4 :: 64 word)]" "validQueueReason ReasonPolicyHold"
    by (simp_all add: canonicalPolicyRevisions_def mail_domain maxGoverningDomains_def revisionMapsEqual_def validQueueReason_def)
  show ?thesis
    using assms r mail_texts
    by (simp add: loadParent_def held_row_def held_record_def mail_record_def message_of_def validQueuePolicyState_def nullString_def)
qed

lemma held_loads:
  assumes "a = ''a@x.io'' \<or> a = ''b@y.io''" and "validHoldState state" and "state \<noteq> HoldPending"
  shows "loadQueueRecord ascii_external (held_db a state) mail_queue_id = Inr (held_record a state)"
    and "queue_inv ascii_external (held_db a state)"
proof -
  have f: "find_message (held_db a state) mail_queue_id = Some (held_row a state)"
    by (simp add: find_message_def held_db_def held_row_def message_of_def mail_record_def)
  have "loadQueueRecord ascii_external (held_db a state) mail_queue_id = Inr ((held_record a state)\<lparr>qr_recipients := [], qr_sources := [],
      qr_recipients := qr_recipients ((mail_record a)\<lparr>qr_first_seen := 1000, qr_updated := 1000\<rparr>),
      qr_sources := qr_sources ((mail_record a)\<lparr>qr_first_seen := 1000, qr_updated := 1000\<rparr>)\<rparr>)"
    by (rule load_replace [OF mail_stored(2) [OF assms(1)] f held_parent [OF assms(2,3)]])
      (simp_all add: held_db_def recipient_rows_def source_rows_def fun_eq_iff held_record_def)
  then show l: "loadQueueRecord ascii_external (held_db a state) mail_queue_id = Inr (held_record a state)"
    by (simp add: held_record_def mail_record_def)
  have q: "m_queue_id (held_row a state) = mail_queue_id" by (simp add: held_row_def message_of_def mail_record_def)
  have "queue_tables_ok (held_db a state)"
    using mail_stored(3) [OF assms(1)]
    by (simp add: queue_tables_ok_def held_db_def stored_rows_def mail_db_def graph_db_def empty_db_def held_row_def message_of_def)
  then show "queue_inv ascii_external (held_db a state)" using l q by (simp add: queue_inv_def held_db_def)
qed

definition seen_boundary :: "string \<Rightarrow> bool \<Rightarrow> unit boundary" where
  "seen_boundary a held =
     \<lparr>bd_inspect = (\<lambda>_ p. (Inr (mail_metadata a held), p)), bd_hold = (\<lambda>_ p. (None, p)), bd_release = (\<lambda>_ p. (None, p))\<rparr>"

lemma held_matches:
  assumes "a = ''a@x.io'' \<or> a = ''b@y.io''"
  shows "matchesQueueMetadata ascii_external (held_record a state) (mail_metadata a held)"
proof -
  obtain d where "normalizeQueueRecipient ascii_external a = Inr (a, d)" using mail_address [OF assms] by blast
  from mail_normalizes [OF this] show ?thesis
    by (simp add: matchesQueueMetadata_def mail_metadata_def held_record_def mail_record_def mail_registration_def sameQueueIdentity_def)
qed

lemma alone_sample [simp]: "alone (sample_world db)" by (simp add: alone_def sample_world_def quiet_def)

lemma alone_world_simps [simp]:
  "run_query (\<lambda>db. Inr ()) ((sample_world db)\<lparr>w_count := k\<rparr>) = (Inr (), (sample_world db)\<lparr>w_count := Suc k\<rparr>)"
  "run_query (\<lambda>db. Inr ()) (sample_world db) = (Inr (), (sample_world db)\<lparr>w_count := Suc 0\<rparr>)"
  "loadConn X q ((sample_world db)\<lparr>w_count := k\<rparr>) = (loadQueueRecord X db q, (sample_world db)\<lparr>w_count := Suc k\<rparr>)"
  "on_postfix (bd_inspect (seen_boundary a held) q) ((sample_world db)\<lparr>w_count := k\<rparr>)
     = (Inr (mail_metadata a held), (sample_world db)\<lparr>w_count := k\<rparr>)"
  by (simp_all add: run_query_def loadConn_def on_postfix_def seen_boundary_def sample_world_def quiet_def Let_def)

abbreviation admin :: ActorRef where "admin \<equiv> \<lparr>actor_type = ''user'', actor_id = ''u1''\<rparr>"

theorem Reconcile_observes_hold_witness:
  "\<exists>w'. Reconcile_queue ascii_external (seen_boundary ''b@y.io'' True) admin ''c1'' mail_queue_id
       (sample_world (held_db ''b@y.io'' HoldApplied)) = ((Some (held_record ''b@y.io'' HoldApplied, False), None), w')
     \<and> last_observed ascii_external (seen_boundary ''b@y.io'' True) (held_record ''b@y.io'' HoldApplied) True w'"
proof -
  have st: "validHoldState HoldApplied" by (simp add: validHoldState_def)
  note l = held_loads [of "''b@y.io''" HoldApplied, OF _ st]
  have "Reconcile_queue ascii_external (seen_boundary ''b@y.io'' True) admin ''c1'' mail_queue_id
       (sample_world (held_db ''b@y.io'' HoldApplied)) = ((Some (held_record ''b@y.io'' HoldApplied, False), None),
         (sample_world (held_db ''b@y.io'' HoldApplied))\<lparr>w_count := 3\<rparr>)"
    by (simp add: Reconcile_queue_def mail_texts with_lock_def reconcileLocked_def l held_matches)
      (simp add: held_record_def mail_metadata_def)
  then obtain w' where r: "Reconcile_queue ascii_external (seen_boundary ''b@y.io'' True) admin ''c1'' mail_queue_id
       (sample_world (held_db ''b@y.io'' HoldApplied)) = ((Some (held_record ''b@y.io'' HoldApplied, False), None), w')"
    by blast
  from Reconcile_observes_hold [OF _ _ r] l r show ?thesis by auto
qed

lemma held_tables:
  "mailboxes (held_db a state) = mailboxes mail_db" "aliases (held_db a state) = aliases mail_db"
  "senders (held_db a state) = senders mail_db" "domains (held_db a state) = domains mail_db"
  by (simp_all add: held_db_def stored_rows_def)

lemma held_policy_row: "policy_row (held_db a state) s = policy_row mail_db s"
  unfolding policy_row_def source_owner_def held_tables ..

lemma held_resolve:
  "resolvePolicySources ascii_external mail_authority ((sample_world (held_db a state))\<lparr>w_count := k\<rparr>)
   = (Inr [mail_governing, mail_governing], (sample_world (held_db a state))\<lparr>w_count := Suc k\<rparr>)"
  by (simp add: resolvePolicySources_def held_policy_row mail_policy mail_rows run_query_def Let_def sample_world_def quiet_def
      maxQueueSources_def)

lemma held_evaluate:
  "Evaluate ascii_external \<lparr>rq_stage = StageTransport, rq_queue_id = mail_queue_id, rq_recipient = ''a@x.io'',
     rq_governing = [mail_governing, mail_governing]\<rparr>
   = \<lparr>dec_action = ActionOK, dec_reason = ReasonSameDomain, dec_revisions = [(''x.io'', 4)]\<rparr>"
  "Evaluate ascii_external \<lparr>rq_stage = StageTransport, rq_queue_id = mail_queue_id, rq_recipient = ''b@y.io'',
     rq_governing = [mail_governing, mail_governing]\<rparr>
   = \<lparr>dec_action = ActionDefer, dec_reason = ReasonPolicyHold, dec_revisions = [(''x.io'', 4)]\<rparr>"
  by (simp_all add: Evaluate_def mail_domain mail_texts maxGoverningDomains_def validScope_def)

lemma held_fields: "qr_sources (held_record a state) = mail_authority" "qr_recipients (held_record a state) = [a]"
  "qr_queue_id (held_record a state) = mail_queue_id" "qr_hold_state (held_record a state) = state"
  by (simp_all add: held_record_def mail_record_def)

abbreviation mail_snapshot :: "string list" where
  "mail_snapshot \<equiv> [snapshot_line [(''x.io'', ScopeSameDomainOnly, 4)] ''x.io'']"

lemma held_preview:
  "previewRecord ascii_external (held_record ''a@x.io'' HoldReleased) ((sample_world (held_db ''a@x.io'' HoldReleased))\<lparr>w_count := k\<rparr>)
   = (Inr \<lparr>rp_queue_id = mail_queue_id, rp_hold_state = HoldReleased, rp_revisions = [(''x.io'', 4)],
        rp_confirmation = digestStrings (release_values (held_record ''a@x.io'' HoldReleased) mail_snapshot)\<rparr>,
      (sample_world (held_db ''a@x.io'' HoldReleased))\<lparr>w_count := Suc k\<rparr>)"
  by (simp add: previewRecord_def held_fields held_resolve held_evaluate releasePolicySnapshot_def mail_domain validScope_def Let_def)

theorem Release_permitted_witness:
  "\<exists>confirmation w'. Release_queue ascii_external (seen_boundary ''a@x.io'' False) admin ''c1'' mail_queue_id confirmation
       (sample_world (held_db ''a@x.io'' HoldReleased)) = ((Some (held_record ''a@x.io'' HoldReleased, False), None), w')
     \<and> last_observed ascii_external (seen_boundary ''a@x.io'' False) (held_record ''a@x.io'' HoldReleased) False w'
     \<and> confined ascii_external mail_db (set mail_authority) ''a@x.io''"
proof -
  have st: "validHoldState HoldReleased" by (simp add: validHoldState_def)
  note l = held_loads [of "''a@x.io''" HoldReleased, OF _ st]
  let ?c = "digestStrings (release_values (held_record ''a@x.io'' HoldReleased) mail_snapshot)"
  have "Release_queue ascii_external (seen_boundary ''a@x.io'' False) admin ''c1'' mail_queue_id ?c
       (sample_world (held_db ''a@x.io'' HoldReleased)) = ((Some (held_record ''a@x.io'' HoldReleased, False), None),
         (sample_world (held_db ''a@x.io'' HoldReleased))\<lparr>w_count := 5\<rparr>)"
    by (simp add: Release_queue_def mail_texts with_lock_def releaseLocked_def l held_matches held_preview releaseConfirmed_def held_fields)
      (simp add: mail_metadata_def)
  then obtain w' where r: "Release_queue ascii_external (seen_boundary ''a@x.io'' False) admin ''c1'' mail_queue_id ?c
       (sample_world (held_db ''a@x.io'' HoldReleased)) = ((Some (held_record ''a@x.io'' HoldReleased, False), None), w')"
    by blast
  have "confined ascii_external (held_db ''a@x.io'' HoldReleased) = confined ascii_external mail_db"
    by (simp add: fun_eq_iff confined_def governed_by_def held_policy_row)
  with Release_permitted [OF _ _ r] l r show ?thesis by (auto simp: held_fields)
qed


abbreviation held_world :: "nat \<Rightarrow> unit world" where
  "held_world k \<equiv> (sample_world (held_db ''b@y.io'' HoldApplied))\<lparr>w_count := k\<rparr>"

lemma held_decide:
  assumes "validPolicyCorrelationID c"
  shows "Decide ascii_external admin c \<lparr>er_stage = StageTransport, er_queue_id = mail_queue_id, er_mailbox = [], er_system = [],
        er_envelope = [], er_recipient = ''b@y.io'', er_sources = []\<rparr> (held_world k)
      = ((\<lparr>dec_action = ActionDefer, dec_reason = ReasonPolicyHold, dec_revisions = [(''x.io'', 4)]\<rparr>, None), held_world (k + 3))"
proof -
  have st: "validHoldState HoldApplied" by (simp add: validHoldState_def)
  note l = held_loads(1) [of "''b@y.io''" HoldApplied, OF _ st]
  have ld: "Load ascii_external mail_queue_id (held_world k) = (Inr (held_record ''b@y.io'' HoldApplied), held_world (Suc k))"
    using l by (simp add: Load_def mail_texts run_query_def sample_world_def quiet_def Let_def)
  have c: "sortedStringContains [''b@y.io''] ''b@y.io''" by code_simp
  have rv: "canonicalPolicyRevisions ascii_external [(''x.io'', 4)] = Inr [(''x.io'', 4)]"
    "revisionMapsEqual [(''x.io'', 4)] [(''x.io'', 4 :: 64 word)]"
    by (simp_all add: canonicalPolicyRevisions_def mail_domain maxGoverningDomains_def revisionMapsEqual_def)
  have f: "find_message (held_db ''b@y.io'' HoldApplied) mail_queue_id = Some (held_row ''b@y.io'' HoldApplied)"
    by (simp add: find_message_def held_db_def held_row_def message_of_def mail_record_def)
  have ne: "c \<noteq> []" using assms by (auto simp: validPolicyCorrelationID_def)
  have h: "RequireHold ascii_external admin c mail_queue_id
      \<lparr>dec_action = ActionDefer, dec_reason = ReasonPolicyHold, dec_revisions = [(''x.io'', 4)]\<rparr> (held_world (Suc (Suc k)))
      = (Inr (), held_world (k + 3))"
    using st f assms ne by (simp add: RequireHold_def mail_texts rv run_tx_def requireHold_tx_def sample_world_def quiet_def Let_def)
      (simp add: held_row_def message_of_def rv validQueuePolicyState_def validQueueReason_def)
  show ?thesis
    using assms by (simp add: Decide_def decideTransport_def ld graph_addresses held_fields c held_resolve held_evaluate hold_actor_def h Let_def)
qed

lemma held_reconcile:
  assumes "validPolicyCorrelationID c"
  shows "Reconcile_queue ascii_external (seen_boundary ''b@y.io'' True) admin c mail_queue_id (held_world k)
    = ((Some (held_record ''b@y.io'' HoldApplied, False), None), held_world (k + 3))"
proof -
  have st: "validHoldState HoldApplied" by (simp add: validHoldState_def)
  note l = held_loads [of "''b@y.io''" HoldApplied, OF _ st]
  have "c \<noteq> []" using assms by (auto simp: validPolicyCorrelationID_def)
  then show ?thesis
    using assms by (simp add: Reconcile_queue_def mail_texts with_lock_def reconcileLocked_def l held_matches)
      (simp add: held_record_def mail_metadata_def)
qed

theorem Decide_hold_recorded_witness:
  "\<exists>m. find_message (w_db (snd (Decide ascii_external admin ''c1''
       \<lparr>er_stage = StageTransport, er_queue_id = mail_queue_id, er_mailbox = [], er_system = [], er_envelope = [],
        er_recipient = ''b@y.io'', er_sources = []\<rparr> (held_world 0)))) mail_queue_id = Some m
     \<and> m_reason m = Some ReasonPolicyHold"
proof -
  note d = held_decide [OF mail_rows(5), of 0]
  from Decide_hold_recorded [OF ascii_external_idna _ d] show ?thesis unfolding d by auto
qed

end
