(* ===== verification/Activation_Facts.thy ===== *)
theory Activation_Facts
  imports Release_Facts
begin

text \<open>
  The administration of the outbound scope: the digest of a change plan identifies the state it was computed from, so a confirmed
  change is applied to exactly the previewed state, and activation settles every message the change affects.
\<close>

section \<open>The payload binds the plan\<close>

text \<open>Text that \<open>json.Marshal\<close> writes as it is.\<close>

definition plain_text :: "string \<Rightarrow> bool" where
  "plain_text s \<longleftrightarrow> list_all json_safe s"

lemma json_chars_plain: "plain_text s \<Longrightarrow> json_chars s = s"
  by (induction s) (auto simp: json_chars.simps plain_text_def json_byte_def json_safe_def)

lemma plain_no_quote: "plain_text s \<Longrightarrow> CHR 0x22 \<notin> set s"
  by (auto simp: plain_text_def json_safe_def list_all_iff)

lemma delimited_front:
  "c \<notin> set a \<Longrightarrow> c \<notin> set b \<Longrightarrow> a @ c # x = b @ c # y \<Longrightarrow> a = b \<and> x = y"
proof (induction a arbitrary: b)
  case Nil
  then show ?case by (cases b) auto
next
  case (Cons h t)
  then show ?case by (cases b) auto
qed

lemma json_text_front:
  assumes "plain_text a" and "plain_text b"
  shows "json_text a @ x = json_text b @ y \<longleftrightarrow> a = b \<and> x = y"
  using assms delimited_front [OF plain_no_quote plain_no_quote, of a b x y] by (auto simp: json_text_def json_chars_plain)

lemma json_text_eq: "plain_text a \<Longrightarrow> plain_text b \<Longrightarrow> json_text a = json_text b \<longleftrightarrow> a = b"
  using json_text_front [of a b "[]" "[]"] by simp

lemma number_front_at:
  assumes "\<not> (48 \<le> byte c \<and> byte c \<le> 57)"
  shows "FormatUint m @ c # x = FormatUint n @ c # y \<longleftrightarrow> m = n \<and> x = y"
proof -
  have "c \<notin> set (FormatUint k)" for k using assms FormatUint_digits [of c k] by blast
  from delimited_front [OF this this, of m x n y] show ?thesis by (auto simp: FormatUint_inj)
qed

lemmas number_front = number_front_at [of "CHR '',''", simplified] number_front_at [of "CHR ''}''", simplified]

definition plan_fields :: "ChangePlan \<Rightarrow> string \<times> string \<times> Scope \<times> Scope \<times> u64 \<times> Impact \<times> string" where
  "plan_fields p =
     (cp_domain_id p, cp_domain p, cp_current p, cp_requested p, cp_revision p, cp_impact p, cp_state_digest p)"

lemma plan_payload_inj:
  assumes p: "plain_text (cp_domain_id p)" "plain_text (cp_domain p)" "plain_text (cp_current p)" "plain_text (cp_requested p)"
    "plain_text (cp_state_digest p)"
    and q: "plain_text (cp_domain_id q)" "plain_text (cp_domain q)" "plain_text (cp_current q)" "plain_text (cp_requested q)"
    "plain_text (cp_state_digest q)"
    and eq: "plan_payload p = plan_payload q"
  shows "plan_fields p = plan_fields q"
  using eq unfolding plan_payload_def json_impact_def plan_fields_def
  by (simp add: json_text_front json_text_eq p q number_front word_unat_eq_iff)

section \<open>State digests bind the state\<close>

lemma writePolicyStateDigest_transcript: "writePolicyStateDigest d vs = d @ transcript vs"
  unfolding writePolicyStateDigest_def
  by (induction vs arbitrary: d) (simp_all add: transcript_def frame_def)

lemma transcript_append: "transcript (xs @ ys) = transcript xs @ transcript ys"
  by (simp add: transcript_def)

text \<open>What the two loops write to their digests.\<close>

definition alias_state :: "AliasRow list \<Rightarrow> (string \<times> string \<times> string) list" where
  "alias_state rows = map (\<lambda>a. (al_id a, al_local a, al_json a)) rows"

definition queue_state :: "queue_row list \<Rightarrow> (string \<times> string \<times> string \<times> string \<times> string) list" where
  "queue_state rows = map (\<lambda>(m, r). (m_queue_id m, m_fingerprint m, m_recipient_digest m, m_source_digest m, r)) rows"

definition alias_values :: "AliasRow list \<Rightarrow> string list" where
  "alias_values rows = ''gotth-mail/outbound-policy-alias-state/v1'' # concat (map (\<lambda>(i, l, j). [i, l, j]) (alias_state rows))"

definition queue_values :: "queue_row list \<Rightarrow> string list" where
  "queue_values rows =
     ''gotth-mail/outbound-policy-queue-state/v1'' # concat (map (\<lambda>(q, f, d, s, r). [q, f, d, s, r]) (queue_state rows))"

lemma aliasLoop_digest:
  "aliasLoop X domain rows seen used impact digest = Inr (impact', digest') \<Longrightarrow>
   digest' = digest @ transcript (concat (map (\<lambda>(i, l, j). [i, l, j]) (alias_state rows)))
   \<and> (\<forall>a\<in>set rows. validQueueObjectID (al_id a) \<and> length (al_json a) \<le> maxAliasTargetJSONBytes)"
proof (induction rows arbitrary: seen used impact digest)
  case Nil
  then show ?case by (simp add: alias_state_def transcript_def)
next
  case (Cons a rows)
  from Cons.prems obtain n i where ok: "validQueueObjectID (al_id a)" "length (al_json a) \<le> maxAliasTargetJSONBytes"
    and rec: "aliasLoop X domain rows (seen + 1) n i (writePolicyStateDigest digest [al_id a, al_local a, al_json a]) = Inr (impact', digest')"
    by (auto simp: Let_def not_less split: if_splits option.splits sum.splits)
  show ?case using Cons.IH [OF rec] ok
    by (simp add: writePolicyStateDigest_transcript alias_state_def transcript_def)
qed

lemma queueLoop_digest:
  "queueLoop X domain rows count ids prior digest = Inr (count', digest', ids') \<Longrightarrow>
   digest' = digest @ transcript (concat (map (\<lambda>(q, f, d, s, r). [q, f, d, s, r]) (queue_state rows)))
   \<and> (\<forall>(m, r)\<in>set rows. validLongQueueID (m_queue_id m) \<and> validLowerHexDigest (m_fingerprint m)
        \<and> validLowerHexDigest (m_recipient_digest m) \<and> validLowerHexDigest (m_source_digest m)
        \<and> (\<exists>d. normalizeQueueRecipient X r = Inr (r, d) \<and> d \<noteq> domain))"
proof (induction rows arbitrary: count ids prior digest)
  case Nil
  then show ?case by (simp add: queue_state_def transcript_def)
next
  case (Cons row rows)
  obtain m r where row: "row = (m, r)" by fastforce
  from Cons.prems row obtain c i where ok: "validLongQueueID (m_queue_id m)" "validLowerHexDigest (m_fingerprint m)"
      "validLowerHexDigest (m_recipient_digest m)" "validLowerHexDigest (m_source_digest m)"
      "\<exists>d. normalizeQueueRecipient X r = Inr (r, d) \<and> d \<noteq> domain"
    and rec: "queueLoop X domain rows c i (m_queue_id m) (writePolicyStateDigest digest
      [m_queue_id m, m_fingerprint m, m_recipient_digest m, m_source_digest m, r]) = Inr (count', digest', ids')"
    by (auto split: if_splits sum.splits)
  show ?case using Cons.IH [OF rec] ok row
    by (auto simp: writePolicyStateDigest_transcript queue_state_def transcript_def)
qed

lemma concat_chunks:
  assumes "\<And>x. length (f x) = n" and "0 < n" and "inj f"
  shows "concat (map f xs) = concat (map f ys) \<Longrightarrow> xs = ys"
proof (induction xs arbitrary: ys)
  case Nil
  then show ?case using assms(1,2) by (cases ys) (auto, metis length_greater_0_conv)
next
  case (Cons x xs)
  then show ?case
  proof (cases ys)
    case Nil
    have "f x \<noteq> []" using assms(1) [of x] assms(2) by auto
    then show ?thesis using Cons.prems Nil by simp
  next
    case (Cons y zs)
    then have "f x = f y" "concat (map f xs) = concat (map f zs)"
      using Cons.prems assms(1) [of x] assms(1) [of y] by auto
    then show ?thesis using Cons Cons.IH assms(3) by (simp add: inj_eq)
  qed
qed

lemma alias_values_inj: "alias_values xs = alias_values ys \<Longrightarrow> alias_state xs = alias_state ys"
  using concat_chunks [of "\<lambda>(i :: string, l, j). [i, l, j]" 3 "alias_state xs" "alias_state ys"]
  by (simp add: alias_values_def inj_def split: prod.splits)

lemma queue_values_inj: "queue_values xs = queue_values ys \<Longrightarrow> queue_state xs = queue_state ys"
  using concat_chunks [of "\<lambda>(q :: string, f, d, s, r). [q, f, d, s, r]" 5 "queue_state xs" "queue_state ys"]
  by (simp add: queue_values_def inj_def split: prod.splits)

section \<open>Plans\<close>

text \<open>What a plan says of the database it was made from.\<close>

definition plan_of :: "external \<Rightarrow> db \<Rightarrow> string \<Rightarrow> Scope \<Rightarrow> DomainRow \<Rightarrow> ChangePlan \<Rightarrow> bool" where
  "plan_of X db rawDomain requested d p \<longleftrightarrow>
     NormalizeDomain X rawDomain = Inr (d_name d) \<and> d \<in> set (domains db) \<and> d_enabled d \<and> 0 < d_revision d
     \<and> validScope (d_scope d) \<and> validScope requested
     \<and> cp_domain_id p = d_id d \<and> cp_domain p = d_name d \<and> cp_current p = d_scope d \<and> cp_requested p = requested
     \<and> cp_revision p = of_int (d_revision d)
     \<and> cp_digest p = hex_encode (sha256 (plan_payload p))
     \<and> cp_state_digest p = digestStrings [''gotth-mail/outbound-policy-state/v1'',
          digestStrings (alias_values (alias_query db (d_id d))),
          digestStrings (queue_values (queue_query X db (d_id d) (d_name d)))]
     \<and> list_all framable (queue_values (queue_query X db (d_id d) (d_name d)))
     \<and> (\<forall>a\<in>set (alias_query db (d_id d)). framable (al_id a) \<and> framable (al_json a))"

lemma digest_sum_new: "digest_sum (newPolicyStateDigest c @ transcript vs) = digestStrings (c # vs)"
  by (simp add: digest_sum_def newPolicyStateDigest_def writePolicyStateDigest_transcript digestStrings_def transcript_def)

lemma contract_framable:
  "framable ''gotth-mail/outbound-policy-alias-state/v1''" "framable ''gotth-mail/outbound-policy-queue-state/v1''"
  "framable ''gotth-mail/outbound-policy-state/v1''"
  by (simp_all add: framable_def)

lemma hex_framable: "validLowerHexDigest s \<Longrightarrow> framable s"
  by (simp add: validLowerHexDigest_def framable_def)

lemma queue_id_framable: "validLongQueueID q \<Longrightarrow> framable q"
  by (auto simp: validLongQueueID_def framable_def maxPostfixQueueIDBytes_def split: if_splits)

lemma queue_values_framable:
  assumes X: "idna_lookup X" and "queueLoop X domain rows count ids prior digest = Inr (count', digest', ids')"
  shows "list_all framable (queue_values rows)"
proof -
  have "framable r" if "(m, r) \<in> set rows" for m r
    using queueLoop_digest [OF assms(2)] that normalizeQueueRecipient_framable [OF X] by fastforce
  then show ?thesis
    using queueLoop_digest [OF assms(2)] contract_framable(2)
    by (auto simp: queue_values_def queue_state_def list_all_iff intro: hex_framable queue_id_framable)
qed

lemma object_id_framable: "validQueueObjectID i \<Longrightarrow> framable i"
  by (auto simp: validQueueObjectID_def framable_def maxQueueObjectID_def split: if_splits)

lemma finishPlan_Inr:
  assumes "finishPlan d requested impact ad (count, qd, ids) = Inr p"
  shows "cp_domain_id p = d_id d" and "cp_domain p = d_name d" and "cp_current p = d_scope d" and "cp_requested p = requested"
    and "cp_revision p = of_int (d_revision d)" and "cp_digest p = hex_encode (sha256 (plan_payload p))"
    and "cp_state_digest p = digestStrings [''gotth-mail/outbound-policy-state/v1'', ad, qd]" and "cp_affected p = ids"
    and "cp_impact p = impact\<lparr>im_queued := count\<rparr>"
  using assms by (auto simp: finishPlan_def Let_def planDigest_def plan_payload_def split: if_splits)

text \<open>A queryer whose statements all see one database.\<close>

locale snapshot_queryer =
  fixes queryer :: "'s queryer" and inv :: "'s \<Rightarrow> bool" and db :: db
  assumes sees: "inv s \<Longrightarrow> queryer s = (Inr db', s') \<Longrightarrow> db' = db \<and> inv s'"
begin

lemma loads_plan:
  assumes X: "idna_lookup X" and "loadChangePlan X queryer rawDomain requested s = (Inr p, s')" and s: "inv s"
  shows "\<exists>d. plan_of X db rawDomain requested d p \<and> inv s'
     \<and> (\<exists>count digest. queueLoop X (d_name d) (queue_query X db (d_id d) (d_name d)) 0 [] []
          (newPolicyStateDigest ''gotth-mail/outbound-policy-queue-state/v1'') = Inr (count, digest, cp_affected p))"
proof -
  obtain domain db0 s1 d where n: "NormalizeDomain X rawDomain = Inr domain" and q0: "queryer s = (Inr db0, s1)"
    and f: "List.find (\<lambda>d. d_name d = domain \<and> d_enabled d) (domains db0) = Some d"
    and r: "\<not> d_revision d < 0" "d_revision d \<noteq> 0" "validScope (d_scope d)" "validScope requested"
    using assms(2) by (auto simp: loadChangePlan_def split: if_splits sum.splits prod.splits option.splits)
  have 0: "db0 = db" "inv s1" using sees [OF s q0] by auto
  obtain db1 s2 impact adig where q1: "queryer s1 = (Inr db1, s2)"
    and al: "aliasLoop X (d_name d) (alias_query db1 (d_id d)) 0 0 \<lparr>im_aliases = 0, im_external = 0, im_queued = 0\<rparr>
             (newPolicyStateDigest ''gotth-mail/outbound-policy-alias-state/v1'') = Inr (impact, adig)"
    using assms(2) n q0 f r
    by (auto simp: loadChangePlan_def loadAliasImpact_def split: if_splits sum.splits prod.splits option.splits)
  have 1: "db1 = db" "inv s2" using sees [OF 0(2) q1] by auto
  obtain db2 s3 db3 count qdig ids where q2: "queryer s2 = (Inr db2, s3)" and q3: "queryer s3 = (Inr db3, s')"
    and ql: "queueLoop X (d_name d) (queue_query X db3 (d_id d) (d_name d)) 0 [] []
          (newPolicyStateDigest ''gotth-mail/outbound-policy-queue-state/v1'') = Inr (count, qdig, ids)"
    and p: "finishPlan d requested impact (digest_sum adig) (count, digest_sum qdig, ids) = Inr p"
    using assms(2) n q0 f r q1 al
    by (auto simp: loadChangePlan_def loadAliasImpact_def loadQueuedRecipientImpact_def split: if_splits sum.splits prod.splits option.splits)
  have 2: "inv s3" using sees [OF 1(2) q2] by auto
  have 3: "db3 = db" "inv s'" using sees [OF 2 q3] by auto
  note fp = finishPlan_Inr [OF p] and ad = aliasLoop_digest [OF al] and qd = queueLoop_digest [OF ql]
  have d: "d \<in> set (domains db)" "d_name d = domain" "d_enabled d"
    using f 0 by (auto simp: find_Some_iff)
  have "framable (al_id a) \<and> framable (al_json a)" if "a \<in> set (alias_query db (d_id d))" for a
    using ad that 1 object_id_framable by (auto simp: framable_def maxAliasTargetJSONBytes_def)
  moreover have "digest_sum adig = digestStrings (alias_values (alias_query db (d_id d)))"
    using ad 1 by (simp add: digest_sum_new alias_values_def)
  moreover have "digest_sum qdig = digestStrings (queue_values (queue_query X db (d_id d) (d_name d)))"
    using qd 3 by (simp add: digest_sum_new queue_values_def)
  moreover have "list_all framable (queue_values (queue_query X db (d_id d) (d_name d)))"
    using queue_values_framable [OF X ql] 3 by simp
  ultimately have "plan_of X db rawDomain requested d p"
    unfolding plan_of_def using fp d n r by simp
  then show ?thesis using 3 ql fp(8) by blast
qed

end

interpretation in_tx: snapshot_queryer in_tx "\<lambda>s. s = db" db for db
  by unfold_locales (auto simp: in_tx_def)

interpretation handle: snapshot_queryer on_handle "\<lambda>w. still w \<and> w_db w = db" db for db
  by unfold_locales (auto simp: on_handle_def dest: run_query_still)

section \<open>Confirmation\<close>

lemma equalPlanDigest_hex: "equalPlanDigest (hex_encode a) (hex_encode b) \<Longrightarrow> a = b"
  by (auto simp: equalPlanDigest_def split: if_splits)

text \<open>The identifiers of the tables are UUIDs, which JSON writes as they are, and local parts fit in memory.\<close>

definition stored_names :: "db \<Rightarrow> bool" where
  "stored_names db \<longleftrightarrow> (\<forall>d\<in>set (domains db). plain_text (d_id d)) \<and> (\<forall>a\<in>set (aliases db). framable (al_local a))"

lemma plain_domain: "canonical_domain X d \<Longrightarrow> plain_text d"
  by (auto simp: canonical_domain_def plain_text_def list_all_iff ldh_dot_def json_safe_def)

lemma plain_hex: "validLowerHexDigest s \<Longrightarrow> plain_text s"
  by (auto simp: validLowerHexDigest_def plain_text_def list_all_iff is_lower_hex_def json_safe_def)

lemma plain_scope: "validScope s \<Longrightarrow> plain_text s"
  by (auto simp: validScope_def plain_text_def json_safe_def)

lemma plan_plain:
  assumes "idna_lookup X" and "plan_of X db rawDomain requested d p" and "stored_names db"
  shows "plain_text (cp_domain_id p)" "plain_text (cp_domain p)" "plain_text (cp_current p)" "plain_text (cp_requested p)"
    "plain_text (cp_state_digest p)"
  using assms plain_domain [OF NormalizeDomain_canonical [OF assms(1)]]
  by (auto simp: plan_of_def stored_names_def plain_scope plain_hex)

lemma alias_values_framable:
  assumes "plan_of X db rawDomain requested d p" and "stored_names db"
  shows "list_all framable (alias_values (alias_query db (d_id d)))"
proof -
  have "set (alias_query db (d_id d)) \<subseteq> set (aliases db)"
    by (auto simp: alias_query_def dest: in_set_takeD)
  then show ?thesis
    using assms contract_framable(1)
    by (auto simp: alias_values_def alias_state_def list_all_iff plan_of_def stored_names_def)
qed

text \<open>Where the digests of the plan of a domain would have to collide.\<close>

abbreviation alias_text :: "db \<Rightarrow> DomainRow \<Rightarrow> string" where
  "alias_text db d \<equiv> transcript (alias_values (alias_query db (d_id d)))"

abbreviation queue_text :: "external \<Rightarrow> db \<Rightarrow> DomainRow \<Rightarrow> string" where
  "queue_text X db d \<equiv> transcript (queue_values (queue_query X db (d_id d) (d_name d)))"

definition state_text :: "external \<Rightarrow> db \<Rightarrow> DomainRow \<Rightarrow> string" where
  "state_text X db d = transcript [''gotth-mail/outbound-policy-state/v1'', digestStrings (alias_values (alias_query db (d_id d))),
     digestStrings (queue_values (queue_query X db (d_id d) (d_name d)))]"

lemma plan_binds:
  assumes X: "idna_lookup X" and p: "plan_of X db raw requested d p" "stored_names db"
    and q: "plan_of X db' raw' requested' d' q" "stored_names db'" and eq: "equalPlanDigest (cp_digest q) (cp_digest p)"
  shows "plan_fields q = plan_fields p
       \<and> alias_state (alias_query db' (d_id d')) = alias_state (alias_query db (d_id d))
       \<and> queue_state (queue_query X db' (d_id d') (d_name d')) = queue_state (queue_query X db (d_id d) (d_name d))
    \<or> collides (plan_payload q) (plan_payload p) \<or> collides (state_text X db' d') (state_text X db d)
    \<or> collides (alias_text db' d') (alias_text db d) \<or> collides (queue_text X db' d') (queue_text X db d)"
proof -
  have "sha256 (plan_payload q) = sha256 (plan_payload p)"
    using eq p(1) q(1) by (auto simp: plan_of_def dest: equalPlanDigest_hex)
  then consider "collides (plan_payload q) (plan_payload p)" | "plan_payload q = plan_payload p" by (auto simp: collides_def)
  then show ?thesis
  proof cases
    case 2
    from plan_payload_inj [OF plan_plain [OF X q] plan_plain [OF X p] 2] have fields: "plan_fields q = plan_fields p" .
    let ?a = "alias_values (alias_query db (d_id d))" and ?a' = "alias_values (alias_query db' (d_id d'))"
    let ?q = "queue_values (queue_query X db (d_id d) (d_name d))" and ?q' = "queue_values (queue_query X db' (d_id d') (d_name d'))"
    have "cp_state_digest q = cp_state_digest p" using fields by (simp add: plan_fields_def)
    then have "digestStrings [''gotth-mail/outbound-policy-state/v1'', digestStrings ?a', digestStrings ?q']
        = digestStrings [''gotth-mail/outbound-policy-state/v1'', digestStrings ?a, digestStrings ?q]"
      using p(1) q(1) by (simp add: plan_of_def)
    then have "collides (state_text X db' d') (state_text X db d)
        \<or> digestStrings ?a' = digestStrings ?a \<and> digestStrings ?q' = digestStrings ?q"
      using digestStrings_binds [of "[''gotth-mail/outbound-policy-state/v1'', digestStrings ?a', digestStrings ?q']"
          "[''gotth-mail/outbound-policy-state/v1'', digestStrings ?a, digestStrings ?q]"]
        contract_framable(3) by (auto simp: state_text_def hex_framable)
    moreover have "digestStrings ?a' = digestStrings ?a \<Longrightarrow> ?a' = ?a \<or> collides (alias_text db' d') (alias_text db d)"
      by (rule digestStrings_binds [OF alias_values_framable [OF q] alias_values_framable [OF p]])
    moreover have "digestStrings ?q' = digestStrings ?q \<Longrightarrow> ?q' = ?q \<or> collides (queue_text X db' d') (queue_text X db d)"
      by (rule digestStrings_binds) (use p(1) q(1) in \<open>simp_all add: plan_of_def\<close>)
    ultimately show ?thesis using fields alias_values_inj queue_values_inj by blast
  qed simp
qed

section \<open>The transaction\<close>

definition domain_keys :: "db \<Rightarrow> bool" where
  "domain_keys db \<longleftrightarrow> distinct (map d_id (domains db))"

definition rescoped :: "Scope \<Rightarrow> int \<Rightarrow> DomainRow \<Rightarrow> DomainRow" where
  "rescoped scope now d = d\<lparr>d_scope := scope, d_revision := d_revision d + 1, d_updated := now\<rparr>"

lemma applyChange_tx_Inr:
  assumes X: "idna_lookup X" and keys: "domain_keys db" and dom: "\<forall>d\<in>set (domains db). check_domain d"
    and tx: "applyChange_tx X actor correlationID rawDomain requested confirmation cx db = Inr ((p, changed), db')"
  obtains d where "plan_of X db rawDomain requested d p" and "equalPlanDigest (cp_digest p) confirmation"
    and "changed = (d_scope d \<noteq> requested)"
    and "if changed
      then db' = db\<lparr>domains := map (\<lambda>e. if d_id e = d_id d then rescoped requested (cx_now cx) e else e) (domains db),
                    audit_events := audit_events db @ [audit_row (cx_rnd cx) (cx_now cx) (scope_event (cx_now cx) actor correlationID p)]\<rparr>
      else db' = db"
proof -
  obtain s where l: "loadChangePlan X in_tx rawDomain requested db = (Inr p, s)" and eq: "equalPlanDigest (cp_digest p) confirmation"
    using tx by (cases "loadChangePlan X in_tx rawDomain requested db")
      (auto simp: applyChange_tx_def split: sum.splits if_splits prod.splits)
  obtain d where d: "plan_of X db rawDomain requested d p" using in_tx.loads_plan [OF X l] by blast
  have dd: "d \<in> set (domains db)" "cp_domain_id p = d_id d" "cp_current p = d_scope d" "cp_requested p = requested"
    using d by (simp_all add: plan_of_def)
  have "0 < d_revision d" "d_revision d < 2 ^ 64" using dom dd(1) by (auto simp: check_domain_def int8_max_def)
  then have rev: "uint (cp_revision p) = d_revision d" using d by (simp add: plan_of_def uint_word_of_int take_bit_int_eq_self)
  have hit: "d_id e = d_id d \<and> d_revision e = d_revision d \<longleftrightarrow> d_id e = d_id d" if "e \<in> set (domains db)" for e
    using keys dd(1) that unfolding domain_keys_def by (metis distinct_map inj_on_def)
  have m: "map (\<lambda>e. if d_id e = d_id d \<and> d_revision e = d_revision d then f e else e) (domains db)
      = map (\<lambda>e. if d_id e = d_id d then f e else e) (domains db)" for f
    using hit by (intro map_cong) auto
  show thesis
  proof (cases "d_scope d = requested")
    case True
    then have "db' = db" "\<not> changed" using tx l eq dd by (auto simp: applyChange_tx_def split: if_splits)
    then show ?thesis using that [OF d eq] True by simp
  next
    case False
    have "changed" "db' = db\<lparr>domains := map (\<lambda>e. if d_id e = d_id d \<and> d_revision e = d_revision d
          then e\<lparr>d_scope := requested, d_revision := d_revision e + 1, d_updated := cx_now cx\<rparr> else e) (domains db),
        audit_events := audit_events db @ [audit_row (cx_rnd cx) (cx_now cx) (scope_event (cx_now cx) actor correlationID p)]\<rparr>"
      using tx l eq dd False rev
      by (auto simp: applyChange_tx_def update_domain_def Let_def split: if_splits sum.splits dest!: WriteSQL_Inr)
    then show ?thesis using that [OF d eq] False by (simp add: m rescoped_def)
  qed
qed

section \<open>Properties of a change\<close>

text \<open>C8: a scope change does what was confirmed. If \<open>Apply\<close> succeeds with the digest of a previewed plan, then domain, scopes,
  revision, impact, the aliases of the domain and the affected queue entries are the previewed ones, up to an explicit
  SHA-256 collision between two particular texts; and it sets the scope and increments the revision of exactly this domain
  and appends its audit event, or, if the scope is the requested one already, changes nothing.\<close>

theorem Apply_change_confirmed:
  assumes X: "idna_lookup X" and "still w" and "Preview_change X raw requested w = (Inr p, w1)" and n: "stored_names (w_db w)"
    and cx: "cx = w_env v (w_count v)" "db = cx_other cx (w_db v)"
    and db: "domain_keys db" "stored_names db" "\<forall>d\<in>set (domains db). check_domain d"
    and ap: "Apply_change X actor correlationID raw' requested' (cp_digest p) v = (Inr (q, changed), v')"
  shows "\<exists>d d'. plan_of X (w_db w) raw requested d p \<and> plan_of X db raw' requested' d' q
    \<and> (plan_fields q = plan_fields p
         \<and> alias_state (alias_query db (d_id d')) = alias_state (alias_query (w_db w) (d_id d))
         \<and> queue_state (queue_query X db (d_id d') (d_name d')) = queue_state (queue_query X (w_db w) (d_id d) (d_name d))
       \<or> collides (plan_payload q) (plan_payload p) \<or> collides (state_text X db d') (state_text X (w_db w) d)
       \<or> collides (alias_text db d') (alias_text (w_db w) d) \<or> collides (queue_text X db d') (queue_text X (w_db w) d))
    \<and> changed = (d_scope d' \<noteq> requested')
    \<and> (if changed
       then w_db v' = db\<lparr>domains := map (\<lambda>e. if d_id e = d_id d' then rescoped requested' (cx_now cx) e else e) (domains db),
              audit_events := audit_events db @ [audit_row (cx_rnd cx) (cx_now cx) (scope_event (cx_now cx) actor correlationID q)]\<rparr>
       else w_db v' = db)"
proof -
  obtain d where d: "plan_of X (w_db w) raw requested d p"
    using handle.loads_plan [OF X assms(3) [unfolded Preview_change_def], of "w_db w"] assms(2) by auto
  have t: "run_tx (applyChange_tx X actor correlationID raw' requested' (cp_digest p)) v = (Inr (q, changed), v')"
    using ap by (simp add: Apply_change_def split: if_splits)
  have tx: "applyChange_tx X actor correlationID raw' requested' (cp_digest p) cx db = Inr ((q, changed), w_db v')"
    using run_tx_Inr [OF t] cx by auto
  from applyChange_tx_Inr [OF X db(1,3) tx] obtain d' where d': "plan_of X db raw' requested' d' q"
    and e: "equalPlanDigest (cp_digest q) (cp_digest p)" and c: "changed = (d_scope d' \<noteq> requested')"
    and u: "if changed
      then w_db v' = db\<lparr>domains := map (\<lambda>e. if d_id e = d_id d' then rescoped requested' (cx_now cx) e else e) (domains db),
              audit_events := audit_events db @ [audit_row (cx_rnd cx) (cx_now cx) (scope_event (cx_now cx) actor correlationID q)]\<rparr>
      else w_db v' = db" by blast
  from plan_binds [OF X d n d' db(2) e] d d' c u show ?thesis by blast
qed

section \<open>What activation leaves of a message\<close>

text \<open>A message is untouched: it loads as before, and the policy tables are as before.\<close>

definition untouched :: "external \<Rightarrow> string \<Rightarrow> db \<Rightarrow> db \<Rightarrow> bool" where
  "untouched X q db db' \<longleftrightarrow>
     loadQueueRecord X db' q = loadQueueRecord X db q
     \<and> (domains db', mailboxes db', aliases db', senders db') = (domains db, mailboxes db, aliases db, senders db)"

interpretation untouched: guarantee "untouched X q" for X q
  by unfold_locales (auto simp: untouched_def)

text \<open>The policy tables are as before.\<close>

definition same_policy :: "db \<Rightarrow> db \<Rightarrow> bool" where
  "same_policy db db' \<longleftrightarrow> (domains db', mailboxes db', aliases db', senders db') = (domains db, mailboxes db, aliases db, senders db)"

interpretation same_policy: guarantee same_policy
  by unfold_locales (auto simp: same_policy_def)

lemma moved_same_policy: "moved X q P f db db' \<Longrightarrow> same_policy db db'"
  by (auto simp: moved_def same_policy_def)

lemma policy_untouched: "same_policy db db' \<Longrightarrow> loadQueueRecord X db' q = loadQueueRecord X db q \<Longrightarrow> untouched X q db db'"
  by (simp add: untouched_def same_policy_def)

lemma confined_same_policy:
  assumes "same_policy db db'" shows "confined X db' S a = confined X db S a"
proof -
  have tables: "domains db' = domains db" "mailboxes db' = mailboxes db" "aliases db' = aliases db" "senders db' = senders db"
    using assms by (simp_all add: same_policy_def)
  have "policy_row db' s = policy_row db s" for s
    unfolding policy_row_def source_owner_def tables ..
  then show ?thesis by (simp add: confined_def governed_by_def)
qed

context hold_transition
begin

lemma tx_same_policy: "tx cx db = Inr (u, db') \<Longrightarrow> same_policy db db'"
  using tx_effect [of cx db db'] moved_same_policy by (auto simp: same_policy_def)

lemma tx_untouched: "tx cx db = Inr (u, db') \<Longrightarrow> q' \<noteq> q \<Longrightarrow> untouched X q' db db'"
  using tx_effect [of cx db db'] moved_load_other [of cx db db' q'] tx_same_policy [of cx db u db']
  by (auto intro: policy_untouched)

end

lemma requireHold_untouched:
  assumes "idna_lookup X" and "canonicalPolicyRevisions X (dec_revisions decision) = Inr revs" and "dec_reason decision = ReasonPolicyHold"
    and "requireHold_tx X actor correlationID q decision revs cx db = Inr (u, db')"
  shows "same_policy db db'" and "q' \<noteq> q \<Longrightarrow> untouched X q' db db'"
proof -
  have "guarded (require_ok X decision revs) (requireHold_tx X actor correlationID q decision revs) cx db = Inr (u, db')"
    using assms canonicalPolicyRevisions_ok [OF assms(1,2)] by (simp add: guarded_def require_ok_def)
  from require_hold.tx_same_policy [OF this] require_hold.tx_untouched [OF this]
  show "same_policy db db'" and "q' \<noteq> q \<Longrightarrow> untouched X q' db db'" by auto
qed

lemma load_id: "loadConn X q w = (Inr r, w1) \<Longrightarrow> qr_queue_id r = q" "Load X q w = (Inr r, w1) \<Longrightarrow> qr_queue_id r = q"
  by (auto simp: loadConn_def Load_def run_query_def Let_def split: if_splits dest: loadQueueRecord_id)

text \<open>A relation that every transaction on one message keeps: then so do the operations on this message.\<close>

locale message_guarantee = guarantee R for R +
  fixes X :: external and q :: string
  assumes starts: "qr_queue_id r = q \<Longrightarrow> startReconciliation_tx X actor correlationID r cx db = Inr (u, db') \<Longrightarrow> R db db'"
    and finishes: "qr_queue_id r = q \<Longrightarrow> state = HoldApplied \<or> state = HoldReconciliationError \<Longrightarrow>
      finishReconciliation_tx X actor correlationID r state code cx db = Inr (u, db') \<Longrightarrow> R db db'"
    and requires: "idna_lookup X \<Longrightarrow> canonicalPolicyRevisions X (dec_revisions decision) = Inr revs \<Longrightarrow> dec_reason decision = ReasonPolicyHold \<Longrightarrow>
      requireHold_tx X actor correlationID q decision revs cx db = Inr (u, db') \<Longrightarrow> R db db'"
begin

lemma bind_result:
  fixes m :: "'p world \<Rightarrow> 'a \<times> 'p world"
  assumes "guarantees R m" and "\<And>a w w1. m w = (a, w1) \<Longrightarrow> guarantees R (g a)"
  shows "guarantees R (\<lambda>w. case m w of (a, w1) \<Rightarrow> g a w1)"
  unfolding guarantees_def
proof (intro allI impI)
  fix w :: "'p world" assume w: "relies R w"
  obtain a w1 where m: "m w = (a, w1)" by fastforce
  obtain b w2 where g: "g a w1 = (b, w2)" by fastforce
  note e1 = guaranteesD [OF assms(1) w m]
  then have "relies R w1" by simp
  note e2 = guaranteesD [OF assms(2) [OF m] this g]
  show "w_env (snd (case m w of (a, w1) \<Rightarrow> g a w1)) = w_env w \<and> R (w_db w) (w_db (snd (case m w of (a, w1) \<Rightarrow> g a w1)))"
    using e1 e2 by (auto simp: m g intro: trans)
qed

lemma finish:
  assumes "qr_queue_id r = q"
  shows "guarantees R (finishQueueReconciliation X actor correlationID r state code)"
  unfolding finishQueueReconciliation_def [abs_def]
  by (intro guarantee_intros tx) (use finishes [OF assms] in auto)

lemma parts:
  assumes "qr_queue_id r = q"
  shows "guarantees R (reconcileFail X actor correlationID r code)" "guarantees R (reconcileDone X actor correlationID r)"
  unfolding reconcileFail_def [abs_def] reconcileDone_def [abs_def] by (intro guarantee_intros finish [OF assms])+

lemma hold:
  assumes "qr_queue_id r = q" shows "guarantees R (reconcileHold X B actor correlationID r)"
  unfolding reconcileHold_def [abs_def] by (intro guarantee_intros parts [OF assms])

lemma start:
  assumes "qr_queue_id r = q" shows "guarantees R (reconcileStart X B actor correlationID r)"
  unfolding reconcileStart_def [abs_def] startQueueReconciliation_def
  by (intro guarantee_intros hold [OF assms] tx) (use starts [OF assms] in auto)

lemma locked: "guarantees R (reconcileLocked X B actor correlationID q)"
  unfolding reconcileLocked_def [abs_def]
  by (rule bind_result) (intro guarantee_intros, auto intro!: guarantee_intros start dest: load_id)

lemma reconcile: "guarantees R (Reconcile_queue X B actor correlationID q)"
  unfolding Reconcile_queue_def [abs_def] by (intro guarantee_intros locked)

lemma require: "idna_lookup X \<Longrightarrow> q' = q \<Longrightarrow> guarantees R (RequireHold X actor correlationID q' decision)"
  unfolding RequireHold_def [abs_def] by (intro guarantee_intros tx) (use requires in auto)

lemma transport: "idna_lookup X \<Longrightarrow> er_queue_id req = q \<Longrightarrow> guarantees R (decideTransport X holdActor correlationID req)"
  unfolding decideTransport_def [abs_def] Let_def
  by (rule bind_result) (auto intro!: guarantee_intros require dest: load_id)

lemma decide: "idna_lookup X \<Longrightarrow> er_stage req = StageTransport \<Longrightarrow> er_queue_id req = q \<Longrightarrow> guarantees R (Decide X holdActor correlationID req)"
  unfolding Decide_def [abs_def] by (intro guarantee_intros transport) simp_all

lemma decide_all: "idna_lookup X \<Longrightarrow> guarantees R (activationDecide X holdActor correlationID q index rs)"
proof (induction rs arbitrary: index)
  case Nil
  show ?case unfolding activationDecide.simps [abs_def] by (intro guarantee_intros)
next
  case (Cons r rs)
  show ?case unfolding activationDecide.simps [abs_def] by (intro guarantee_intros decide Cons.IH) (use Cons.prems in simp_all)
qed

lemma activate: "idna_lookup X \<Longrightarrow> guarantees R (activateQueue X B holdActor actor correlationID q summary)"
  unfolding activateQueue_def [abs_def] by (intro guarantee_intros decide_all reconcile)

end

lemma finishReconciliation_untouched:
  assumes "state = HoldApplied \<or> state = HoldReconciliationError"
    and "finishReconciliation_tx X actor correlationID r state code cx db = Inr (u, db')"
  shows "same_policy db db'" and "q' \<noteq> qr_queue_id r \<Longrightarrow> untouched X q' db db'"
proof -
  have g: "guarded (state = HoldApplied \<or> state = HoldReconciliationError)
      (finishReconciliation_tx X actor correlationID r state code) cx db = Inr (u, db')"
    using assms by (simp add: guarded_def)
  show "same_policy db db'" by (rule finish_reconcile.tx_same_policy [OF g])
  show "q' \<noteq> qr_queue_id r \<Longrightarrow> untouched X q' db db'" by (rule finish_reconcile.tx_untouched [OF g])
qed

interpretation policy_kept: message_guarantee same_policy X q for X q
  by unfold_locales
    (blast intro: requireHold_untouched(1) start_reconcile.tx_same_policy finishReconciliation_untouched(1))+

interpretation others_kept: message_guarantee "\<lambda>db db'. q' \<noteq> q \<longrightarrow> untouched X q' db db'" X q for X q q'
proof unfold_locales
  show "q' \<noteq> q \<longrightarrow> untouched X q' db db" for db by simp
  show "q' \<noteq> q \<longrightarrow> untouched X q' db db1 \<Longrightarrow> q' \<noteq> q \<longrightarrow> untouched X q' db1 db2 \<Longrightarrow> q' \<noteq> q \<longrightarrow> untouched X q' db db2"
    for db db1 db2 by (blast intro: untouched.trans)
qed (blast intro: requireHold_untouched(2) start_reconcile.tx_untouched finishReconciliation_untouched(2))+

section \<open>Activation\<close>

lemma alone_relies: "alone w \<Longrightarrow> (\<And>db. R db db) \<Longrightarrow> relies R w"
  by (simp add: alone_def relies_def)

lemma alone_guaranteed:
  assumes "guarantees R prog" and "alone w" and "prog w = (r, w')" and "\<And>db. R db db"
  shows "alone w'" and "R (w_db w) (w_db w')"
  using guaranteesD [OF assms(1) alone_relies [OF assms(2,4)] assms(3)] assms(2) by (auto simp: alone_def)

lemma alone_keeps_inv:
  assumes "keeps X prog" and "alone w" and "prog w = (r, w')" and "queue_inv X (w_db w)"
  shows "queue_inv X (w_db w')"
  using alone_guaranteed(2) [OF assms(1-3)] queue_steps_refine [OF _ assms(4)] by simp

lemma transport_OK_reads:
  assumes "alone w" and "Decide X actor correlationID req w = ((d, err), w')" and "dec_action d = ActionOK"
    and "er_stage req = StageTransport"
  shows "w_db w' = w_db w" and "alone w'"
    and "\<exists>r recipient domain. loadQueueRecord X (w_db w) (er_queue_id req) = Inr r
       \<and> normalizeQueueRecipient X (er_recipient req) = Inr (recipient, domain)
       \<and> confined X (w_db w) (set (qr_sources r)) recipient"
proof -
  have t: "decideTransport X actor correlationID req w = ((d, err), w')"
    using assms(2-4) by (auto simp: Decide_def unavailableDecision_def split: if_splits)
  obtain r w1 gs where l: "Load X (er_queue_id req) w = (Inr r, w1)" and p: "resolvePolicySources X (qr_sources r) w1 = (Inr gs, w')"
    using t assms(3) by (auto simp: decideTransport_def unavailableDecision_def Let_def split: sum.splits prod.splits if_splits)
  obtain body where b: "run_query body w = (Inr r, w1)" using l by (auto simp: Load_def split: if_splits)
  obtain body' where b': "run_query body' w1 = (Inr gs, w')" using p by (auto simp: resolvePolicySources_def split: if_splits)
  note q = alone_query(1-3) [OF b assms(1)]
  show "w_db w' = w_db w" "alone w'" using alone_query(1-3) [OF b' q(2)] q by simp_all
  show "\<exists>r recipient domain. loadQueueRecord X (w_db w) (er_queue_id req) = Inr r
       \<and> normalizeQueueRecipient X (er_recipient req) = Inr (recipient, domain)
       \<and> confined X (w_db w) (set (qr_sources r)) recipient"
    using decideTransport_OK [OF alone_still [OF assms(1)] t assms(3)] by blast
qed

lemma record_recipient:
  assumes "loadQueueRecord X db q = Inr r" and "a \<in> set (qr_recipients r)"
  shows "\<exists>d. normalizeQueueRecipient X a = Inr (a, d)"
proof -
  obtain d where "(a, d) \<in> set (recipient_rows X db q)" using loadQueueRecord_Inr [OF assms(1)] assms(2) by auto
  then show ?thesis using loadQueueRecord_Inr [OF assms(1)] by blast
qed

lemma with_lock_value:
  assumes "\<And>w. fst (body w) \<noteq> (None, None)" shows "fst (with_lock body w) \<noteq> (None, None)"
proof -
  obtain a w1 where a: "run_query (\<lambda>db. Inr ()) w = (a, w1)" by fastforce
  obtain r err w2 where b: "body w1 = ((r, err), w2)" by (metis prod.collapse)
  obtain c w3 where c: "run_query (\<lambda>db. Inr ()) w2 = (c, w3)" by fastforce
  have "(r, err) \<noteq> (None, None)" using assms [of w1] b by simp
  then show ?thesis using a b c by (cases a; cases c) (auto simp: with_lock_def)
qed

lemma Reconcile_value: "fst (Reconcile_queue X B actor correlationID q w) \<noteq> (None, None)"
proof -
  have parts: "fst (reconcileDone X actor correlationID r w) \<noteq> (None, None)" "fst (reconcileFail X actor correlationID r code w) \<noteq> (None, None)"
    for r w code
    by (simp_all add: reconcileDone_def reconcileFail_def split: sum.split prod.split)
  have hold: "fst (reconcileHold X B actor correlationID r w) \<noteq> (None, None)" for r w
    by (simp add: reconcileHold_def parts split: sum.split prod.split option.split)
  have start: "fst (reconcileStart X B actor correlationID r w) \<noteq> (None, None)" for r w
    by (simp add: reconcileStart_def hold split: sum.split prod.split)
  have "fst (reconcileLocked X B actor correlationID q w) \<noteq> (None, None)" for w
    by (simp add: reconcileLocked_def start split: sum.split prod.split)
  then have "fst (with_lock (reconcileLocked X B actor correlationID q) w) \<noteq> (None, None)"
    by (rule with_lock_value)
  then show ?thesis by (simp add: Reconcile_queue_def)
qed

lemma activationDecide_False:
  assumes "alone w" and "activationDecide X holdActor correlationID q index rs w = (Some False, w')"
    and "loadQueueRecord X (w_db w) q = Inr r" and "set rs \<subseteq> set (qr_recipients r)"
  shows "w_db w' = w_db w \<and> (\<forall>a\<in>set rs. confined X (w_db w) (set (qr_sources r)) a)"
  using assms
proof (induction rs arbitrary: index w)
  case (Cons a rs)
  let ?req = "\<lparr>er_stage = StageTransport, er_queue_id = q, er_mailbox = [], er_system = [], er_envelope = [],
          er_recipient = a, er_sources = []\<rparr>"
  obtain d w1 where d: "Decide X holdActor (activationCorrelationID correlationID q index ''decision'') ?req w = ((d, None), w1)"
    and ok: "dec_action d = ActionOK" and rec: "activationDecide X holdActor correlationID q (Suc index) rs w1 = (Some False, w')"
    using Cons.prems(2) by (auto split: prod.splits option.splits if_splits)
  note t = transport_OK_reads [OF Cons.prems(1) d ok]
  have w1: "w_db w1 = w_db w" "alone w1" using t(1,2) by simp_all
  have "a \<in> set (qr_recipients r)" using Cons.prems(4) by simp
  from record_recipient [OF Cons.prems(3) this] obtain dom where "normalizeQueueRecipient X a = Inr (a, dom)" by blast
  then have "confined X (w_db w) (set (qr_sources r)) a" using t(3) Cons.prems(3) by auto
  then show ?case using Cons.IH [OF w1(2) rec] Cons.prems(3,4) w1(1) by simp
qed simp

text \<open>What activation owes an affected message: it is held, or policy permits all of it.\<close>

definition settled :: "external \<Rightarrow> db \<Rightarrow> string \<Rightarrow> bool" where
  "settled X db q \<longleftrightarrow>
     (\<exists>r. loadQueueRecord X db q = Inr r
        \<and> (qr_hold_state r = HoldApplied \<or> (\<forall>a\<in>set (qr_recipients r). confined X db (set (qr_sources r)) a)))"

lemma settled_untouched: "untouched X q db db' \<Longrightarrow> settled X db q \<Longrightarrow> settled X db' q"
  using confined_same_policy [of db db' X] by (auto simp: settled_def untouched_def same_policy_def)

definition accounted :: "ActivationReconciliation \<Rightarrow> nat" where
  "accounted s = ar_held s + ar_already_held s + ar_no_longer_blocked s + ar_failed s"

lemma activateQueue_counts:
  assumes "activateQueue X B holdActor actor correlationID q s w = (s', w')"
  shows "accounted s' = Suc (accounted s)" and "ar_selected s' = ar_selected s" and "ar_failed s \<le> ar_failed s'"
  using assms by (auto simp: activateQueue_def accounted_def split: sum.splits prod.splits option.splits bool.splits)

lemma activateQueue_settles:
  assumes X: "idna_lookup X" and "alone w" and "queue_inv X (w_db w)"
    and "activateQueue X B holdActor actor correlationID q s w = (s', w')" and "ar_failed s' = ar_failed s"
  shows "settled X (w_db w') q"
proof -
  obtain r w1 where l: "Load X q w = (Inr r, w1)"
    using assms(4,5) by (auto simp: activateQueue_def split: sum.splits prod.splits)
  obtain body where "run_query body w = (Inr r, w1)" using l by (auto simp: Load_def split: if_splits)
  note q = alone_query(1-3) [OF this assms(2)]
  have ld: "loadQueueRecord X (w_db w) q = Inr r" using Load_Inr [OF l alone_still [OF assms(2)]] by simp
  obtain b w2 where d: "activationDecide X holdActor correlationID q 0 (qr_recipients r) w1 = (Some b, w2)"
    using assms(4,5) l by (auto simp: activateQueue_def split: option.splits prod.splits)
  show ?thesis
  proof (cases b)
    case False
    have w': "w' = w2" using assms(4) l d False by (simp add: activateQueue_def)
    have "w_db w2 = w_db w1 \<and> (\<forall>a\<in>set (qr_recipients r). confined X (w_db w1) (set (qr_sources r)) a)"
      by (rule activationDecide_False [OF q(2) _ _ subset_refl]) (use d False ld q(1) in simp_all)
    then show ?thesis using ld q(1) w' by (auto simp: settled_def)
  next
    case True
    obtain stored changed where rc: "Reconcile_queue X B actor (activationCorrelationID correlationID q 0 ''reconcile'') q w2
        = ((Some (stored, changed), None), w') \<or> Reconcile_queue X B actor (activationCorrelationID correlationID q 0 ''reconcile'') q w2
        = ((None, None), w')"
      using assms(4,5) l d True by (auto simp: activateQueue_def split: option.splits prod.splits bool.splits)
    have a: "alone w2" by (rule alone_guaranteed(1) [OF keeps_activationDecide [OF X] q(2) d]) simp
    have i: "queue_inv X (w_db w2)"
      by (rule alone_keeps_inv [OF keeps_activationDecide [OF X] q(2) d]) (use assms(3) q(1) in simp)
    have "Reconcile_queue X B actor (activationCorrelationID correlationID q 0 ''reconcile'') q w2 = ((Some (stored, changed), None), w')"
      using rc Reconcile_value [of X B actor "activationCorrelationID correlationID q 0 ''reconcile''" q w2] by auto
    from Reconcile_held [OF a i this] show ?thesis by (auto simp: settled_def)
  qed
qed

lemma activateQueue_world:
  assumes X: "idna_lookup X" and "alone w" and "activateQueue X B holdActor actor correlationID q s w = (s', w')"
  shows "alone w'" and "queue_inv X (w_db w) \<Longrightarrow> queue_inv X (w_db w')" and "q' \<noteq> q \<Longrightarrow> untouched X q' (w_db w) (w_db w')"
    and "same_policy (w_db w) (w_db w')"
proof -
  show "alone w'" by (rule alone_guaranteed(1) [OF keeps_activateQueue [OF X] assms(2,3)]) simp
  show "queue_inv X (w_db w) \<Longrightarrow> queue_inv X (w_db w')" by (rule alone_keeps_inv [OF keeps_activateQueue [OF X] assms(2,3)])
  show "same_policy (w_db w) (w_db w')" by (rule alone_guaranteed(2) [OF policy_kept.activate [OF X] assms(2,3)]) simp
  have "q' \<noteq> q \<longrightarrow> untouched X q' (w_db w) (w_db w')"
    by (rule alone_guaranteed(2) [OF others_kept.activate [OF X] assms(2,3)]) simp
  then show "q' \<noteq> q \<Longrightarrow> untouched X q' (w_db w) (w_db w')" by simp
qed

lemma activateQueues_settle:
  assumes X: "idna_lookup X"
  shows "activateQueues X B holdActor actor correlationID qs s w = (s', w') \<Longrightarrow> alone w \<Longrightarrow> queue_inv X (w_db w) \<Longrightarrow>
    accounted s' = accounted s + length qs \<and> ar_selected s' = ar_selected s \<and> ar_failed s \<le> ar_failed s'
    \<and> same_policy (w_db w) (w_db w')
    \<and> (\<forall>q. q \<notin> set qs \<longrightarrow> untouched X q (w_db w) (w_db w'))
    \<and> (ar_failed s' = ar_failed s \<longrightarrow> (\<forall>q\<in>set qs. settled X (w_db w') q))"
proof (induction qs arbitrary: s w)
  case Nil
  then show ?case by (simp add: untouched_def same_policy_def)
next
  case (Cons q qs)
  obtain s1 w1 where a: "activateQueue X B holdActor actor correlationID q s w = (s1, w1)"
    and rec: "activateQueues X B holdActor actor correlationID qs s1 w1 = (s', w')"
    using Cons.prems(1) by (auto split: prod.splits)
  note wd = activateQueue_world [OF X Cons.prems(2) a] and ct = activateQueue_counts [OF a]
  note ih = Cons.IH [OF rec wd(1) wd(2) [OF Cons.prems(3)]]
  have "settled X (w_db w') p" if f: "ar_failed s' = ar_failed s" and p: "p \<in> set (q # qs)" for p
  proof (cases "p \<in> set qs")
    case False
    then have "settled X (w_db w1) p"
      using activateQueue_settles [OF X Cons.prems(2,3) a] f p ct(3) ih by auto
    then show ?thesis using settled_untouched ih False by blast
  qed (use ih f ct(3) in auto)
  moreover have "untouched X p (w_db w) (w_db w')" if "p \<notin> set (q # qs)" for p
    using wd(3) [of p] ih that untouched.trans by auto
  moreover have "same_policy (w_db w) (w_db w')" using wd(4) ih same_policy.trans by blast
  ultimately show ?case using ih ct by auto
qed

text \<open>C5: activation accounts for every affected message, and if it reports no failure each of them is settled: put on hold,
  or permitted by the new policy for all its recipients. No other message is touched. The session runs alone.\<close>

theorem Activate_settles:
  assumes X: "idna_lookup X" and "alone w" and "queue_inv X (w_db w)"
    and "Activate X services holdActor actor correlationID domain ScopeSameDomainOnly confirmation w = (Inr result, w')"
  shows "\<exists>s w1 changed. ch_reconciliation result = Some s
    \<and> Apply_change X actor correlationID domain ScopeSameDomainOnly confirmation w = (Inr (ch_plan result, changed), w1)
    \<and> ar_selected s = length (cp_affected (ch_plan result)) \<and> accounted s = ar_selected s
    \<and> (\<forall>q. q \<notin> set (cp_affected (ch_plan result)) \<longrightarrow> untouched X q (w_db w1) (w_db w'))
    \<and> (ar_failed s = 0 \<longrightarrow> (\<forall>q\<in>set (cp_affected (ch_plan result)). settled X (w_db w') q))"
proof -
  obtain plan changed w1 where ap: "Apply_change X actor correlationID domain ScopeSameDomainOnly confirmation w = (Inr (plan, changed), w1)"
    using assms(4) by (auto simp: Activate_def split: sum.splits prod.splits)
  have a: "alone w1" by (rule alone_guaranteed(1) [OF keeps_Apply_change [of X] assms(2) ap]) simp
  have i: "queue_inv X (w_db w1)" by (rule alone_keeps_inv [OF keeps_Apply_change assms(2) ap assms(3)])
  let ?s = "\<lparr>ar_selected = length (cp_affected plan), ar_held = 0, ar_already_held = 0, ar_no_longer_blocked = 0, ar_failed = 0\<rparr>"
  have u: "untouched X q (w_db w1) (w_db w1)" for q by simp
  consider "cp_affected plan = []" | "cp_affected plan \<noteq> []" "services = None" | B where "cp_affected plan \<noteq> []" "services = Some B"
    by (cases services) auto
  then show ?thesis
  proof cases
    case 1
    then show ?thesis using assms(4) ap u by (auto simp: Activate_def Let_def accounted_def)
  next
    case 2
    then show ?thesis using assms(4) ap u by (auto simp: Activate_def Let_def accounted_def)
  next
    case 3
    obtain s' w2 where r: "activateQueues X B holdActor actor correlationID (cp_affected plan) ?s w1 = (s', w2)" by fastforce
    have "result = \<lparr>ch_plan = plan, ch_changed = changed, ch_reconciliation = Some s'\<rparr>" "w' = w2"
      using assms(4) ap 3 r by (auto simp: Activate_def Let_def)
    then show ?thesis using activateQueues_settle [OF X r a i] ap by (simp add: accounted_def)
  qed
qed

section \<open>Witnesses\<close>

lemma equalPlanDigest_same: "equalPlanDigest (hex_encode (sha256 m)) (hex_encode (sha256 m))"
  by (simp add: equalPlanDigest_def)

lemma mail_alias_query: "alias_query mail_db ''d1'' = aliases graph_db"
proof -
  have "filter (\<lambda>a. al_domain a = ''d1'' \<and> al_enabled a) (aliases mail_db) = aliases graph_db"
    by (simp add: mail_db_def graph_db_def)
  moreover have "order_by (\<lambda>a b. al_id a \<le> al_id b) (aliases graph_db) = aliases graph_db" by code_simp
  moreover have "take (maxPolicyAliases + 1) (aliases graph_db) = aliases graph_db"
    by (simp add: maxPolicyAliases_def graph_db_def)
  ultimately show ?thesis by (simp add: alias_query_def)
qed

lemma mail_domain_s: "recipientDomain ascii_external ''s@x.io'' = Inr ''x.io''"
  by code_simp

lemma mail_alias_impact:
  assumes "alias_query db ''d1'' = aliases graph_db"
  shows "\<exists>digest. aliasLoop ascii_external ''x.io'' (alias_query db ''d1'') 0 0 \<lparr>im_aliases = 0, im_external = 0, im_queued = 0\<rparr>
     (newPolicyStateDigest ''gotth-mail/outbound-policy-alias-state/v1'')
   = Inr (\<lparr>im_aliases = 1, im_external = 1, im_queued = 0\<rparr>, digest)"
  unfolding assms
  by (simp add: graph_db_def graph_texts mail_domain mail_domain_s Let_def maxPolicyAliases_def maxAliasTargetJSONBytes_def maxPolicyTargetBytes_def
      maxAliasTargets_def)

lemma mail_queue_impact: "queue_query ascii_external mail_db i d = []" "unresolved_query mail_db = 0"
  by (simp_all add: queue_query_def unresolved_query_def mail_db_def graph_db_def empty_db_def order_by_def)

lemma mail_plan:
  "\<exists>p. loadChangePlan ascii_external in_tx ''x.io'' ScopeUnrestricted mail_db = (Inr p, mail_db)
     \<and> (\<exists>w'. Preview_change ascii_external ''x.io'' ScopeUnrestricted (sample_world mail_db) = (Inr p, w'))
     \<and> cp_domain_id p = ''d1'' \<and> cp_current p = ScopeSameDomainOnly \<and> cp_requested p = ScopeUnrestricted \<and> cp_revision p = 4
     \<and> cp_digest p = hex_encode (sha256 (plan_payload p))"
proof -
  obtain digest where a: "aliasLoop ascii_external ''x.io'' (alias_query mail_db ''d1'') 0 0 \<lparr>im_aliases = 0, im_external = 0, im_queued = 0\<rparr>
     (newPolicyStateDigest ''gotth-mail/outbound-policy-alias-state/v1'')
   = Inr (\<lparr>im_aliases = 1, im_external = 1, im_queued = 0\<rparr>, digest)" using mail_alias_impact [OF mail_alias_query] by blast
  have m: "domains mail_db = domains graph_db" by (simp add: mail_db_def)
  define p0 where "p0 = \<lparr>cp_digest = [], cp_domain_id = ''d1'', cp_domain = ''x.io'', cp_current = ScopeSameDomainOnly,
      cp_requested = ScopeUnrestricted, cp_revision = (4 :: u64), cp_impact = \<lparr>im_aliases = 1, im_external = 1, im_queued = 0\<rparr>,
      cp_state_digest = digestStrings [''gotth-mail/outbound-policy-state/v1'', digest_sum digest,
        digest_sum (newPolicyStateDigest ''gotth-mail/outbound-policy-queue-state/v1'')], cp_affected = []\<rparr>"
  let ?p = "p0\<lparr>cp_digest := hex_encode (sha256 (plan_payload p0))\<rparr>"
  have f: "finishPlan (hd (domains graph_db)) ScopeUnrestricted \<lparr>im_aliases = 1, im_external = 1, im_queued = 0\<rparr> (digest_sum digest)
      (0, digest_sum (newPolicyStateDigest ''gotth-mail/outbound-policy-queue-state/v1''), []) = Inr ?p"
    by (simp add: finishPlan_def planDigest_def graph_db_def p0_def Let_def)
  have hd: "d_id (hd (domains graph_db)) = ''d1''" "d_name (hd (domains graph_db)) = ''x.io''"
    "d_scope (hd (domains graph_db)) = ScopeSameDomainOnly" "d_revision (hd (domains graph_db)) = 4" "d_enabled (hd (domains graph_db))"
    by (simp_all add: graph_db_def)
  have find: "List.find (\<lambda>d. d_name d = ''x.io'' \<and> d_enabled d) (domains mail_db) = Some (hd (domains graph_db))"
    by (simp add: m graph_db_def)
  have "loadChangePlan ascii_external in_tx ''x.io'' ScopeUnrestricted mail_db = (Inr ?p, mail_db)"
    by (simp add: loadChangePlan_def mail_domain in_tx_def find hd validScope_def loadAliasImpact_def a loadQueuedRecipientImpact_def
        mail_queue_impact f [simplified])
  moreover have "\<exists>w'. Preview_change ascii_external ''x.io'' ScopeUnrestricted (sample_world mail_db) = (Inr ?p, w')"
    by (simp add: Preview_change_def loadChangePlan_def mail_domain on_handle_def run_query_def find hd validScope_def loadAliasImpact_def a
        loadQueuedRecipientImpact_def mail_queue_impact f [simplified] sample_world_def quiet_def Let_def)
  moreover have "plan_payload ?p = plan_payload p0" by (simp add: plan_payload_def)
  ultimately show ?thesis by (intro exI [of _ ?p]) (simp add: p0_def)
qed

theorem Apply_change_confirmed_witness:
  "\<exists>(p :: ChangePlan) q v' d'. Apply_change ascii_external admin ''c1'' ''x.io'' ScopeUnrestricted (cp_digest p) (sample_world mail_db) = (Inr (q, True), v')
     \<and> plan_of ascii_external mail_db ''x.io'' ScopeUnrestricted d' q
     \<and> domains (w_db v') = map (\<lambda>e. if d_id e = d_id d' then rescoped ScopeUnrestricted 1000 e else e) (domains mail_db)"
proof -
  obtain p w' where p: "loadChangePlan ascii_external in_tx ''x.io'' ScopeUnrestricted mail_db = (Inr p, mail_db)"
    "Preview_change ascii_external ''x.io'' ScopeUnrestricted (sample_world mail_db) = (Inr p, w')"
    "cp_domain_id p = ''d1''" "cp_current p = ScopeSameDomainOnly" "cp_requested p = ScopeUnrestricted" "cp_revision p = 4"
    "cp_digest p = hex_encode (sha256 (plan_payload p))" using mail_plan by blast
  have words: "pg_text ''user''" "pg_text ''u1''" "pg_text ''domain.outbound_scope.update''" "pg_text ''domain''" "pg_text ''d1''"
    by code_simp+
  have m: "domains mail_db = domains graph_db" by (simp add: mail_db_def)
  obtain v' where v: "Apply_change ascii_external admin ''c1'' ''x.io'' ScopeUnrestricted (cp_digest p) (sample_world mail_db) = (Inr (p, True), v')"
    by (simp add: Apply_change_def mail_rows run_tx_def applyChange_tx_def p equalPlanDigest_same update_domain_def m graph_db_def
        check_domain_def int8_max_def WriteSQL_def audit_row_fields scope_event_def words pg_words mail_audit sample_world_def quiet_def Let_def)
  have ok: "domain_keys mail_db" "stored_names mail_db" "\<forall>d\<in>set (domains mail_db). check_domain d"
    by (simp_all add: domain_keys_def stored_names_def m check_domain_def int8_max_def plain_text_def json_safe_def framable_def
        mail_db_def graph_db_def)
  have cx: "quiet 1000 0 = w_env (sample_world mail_db) (w_count (sample_world mail_db))"
    "mail_db = cx_other (quiet 1000 0) (w_db (sample_world mail_db))" "cx_now (quiet 1000 0) = 1000"
    by (simp_all add: sample_world_def quiet_def)
  have st: "still (sample_world mail_db)" "stored_names (w_db (sample_world mail_db))" using ok by simp_all
  from Apply_change_confirmed [OF ascii_external_idna st(1) p(2) st(2) cx(1,2) ok v] obtain d' where
    d': "plan_of ascii_external mail_db ''x.io'' ScopeUnrestricted d' p"
    "domains (w_db v') = map (\<lambda>e. if d_id e = d_id d' then rescoped ScopeUnrestricted 1000 e else e) (domains mail_db)"
    unfolding cx(3) by auto
  then show ?thesis using v by blast
qed

lemma activation_text_valid:
  assumes "list_all is_lower_hex h" and "length h = 32"
  shows "validPolicyCorrelationID (''outbound-activation:'' @ h)"
proof -
  have ne: "h \<noteq> []" using assms(2) by auto
  have "is_lower_hex (last h)" using assms(1) ne by (auto simp: list_all_iff)
  then have "graph (last h)" by (auto simp: is_lower_hex_def graph_def)
  then have "trimmed (''outbound-activation:'' @ h)" using ne by (intro trimmed_graph) (simp_all add: graph_def)
  moreover have "list_all (\<lambda>c. \<not> (byte c < 32 \<or> byte c = 127)) h"
    using assms(1) by (auto simp: list_all_iff is_lower_hex_def)
  ultimately show ?thesis
    using assms(2) by (simp add: validPolicyCorrelationID_def TrimSpace_trimmed)
qed

lemma activation_id_valid: "validPolicyCorrelationID (activationCorrelationID base q index phase)"
  unfolding activationCorrelationID_def by (rule activation_text_valid) (simp_all add: list_all_hex_encode)

lemma held_queue:
  "sources (held_db ''b@y.io'' HoldApplied) = map (\<lambda>s. (mail_queue_id, src_kind s, src_object s)) mail_authority"
  "recipients (held_db ''b@y.io'' HoldApplied) = [(mail_queue_id, ''b@y.io'', ''y.io'')]"
  "messages (held_db ''b@y.io'' HoldApplied) = [held_row ''b@y.io'' HoldApplied]"
  by (simp_all add: held_db_def stored_rows_def mail_record_def mail_db_def graph_db_def empty_db_def address_domain_def graph_addresses)

lemma held_owner:
  "source_owner (held_db a state) (QueueSource SourceAuthenticatedMailbox ''m1'') = Some (True, ''d1'')"
  "source_owner (held_db a state) (QueueSource SourceEnvelopeSender ''m1'') = Some (True, ''d1'')"
  by (simp_all add: source_owner_def held_tables mail_db_def)

lemma held_queue_impact:
  "unresolved_query (held_db ''b@y.io'' HoldApplied) = 0"
  "queue_query ascii_external (held_db ''b@y.io'' HoldApplied) ''d1'' ''x.io'' = [(held_row ''b@y.io'' HoldApplied, ''b@y.io'')]"
  by (simp_all add: unresolved_query_def queue_query_def held_queue held_owner active_messages_def bound_to_def order_by_def held_row_def
      message_of_def mail_record_def)

lemma held_queue_loop:
  "\<exists>digest. queueLoop ascii_external ''x.io'' [(held_row ''b@y.io'' HoldApplied, ''b@y.io'')] 0 [] []
     (newPolicyStateDigest ''gotth-mail/outbound-policy-queue-state/v1'') = Inr (1, digest, [mail_queue_id])"
  using mail_texts
  by (simp add: maxPolicyQueuedRecipients_def held_row_def message_of_def mail_record_def graph_addresses)

lemma held_plan:
  "\<exists>p. loadChangePlan ascii_external in_tx ''x.io'' ScopeSameDomainOnly (held_db ''b@y.io'' HoldApplied)
       = (Inr p, held_db ''b@y.io'' HoldApplied)
     \<and> cp_current p = cp_requested p \<and> cp_affected p = [mail_queue_id]
     \<and> cp_digest p = hex_encode (sha256 (plan_payload p))"
proof -
  let ?db = "held_db ''b@y.io'' HoldApplied"
  have aq: "alias_query ?db ''d1'' = aliases graph_db"
    using mail_alias_query by (simp add: alias_query_def held_tables)
  obtain digest where a: "aliasLoop ascii_external ''x.io'' (alias_query ?db ''d1'') 0 0 \<lparr>im_aliases = 0, im_external = 0, im_queued = 0\<rparr>
     (newPolicyStateDigest ''gotth-mail/outbound-policy-alias-state/v1'')
   = Inr (\<lparr>im_aliases = 1, im_external = 1, im_queued = 0\<rparr>, digest)" using mail_alias_impact [OF aq] by blast
  obtain qd where q: "queueLoop ascii_external ''x.io'' [(held_row ''b@y.io'' HoldApplied, ''b@y.io'')] 0 [] []
     (newPolicyStateDigest ''gotth-mail/outbound-policy-queue-state/v1'') = Inr (1, qd, [mail_queue_id])"
    using held_queue_loop by blast
  define p0 where "p0 = \<lparr>cp_digest = [], cp_domain_id = ''d1'', cp_domain = ''x.io'', cp_current = ScopeSameDomainOnly,
      cp_requested = ScopeSameDomainOnly, cp_revision = (4 :: u64), cp_impact = \<lparr>im_aliases = 1, im_external = 1, im_queued = 1\<rparr>,
      cp_state_digest = digestStrings [''gotth-mail/outbound-policy-state/v1'', digest_sum digest, digest_sum qd],
      cp_affected = [mail_queue_id]\<rparr>"
  let ?p = "p0\<lparr>cp_digest := hex_encode (sha256 (plan_payload p0))\<rparr>"
  have f: "finishPlan (hd (domains graph_db)) ScopeSameDomainOnly \<lparr>im_aliases = 1, im_external = 1, im_queued = 0\<rparr> (digest_sum digest)
      (1, digest_sum qd, [mail_queue_id]) = Inr ?p"
    by (simp add: finishPlan_def planDigest_def graph_db_def p0_def Let_def)
  have hd: "d_id (hd (domains graph_db)) = ''d1''" "d_name (hd (domains graph_db)) = ''x.io''"
    "d_scope (hd (domains graph_db)) = ScopeSameDomainOnly" "d_revision (hd (domains graph_db)) = 4" "d_enabled (hd (domains graph_db))"
    by (simp_all add: graph_db_def)
  have find: "List.find (\<lambda>d. d_name d = ''x.io'' \<and> d_enabled d) (domains ?db) = Some (hd (domains graph_db))"
    by (simp add: held_tables mail_db_def graph_db_def)
  have "loadChangePlan ascii_external in_tx ''x.io'' ScopeSameDomainOnly ?db = (Inr ?p, ?db)"
    by (simp add: loadChangePlan_def mail_domain in_tx_def find hd validScope_def loadAliasImpact_def a loadQueuedRecipientImpact_def
        held_queue_impact q [simplified] f [simplified])
  moreover have "plan_payload ?p = plan_payload p0" by (simp add: plan_payload_def)
  ultimately show ?thesis by (intro exI [of _ ?p]) (simp add: p0_def)
qed

lemma held_activates:
  "activateQueue ascii_external (seen_boundary ''b@y.io'' True) admin admin ''c1'' mail_queue_id s (held_world k)
   = (s\<lparr>ar_already_held := ar_already_held s + 1\<rparr>, held_world (k + 7))"
proof -
  have st: "validHoldState HoldApplied" by (simp add: validHoldState_def)
  note l = held_loads(1) [of "''b@y.io''" HoldApplied, OF _ st]
  have ld: "Load ascii_external mail_queue_id (held_world k) = (Inr (held_record ''b@y.io'' HoldApplied), held_world (Suc k))"
    using l by (simp add: Load_def mail_texts run_query_def sample_world_def quiet_def Let_def)
  show ?thesis
    by (simp add: activateQueue_def ld held_fields held_decide [OF activation_id_valid] held_reconcile [OF activation_id_valid]
        eval_nat_numeral)
qed

theorem Activate_settles_witness:
  "\<exists>(p :: ChangePlan) result w' s. Activate ascii_external (Some (seen_boundary ''b@y.io'' True)) admin admin ''c1'' ''x.io''
       ScopeSameDomainOnly (cp_digest p) (sample_world (held_db ''b@y.io'' HoldApplied)) = (Inr result, w')
     \<and> ch_reconciliation result = Some s \<and> ar_selected s = 1 \<and> accounted s = 1 \<and> ar_failed s = 0
     \<and> settled ascii_external (w_db w') mail_queue_id"
proof -
  let ?w = "sample_world (held_db ''b@y.io'' HoldApplied)"
  obtain p where p: "loadChangePlan ascii_external in_tx ''x.io'' ScopeSameDomainOnly (held_db ''b@y.io'' HoldApplied)
       = (Inr p, held_db ''b@y.io'' HoldApplied)"
     "cp_current p = cp_requested p" "cp_affected p = [mail_queue_id]" "cp_digest p = hex_encode (sha256 (plan_payload p))"
    using held_plan by blast
  have ap: "Apply_change ascii_external admin ''c1'' ''x.io'' ScopeSameDomainOnly (cp_digest p) ?w = (Inr (p, False), held_world (Suc 0))"
    by (simp add: Apply_change_def mail_rows run_tx_def applyChange_tx_def sample_world_def quiet_def Let_def p equalPlanDigest_same)
  obtain result s w' where r: "Activate ascii_external (Some (seen_boundary ''b@y.io'' True)) admin admin ''c1'' ''x.io''
       ScopeSameDomainOnly (cp_digest p) ?w = (Inr result, w')" "ch_plan result = p" "ch_reconciliation result = Some s" "ar_failed s = 0"
    by (simp add: Activate_def ap p(3) held_activates)
  have st: "validHoldState HoldApplied" by (simp add: validHoldState_def)
  have i: "queue_inv ascii_external (w_db ?w)" using held_loads(2) [of "''b@y.io''" HoldApplied, OF _ st] by simp
  from Activate_settles [OF ascii_external_idna alone_sample i r(1)] r(2-4) p(3)
  have "ar_selected s = 1" "accounted s = 1" "settled ascii_external (w_db w') mail_queue_id" by auto
  then show ?thesis using r by blast
qed

end
