(* ===== verification/Authz.thy ===== *)
theory Authz
  imports Go_Prelude
begin

text \<open>
  The authorizer of \<^verbatim>\<open>internal/authz/authz.go\<close>: \<open>Explain\<close> with its rules for every type of actor, the roles of an
  OIDC subject, and the validation of role mappings. The rules are also stated as an inductive relation, and \<open>Explain\<close>
  allows exactly what the relation permits. An assignment to a missing inner map is the run-time panic of Go.
\<close>

section \<open>Types\<close>

record RoleAssignment =
  ra_role :: string
  ra_domain :: string

record Actor =
  at_type :: string
  at_id :: string
  at_mailbox :: string
  at_scopes :: "string list"
  at_groups :: "string list"
  at_roles :: "RoleAssignment list"

record Resource =
  rs_type :: string
  rs_id :: string

record AuthzDecision =
  az_allow :: bool
  az_reason :: string

record Explanation =
  ex_decision :: AuthzDecision
  ex_steps :: "string list"
  ex_rules :: "string list"
  ex_missing :: "string list"

record RoleMapping =
  rm_group :: string
  rm_role :: string
  rm_domain :: string
  rm_verified :: bool

abbreviation RoleGlobalAdmin :: string where "RoleGlobalAdmin \<equiv> ''global_admin''"
abbreviation RoleDomainManager :: string where "RoleDomainManager \<equiv> ''domain_manager''"
abbreviation RoleScopedDomainAccess :: string where "RoleScopedDomainAccess \<equiv> ''scoped_domain_access''"

text \<open>\<open>map[Role]map[string]bool\<close>.\<close>

type_synonym roles = "(string \<times> (string \<times> bool) list) list"

section \<open>Roles\<close>

definition assign_role :: "string \<Rightarrow> string \<Rightarrow> roles \<Rightarrow> roles result" where
  "assign_role r d out =
     (case map_of out r of None \<Rightarrow> Inl PanicError | Some m \<Rightarrow> Inr (AList.update r (AList.update d True m) out))"

definition has_role :: "roles \<Rightarrow> string \<Rightarrow> string \<Rightarrow> bool" where
  "has_role out r d = (case map_of out r of None \<Rightarrow> False | Some m \<Rightarrow> map_of m d = Some True)"

fun assignmentLoop :: "RoleAssignment list \<Rightarrow> roles \<Rightarrow> roles result" where
  "assignmentLoop [] out = Inr out"
| "assignmentLoop (a # as) out =
     (if map_of out (ra_role a) = None then assignmentLoop as out
      else let domain = ToLower (TrimSpace (ra_domain a)) in
           case assign_role (ra_role a) (if domain = [] then ''*'' else domain) out of
             Inl e \<Rightarrow> Inl e
           | Inr out' \<Rightarrow> assignmentLoop as out')"

fun mappingLoop :: "string list \<Rightarrow> RoleMapping list \<Rightarrow> roles \<Rightarrow> roles result" where
  "mappingLoop groups [] out = Inr out"
| "mappingLoop groups (m # ms) out =
     (if \<not> rm_verified m \<or> rm_group m \<notin> set groups then mappingLoop groups ms out
      else case assign_role (rm_role m) (if rm_domain m = [] then ''*'' else rm_domain m) out of
             Inl e \<Rightarrow> Inl e
           | Inr out' \<Rightarrow> mappingLoop groups ms out')"

definition rolesFor :: "RoleMapping list \<Rightarrow> Actor \<Rightarrow> roles result" where
  "rolesFor mappings a =
     (case assignmentLoop (at_roles a) [(RoleGlobalAdmin, []), (RoleDomainManager, []), (RoleScopedDomainAccess, [])] of
        Inl e \<Rightarrow> Inl e
      | Inr out \<Rightarrow> mappingLoop (at_groups a) mappings out)"

section \<open>Decisions\<close>

definition resourceDomain :: "Resource \<Rightarrow> string" where
  "resourceDomain r =
     (if rs_type r = ''domain'' then ToLower (rs_id r)
      else case split_last CHR ''@'' (rs_id r) of
        Some (_, domain) \<Rightarrow> ToLower domain
      | None \<Rightarrow> ToLower (rs_id r))"

definition allow :: "Explanation \<Rightarrow> string \<Rightarrow> string list \<Rightarrow> Explanation" where
  "allow ex reason rules = ex\<lparr>ex_decision := \<lparr>az_allow = True, az_reason = reason\<rparr>,
     ex_rules := ex_rules ex @ rules, ex_steps := ex_steps ex @ [reason]\<rparr>"

definition deny :: "Explanation \<Rightarrow> string \<Rightarrow> string list \<Rightarrow> Explanation" where
  "deny ex reason missing = ex\<lparr>ex_decision := \<lparr>az_allow = False, az_reason = reason\<rparr>,
     ex_missing := ex_missing ex @ missing, ex_steps := ex_steps ex @ [reason]\<rparr>"

definition oidc_allow :: "Explanation \<Rightarrow> string \<Rightarrow> string \<Rightarrow> string \<Rightarrow> Explanation" where
  "oidc_allow ex reason rule step = ex\<lparr>ex_decision := \<lparr>az_allow = True, az_reason = reason\<rparr>,
     ex_rules := [rule], ex_steps := ex_steps ex @ [step]\<rparr>"

definition explainOIDC :: "RoleMapping list \<Rightarrow> Explanation \<Rightarrow> Actor \<Rightarrow> string \<Rightarrow> Resource \<Rightarrow> Explanation result" where
  "explainOIDC mappings ex a act r =
     (if at_mailbox a \<noteq> [] \<and> EqualFold (at_mailbox a) (rs_id r) \<and> act = ''webmail:use''
      then Inr (oidc_allow ex ''OIDC subject may use webmail for its bound mailbox'' ''oidc:bound_mailbox:webmail''
                  ''bound mailbox matched'')
      else if at_mailbox a \<noteq> [] \<and> EqualFold (at_mailbox a) (rs_id r) \<and> HasPrefix act ''mailbox:app_password.''
      then Inr (oidc_allow ex ''OIDC subject may manage app passwords for its bound mailbox'' ''oidc:bound_mailbox:app_password''
                  ''bound mailbox matched'')
      else case rolesFor mappings a of
        Inl e \<Rightarrow> Inl e
      | Inr roles \<Rightarrow>
          if has_role roles RoleGlobalAdmin ''*''
          then Inr (oidc_allow ex ''global admin role matched'' ''oidc:global_admin'' ''global admin role matched'')
          else if HasPrefix act ''status:'' \<or> HasPrefix act ''doctor:''
          then Inr (oidc_allow ex ''OIDC subject may read bounded status'' ''oidc:status_read'' ''bounded read allowed'')
          else let domain = resourceDomain r in
          if has_role roles RoleDomainManager domain
             \<and> (HasPrefix act ''domain:'' \<or> HasPrefix act ''mailbox:'' \<or> HasPrefix act ''alias:'')
          then Inr (oidc_allow ex ''domain manager role matched'' (''oidc:domain_manager:'' @ domain) ''domain manager role matched'')
          else if has_role roles RoleScopedDomainAccess domain
             \<and> (HasPrefix act ''mailbox:read'' \<or> HasPrefix act ''alias:read'' \<or> HasPrefix act ''domain:read'')
          then Inr (oidc_allow ex ''scoped domain access role matched'' (''oidc:scoped_domain_access:'' @ domain)
                      ''scoped domain access role matched'')
          else Inr (ex\<lparr>ex_decision := \<lparr>az_allow = False, az_reason = ''OIDC subject lacks required Authentik role mapping''\<rparr>,
                      ex_missing := [''global_admin_or_domain_mapping''],
                      ex_steps := ex_steps ex @ [''no matching Authentik role mapping'']\<rparr>))"

definition scope_matches :: "string \<Rightarrow> Resource \<Rightarrow> string \<Rightarrow> bool" where
  "scope_matches act r scope \<longleftrightarrow>
     scope = act \<or> scope = act @ '':'' @ ToLower (rs_id r) \<or> scope = ''mailbox:'' @ ToLower (rs_id r) @ '':'' @ act"

definition Explain :: "RoleMapping list \<Rightarrow> Actor \<Rightarrow> string \<Rightarrow> Resource \<Rightarrow> Explanation result" where
  "Explain mappings a act r =
     (let ex = \<lparr>ex_decision = \<lparr>az_allow = False, az_reason = []\<rparr>,
                ex_steps = [''load actor'', ''load resource'', ''evaluate policy''], ex_rules = [], ex_missing = []\<rparr> in
      if at_type a = ''local_admin''
      then Inr (allow ex ''local admin may administer all resources'' [''local_admin:all''])
      else if at_type a = ''break_glass''
      then Inr (if HasPrefix act ''bootstrap:'' \<or> HasPrefix act ''recovery:''
                then allow ex ''break-glass limited to bootstrap/recovery'' [''break_glass:bootstrap_recovery'']
                else deny ex ''break-glass denied outside bootstrap/recovery'' [''bootstrap_or_recovery_action''])
      else if at_type a = ''api_token''
      then Inr (case List.find (scope_matches act r) (at_scopes a) of
                  Some scope \<Rightarrow> allow ex ''api token scope matched'' [''api_token:scope:'' @ scope]
                | None \<Rightarrow> deny ex ''api token scope missing'' [''matching_api_scope''])
      else if at_type a = ''plugin_service''
      then Inr (if HasPrefix act ''plugin:'' \<and> \<not> Contains act ''grant'' \<and> \<not> Contains act ''policy''
                then allow ex ''plugin service limited to plugin actions'' [''plugin_service:plugin_action'']
                else deny ex ''plugin service cannot mutate core policy or grant roles'' [''non_policy_plugin_action''])
      else if at_type a = ''system''
      then Inr (if HasPrefix act ''system:'' \<or> HasPrefix act ''notification:''
                then allow ex ''system actor limited to system actions'' [''system:system_action'']
                else deny ex ''system actor denied for user/admin action'' [''system_action''])
      else if at_type a = ''scim_client''
      then Inr (if HasPrefix act ''scim:'' \<or> HasPrefix act ''mailbox:provision''
                then allow ex ''SCIM client limited to provisioning actions'' [''scim_client:provisioning'']
                else deny ex ''SCIM client denied outside provisioning'' [''scim_or_provisioning_action''])
      else if at_type a = ''oidc_subject'' then explainOIDC mappings ex a act r
      else Inr (deny ex ''unknown actor type'' [''known_actor_type'']))"

definition Decide_authz :: "RoleMapping list \<Rightarrow> Actor \<Rightarrow> string \<Rightarrow> Resource \<Rightarrow> AuthzDecision result" where
  "Decide_authz mappings a act r = (case Explain mappings a act r of Inl e \<Rightarrow> Inl e | Inr ex \<Rightarrow> Inr (ex_decision ex))"

section \<open>Validation of mappings\<close>

definition mapping_problems :: "string list \<Rightarrow> RoleMapping \<Rightarrow> string list" where
  "mapping_problems known m =
     (if TrimSpace (rm_group m) = [] then [''authentik_group_required''] else [])
     @ (if rm_role m = RoleGlobalAdmin \<or> rm_role m = RoleDomainManager \<or> rm_role m = RoleScopedDomainAccess then []
        else [''unknown_role:'' @ rm_role m])
     @ (if (rm_role m = RoleDomainManager \<or> rm_role m = RoleScopedDomainAccess) \<and> rm_domain m \<noteq> []
           \<and> ToLower (rm_domain m) \<notin> set (map ToLower known)
        then [''unknown_domain:'' @ rm_domain m] else [])
     @ (if \<not> rm_verified m then [''mapping_unverified:'' @ rm_group m] else [])"

definition ValidateRoleMappings :: "RoleMapping list \<Rightarrow> string list \<Rightarrow> string list" where
  "ValidateRoleMappings ms known =
     concat (map (mapping_problems known) ms)
     @ concat (map (\<lambda>r. if r \<in> rm_role ` set ms then [] else [''missing_required_mapping:'' @ r])
         [RoleGlobalAdmin, RoleDomainManager, RoleScopedDomainAccess])"

section \<open>The rules\<close>

definition known_role :: "string \<Rightarrow> bool" where
  "known_role r \<longleftrightarrow> r = RoleGlobalAdmin \<or> r = RoleDomainManager \<or> r = RoleScopedDomainAccess"

definition or_star :: "string \<Rightarrow> string" where
  "or_star d = (if d = [] then ''*'' else d)"

text \<open>A role an actor holds: by an assignment, or by a verified mapping of one of the actor's groups.\<close>

definition holds :: "RoleMapping list \<Rightarrow> Actor \<Rightarrow> string \<Rightarrow> string \<Rightarrow> bool" where
  "holds mappings a r d \<longleftrightarrow>
     (\<exists>x\<in>set (at_roles a). ra_role x = r \<and> d = or_star (ToLower (TrimSpace (ra_domain x))))
     \<or> (\<exists>m\<in>set mappings. rm_verified m \<and> rm_group m \<in> set (at_groups a) \<and> rm_role m = r \<and> d = or_star (rm_domain m))"

inductive permits :: "RoleMapping list \<Rightarrow> Actor \<Rightarrow> string \<Rightarrow> Resource \<Rightarrow> bool" for mappings a act r where
  local_admin: "at_type a = ''local_admin'' \<Longrightarrow> permits mappings a act r"
| break_glass: "at_type a = ''break_glass'' \<Longrightarrow> prefix p act \<Longrightarrow> p \<in> {''bootstrap:'', ''recovery:''} \<Longrightarrow> permits mappings a act r"
| api_token: "at_type a = ''api_token'' \<Longrightarrow> s \<in> set (at_scopes a) \<Longrightarrow>
    s \<in> {act, act @ '':'' @ ToLower (rs_id r), ''mailbox:'' @ ToLower (rs_id r) @ '':'' @ act} \<Longrightarrow> permits mappings a act r"
| plugin: "at_type a = ''plugin_service'' \<Longrightarrow> prefix ''plugin:'' act \<Longrightarrow> \<not> sublist ''grant'' act \<Longrightarrow> \<not> sublist ''policy'' act
    \<Longrightarrow> permits mappings a act r"
| system: "at_type a = ''system'' \<Longrightarrow> prefix p act \<Longrightarrow> p \<in> {''system:'', ''notification:''} \<Longrightarrow> permits mappings a act r"
| scim: "at_type a = ''scim_client'' \<Longrightarrow> prefix p act \<Longrightarrow> p \<in> {''scim:'', ''mailbox:provision''} \<Longrightarrow> permits mappings a act r"
| webmail: "at_type a = ''oidc_subject'' \<Longrightarrow> at_mailbox a \<noteq> [] \<Longrightarrow> EqualFold (at_mailbox a) (rs_id r) \<Longrightarrow> act = ''webmail:use''
    \<Longrightarrow> permits mappings a act r"
| app_password: "at_type a = ''oidc_subject'' \<Longrightarrow> at_mailbox a \<noteq> [] \<Longrightarrow> EqualFold (at_mailbox a) (rs_id r) \<Longrightarrow>
    prefix ''mailbox:app_password.'' act \<Longrightarrow> permits mappings a act r"
| global_admin: "at_type a = ''oidc_subject'' \<Longrightarrow> holds mappings a RoleGlobalAdmin ''*'' \<Longrightarrow> permits mappings a act r"
| status: "at_type a = ''oidc_subject'' \<Longrightarrow> prefix p act \<Longrightarrow> p \<in> {''status:'', ''doctor:''} \<Longrightarrow> permits mappings a act r"
| manager: "at_type a = ''oidc_subject'' \<Longrightarrow> holds mappings a RoleDomainManager (resourceDomain r) \<Longrightarrow> prefix p act \<Longrightarrow>
    p \<in> {''domain:'', ''mailbox:'', ''alias:''} \<Longrightarrow> permits mappings a act r"
| scoped: "at_type a = ''oidc_subject'' \<Longrightarrow> holds mappings a RoleScopedDomainAccess (resourceDomain r) \<Longrightarrow> prefix p act \<Longrightarrow>
    p \<in> {''mailbox:read'', ''alias:read'', ''domain:read''} \<Longrightarrow> permits mappings a act r"

inductive_simps permits_iff: "permits mappings a act r"

section \<open>Roles of an actor\<close>

lemma HasPrefix_prefix: "HasPrefix s p = prefix p s"
  by (auto simp: HasPrefix_def prefix_def) (metis append_take_drop_id)

lemma Contains_sublist: "Contains s p = sublist p s"
  by (induction s) (auto simp: HasPrefix_prefix sublist_Cons_right)

lemma assign_role_spec:
  "assign_role r d out = Inl e \<longleftrightarrow> e = PanicError \<and> map_of out r = None"
  "assign_role r d out = Inr out' \<Longrightarrow> has_role out' r' d' \<longleftrightarrow> (r' = r \<and> d' = d) \<or> has_role out r' d'"
  "assign_role r d out = Inr out' \<Longrightarrow> map_of out' r' = None \<longleftrightarrow> map_of out r' = None"
  by (auto simp: assign_role_def has_role_def update_conv split: option.splits if_splits)

lemma assignmentLoop_spec:
  assumes "\<And>r. map_of out r = None \<longleftrightarrow> \<not> known_role r"
  shows "\<exists>out'. assignmentLoop as out = Inr out' \<and> (\<forall>r. map_of out' r = None \<longleftrightarrow> \<not> known_role r)
    \<and> (\<forall>r d. has_role out' r d \<longleftrightarrow> has_role out r d
          \<or> known_role r \<and> (\<exists>x\<in>set as. ra_role x = r \<and> d = or_star (ToLower (TrimSpace (ra_domain x)))))"
  using assms
proof (induction as arbitrary: out)
  case (Cons a as)
  show ?case
  proof (cases "known_role (ra_role a)")
    case False
    then have "assignmentLoop (a # as) out = assignmentLoop as out" using Cons.prems by simp
    then show ?thesis using Cons.IH [OF Cons.prems] False by auto
  next
    case True
    obtain out' where a: "assign_role (ra_role a) (or_star (ToLower (TrimSpace (ra_domain a)))) out = Inr out'"
      using assign_role_spec(1) Cons.prems True by (cases "assign_role (ra_role a) (or_star (ToLower (TrimSpace (ra_domain a)))) out") auto
    then have e: "assignmentLoop (a # as) out = assignmentLoop as out'" using Cons.prems True by (simp add: or_star_def Let_def)
    have "\<And>r. map_of out' r = None \<longleftrightarrow> \<not> known_role r" using assign_role_spec(3) [OF a] Cons.prems by simp
    from Cons.IH [OF this] show ?thesis unfolding e using True by (auto simp: assign_role_spec(2) [OF a])
  qed
qed simp

lemma mappingLoop_spec:
  assumes "\<And>r. map_of out r = None \<longleftrightarrow> \<not> known_role r"
  shows "if \<exists>m\<in>set ms. rm_verified m \<and> rm_group m \<in> set groups \<and> \<not> known_role (rm_role m)
    then mappingLoop groups ms out = Inl PanicError
    else \<exists>out'. mappingLoop groups ms out = Inr out'
      \<and> (\<forall>r d. has_role out' r d \<longleftrightarrow> has_role out r d
          \<or> (\<exists>m\<in>set ms. rm_verified m \<and> rm_group m \<in> set groups \<and> rm_role m = r \<and> d = or_star (rm_domain m)))"
  using assms
proof (induction ms arbitrary: out)
  case (Cons m ms)
  consider "\<not> rm_verified m \<or> rm_group m \<notin> set groups" | "rm_verified m" "rm_group m \<in> set groups" "\<not> known_role (rm_role m)"
    | "rm_verified m" "rm_group m \<in> set groups" "known_role (rm_role m)" by blast
  then show ?case
  proof cases
    case 1
    then have "mappingLoop groups (m # ms) out = mappingLoop groups ms out" by auto
    then show ?thesis using Cons.IH [OF Cons.prems] 1 by auto
  next
    case 2
    then have "assign_role (rm_role m) (or_star (rm_domain m)) out = Inl PanicError" using assign_role_spec(1) Cons.prems by auto
    then show ?thesis using 2 by (auto simp: or_star_def)
  next
    case 3
    obtain out' where a: "assign_role (rm_role m) (or_star (rm_domain m)) out = Inr out'"
      using assign_role_spec(1) Cons.prems 3 by (cases "assign_role (rm_role m) (or_star (rm_domain m)) out") auto
    then have e: "mappingLoop groups (m # ms) out = mappingLoop groups ms out'" using 3 by (simp add: or_star_def)
    have "\<And>r. map_of out' r = None \<longleftrightarrow> \<not> known_role r" using assign_role_spec(3) [OF a] Cons.prems by simp
    from Cons.IH [OF this] show ?thesis unfolding e using 3 by (auto simp: assign_role_spec(2) [OF a] split: if_splits)
  qed
qed simp

definition panics :: "RoleMapping list \<Rightarrow> Actor \<Rightarrow> bool" where
  "panics mappings a \<longleftrightarrow> (\<exists>m\<in>set mappings. rm_verified m \<and> rm_group m \<in> set (at_groups a) \<and> \<not> known_role (rm_role m))"

lemma rolesFor_spec:
  "if panics mappings a then rolesFor mappings a = Inl PanicError
   else \<exists>out. rolesFor mappings a = Inr out \<and> (\<forall>r d. known_role r \<longrightarrow> has_role out r d = holds mappings a r d)"
proof -
  let ?start = "[(RoleGlobalAdmin, []), (RoleDomainManager, []), (RoleScopedDomainAccess, [])] :: roles"
  have s: "map_of ?start r = None \<longleftrightarrow> \<not> known_role r" "\<not> has_role ?start r d" for r d
    by (auto simp: known_role_def has_role_def)
  obtain out where a: "assignmentLoop (at_roles a) ?start = Inr out" "\<And>r. map_of out r = None \<longleftrightarrow> \<not> known_role r"
    "\<And>r d. has_role out r d \<longleftrightarrow> known_role r \<and> (\<exists>x\<in>set (at_roles a). ra_role x = r \<and> d = or_star (ToLower (TrimSpace (ra_domain x))))"
    using assignmentLoop_spec [of ?start "at_roles a"] s by auto
  show ?thesis
    using mappingLoop_spec [of out mappings "at_groups a", OF a(2)] a(1,3)
    by (auto simp: rolesFor_def panics_def holds_def split: if_splits)
qed

section \<open>Properties\<close>

lemma permits_oidc:
  assumes "at_type a = ''oidc_subject''"
  shows "permits mappings a act r \<longleftrightarrow>
     at_mailbox a \<noteq> [] \<and> EqualFold (at_mailbox a) (rs_id r) \<and> (act = ''webmail:use'' \<or> HasPrefix act ''mailbox:app_password.'')
     \<or> holds mappings a RoleGlobalAdmin ''*''
     \<or> HasPrefix act ''status:'' \<or> HasPrefix act ''doctor:''
     \<or> holds mappings a RoleDomainManager (resourceDomain r)
         \<and> (HasPrefix act ''domain:'' \<or> HasPrefix act ''mailbox:'' \<or> HasPrefix act ''alias:'')
     \<or> holds mappings a RoleScopedDomainAccess (resourceDomain r)
         \<and> (HasPrefix act ''mailbox:read'' \<or> HasPrefix act ''alias:read'' \<or> HasPrefix act ''domain:read'')"
  (is "_ \<longleftrightarrow> ?rules")
proof
  assume "permits mappings a act r"
  then show ?rules
    unfolding HasPrefix_prefix by (cases rule: permits.cases) (use assms in simp_all, blast+)
next
  assume ?rules
  then show "permits mappings a act r"
    unfolding HasPrefix_prefix
    by (elim disjE conjE)
      (blast intro: permits.webmail [OF assms] permits.app_password [OF assms] permits.global_admin [OF assms] permits.status [OF assms]
        permits.manager [OF assms] permits.scoped [OF assms])+
qed

lemma explainOIDC_early:
  assumes "at_mailbox a \<noteq> []" and "EqualFold (at_mailbox a) (rs_id r)" and "act = ''webmail:use'' \<or> HasPrefix act ''mailbox:app_password.''"
  shows "\<exists>reason rule step. explainOIDC mappings ex a act r = Inr (oidc_allow ex reason rule step)"
  using assms by (auto simp: explainOIDC_def)

lemma explainOIDC_late:
  assumes "\<not> (at_mailbox a \<noteq> [] \<and> EqualFold (at_mailbox a) (rs_id r) \<and> (act = ''webmail:use'' \<or> HasPrefix act ''mailbox:app_password.''))"
  shows "explainOIDC mappings ex a act r =
    (case rolesFor mappings a of
        Inl e \<Rightarrow> Inl e
      | Inr roles \<Rightarrow>
          if has_role roles RoleGlobalAdmin ''*''
          then Inr (oidc_allow ex ''global admin role matched'' ''oidc:global_admin'' ''global admin role matched'')
          else if HasPrefix act ''status:'' \<or> HasPrefix act ''doctor:''
          then Inr (oidc_allow ex ''OIDC subject may read bounded status'' ''oidc:status_read'' ''bounded read allowed'')
          else let domain = resourceDomain r in
          if has_role roles RoleDomainManager domain
             \<and> (HasPrefix act ''domain:'' \<or> HasPrefix act ''mailbox:'' \<or> HasPrefix act ''alias:'')
          then Inr (oidc_allow ex ''domain manager role matched'' (''oidc:domain_manager:'' @ domain) ''domain manager role matched'')
          else if has_role roles RoleScopedDomainAccess domain
             \<and> (HasPrefix act ''mailbox:read'' \<or> HasPrefix act ''alias:read'' \<or> HasPrefix act ''domain:read'')
          then Inr (oidc_allow ex ''scoped domain access role matched'' (''oidc:scoped_domain_access:'' @ domain)
                      ''scoped domain access role matched'')
          else Inr (ex\<lparr>ex_decision := \<lparr>az_allow = False, az_reason = ''OIDC subject lacks required Authentik role mapping''\<rparr>,
                      ex_missing := [''global_admin_or_domain_mapping''],
                      ex_steps := ex_steps ex @ [''no matching Authentik role mapping'']\<rparr>))"
proof -
  have n: "\<not> (at_mailbox a \<noteq> [] \<and> EqualFold (at_mailbox a) (rs_id r) \<and> act = ''webmail:use'')"
    "\<not> (at_mailbox a \<noteq> [] \<and> EqualFold (at_mailbox a) (rs_id r) \<and> HasPrefix act ''mailbox:app_password.'')"
    using assms by blast+
  show ?thesis unfolding explainOIDC_def if_not_P [OF n(1)] if_not_P [OF n(2)] ..
qed

definition coherent :: "bool \<Rightarrow> Explanation \<Rightarrow> bool" where
  "coherent ok ex \<longleftrightarrow> az_allow (ex_decision ex) = ok \<and> (ex_rules ex \<noteq> []) = ok \<and> (ex_missing ex = []) = ok"

lemma coherent_oidc [simp]: "ex_missing ex = [] \<Longrightarrow> coherent ok (oidc_allow ex reason rule step) = ok"
  by (auto simp: coherent_def oidc_allow_def)

lemma coherent_allow [simp]: "ex_missing ex = [] \<Longrightarrow> rules \<noteq> [] \<Longrightarrow> coherent ok (allow ex reason rules) = ok"
  by (auto simp: coherent_def allow_def)

lemma coherent_deny [simp]: "ex_rules ex = [] \<Longrightarrow> missing \<noteq> [] \<Longrightarrow> coherent ok (deny ex reason missing) = (\<not> ok)"
  by (auto simp: coherent_def deny_def)

lemma coherent_chain:
  assumes "(if g then Inr x1 else if s then Inr x2 else if m then Inr x3 else if d then Inr x4 else Inr x5) = Inr ex'"
    and "coherent True x1" "coherent True x2" "coherent True x3" "coherent True x4" "coherent False x5"
  shows "coherent (g \<or> s \<or> m \<or> d) ex'"
  using assms by (cases g; cases s; cases m; cases d) simp_all

lemma explainOIDC_spec:
  assumes "at_type a = ''oidc_subject''" and "explainOIDC mappings ex a act r = Inr ex'" and "ex_rules ex = []" and "ex_missing ex = []"
  shows "coherent (permits mappings a act r) ex'"
proof (cases "at_mailbox a \<noteq> [] \<and> EqualFold (at_mailbox a) (rs_id r) \<and> (act = ''webmail:use'' \<or> HasPrefix act ''mailbox:app_password.'')")
  case True
  then obtain reason rule step where "ex' = oidc_allow ex reason rule step"
    using explainOIDC_early [of a r act mappings ex] assms(2) by auto
  then show ?thesis using True assms(4) permits_oidc [OF assms(1)] by simp
next
  case False
  obtain roles where r: "rolesFor mappings a = Inr roles" using assms(2) unfolding explainOIDC_late [OF False] by (cases "rolesFor mappings a") auto
  have k: "known_role RoleGlobalAdmin" "known_role RoleDomainManager" "known_role RoleScopedDomainAccess" by (simp_all add: known_role_def)
  have h: "has_role roles RoleGlobalAdmin d = holds mappings a RoleGlobalAdmin d" 
    "has_role roles RoleDomainManager d = holds mappings a RoleDomainManager d"
    "has_role roles RoleScopedDomainAccess d = holds mappings a RoleScopedDomainAccess d" for d
    using rolesFor_spec [of mappings a] r k by (auto split: if_splits)
  have x5: "coherent False (ex\<lparr>ex_decision := \<lparr>az_allow = False, az_reason = ''OIDC subject lacks required Authentik role mapping''\<rparr>,
      ex_missing := [''global_admin_or_domain_mapping''], ex_steps := ex_steps ex @ [''no matching Authentik role mapping'']\<rparr>)"
    using assms(3) by (simp add: coherent_def)
  have perm: "permits mappings a act r \<longleftrightarrow> holds mappings a RoleGlobalAdmin ''*'' \<or> (HasPrefix act ''status:'' \<or> HasPrefix act ''doctor:'')
     \<or> holds mappings a RoleDomainManager (resourceDomain r)
         \<and> (HasPrefix act ''domain:'' \<or> HasPrefix act ''mailbox:'' \<or> HasPrefix act ''alias:'')
     \<or> holds mappings a RoleScopedDomainAccess (resourceDomain r)
         \<and> (HasPrefix act ''mailbox:read'' \<or> HasPrefix act ''alias:read'' \<or> HasPrefix act ''domain:read'')"
    using permits_oidc [OF assms(1), of mappings act r] False by blast
  show ?thesis
    using assms(2) unfolding explainOIDC_late [OF False] perm r sum.case h Let_def
    by (rule coherent_chain) (simp_all only: coherent_oidc assms(4) x5)
qed

text \<open>C13: the authorizer allows exactly what the rules permit, and its explanation says so: it names a matched rule iff it
  allows, and a missing requirement iff it denies.\<close>

theorem Explain_correct:
  assumes "Explain mappings a act r = Inr ex"
  shows "coherent (permits mappings a act r) ex"
proof -
  let ?ex = "\<lparr>ex_decision = \<lparr>az_allow = False, az_reason = []\<rparr>,
                ex_steps = [''load actor'', ''load resource'', ''evaluate policy''], ex_rules = [], ex_missing = []\<rparr>"
  consider "at_type a = ''local_admin''" | "at_type a = ''break_glass''" | "at_type a = ''api_token''" | "at_type a = ''plugin_service''"
    | "at_type a = ''system''" | "at_type a = ''scim_client''" | "at_type a = ''oidc_subject''"
    | "at_type a \<notin> {''local_admin'', ''break_glass'', ''api_token'', ''plugin_service'', ''system'', ''scim_client'', ''oidc_subject''}"
    by blast
  then show ?thesis
  proof cases
    case 3
    have p: "permits mappings a act r \<longleftrightarrow> (\<exists>s\<in>set (at_scopes a). scope_matches act r s)"
      unfolding permits_iff using 3 by (auto simp: scope_matches_def)
    show ?thesis
    proof (cases "List.find (scope_matches act r) (at_scopes a)")
      case None
      then have "\<not> permits mappings a act r" unfolding p by (auto simp: find_None_iff)
      then show ?thesis using assms 3 None by (auto simp: Explain_def Let_def)
    next
      case (Some s)
      then have "permits mappings a act r" unfolding p by (auto simp: find_Some_iff)
      then show ?thesis using assms 3 Some by (auto simp: Explain_def Let_def)
    qed
  next
    case 7
    then have "explainOIDC mappings ?ex a act r = Inr ex" using assms by (simp add: Explain_def)
    from explainOIDC_spec [OF 7 this] show ?thesis by simp
  next
    case 8
    then have "\<not> permits mappings a act r" by (auto elim: permits.cases)
    then show ?thesis using assms 8 by (auto simp: Explain_def Let_def)
  qed (use assms in \<open>simp add: Explain_def Let_def permits_iff HasPrefix_prefix Contains_sublist split: if_splits; auto\<close>)+
qed

lemma explainOIDC_Inl:
  "explainOIDC mappings ex a act r = Inl e \<longleftrightarrow> e = PanicError \<and> panics mappings a
     \<and> \<not> (at_mailbox a \<noteq> [] \<and> EqualFold (at_mailbox a) (rs_id r) \<and> (act = ''webmail:use'' \<or> HasPrefix act ''mailbox:app_password.''))"
proof (cases "at_mailbox a \<noteq> [] \<and> EqualFold (at_mailbox a) (rs_id r) \<and> (act = ''webmail:use'' \<or> HasPrefix act ''mailbox:app_password.'')")
  case True
  then show ?thesis using explainOIDC_early [of a r act mappings ex] by auto
next
  case False
  show ?thesis
  proof (cases "rolesFor mappings a")
    case (Inl e')
    then have "panics mappings a" "e' = PanicError" using rolesFor_spec [of mappings a] by (auto split: if_splits)
    then show ?thesis using False unfolding explainOIDC_late [OF False] Inl by auto
  next
    case (Inr roles)
    then have "\<not> panics mappings a" using rolesFor_spec [of mappings a] by (auto split: if_splits)
    then show ?thesis unfolding explainOIDC_late [OF False] Inr by (simp add: Let_def)
  qed
qed

lemma Explain_Inl:
  "Explain mappings a act r = Inl e \<longleftrightarrow> e = PanicError \<and> at_type a = ''oidc_subject'' \<and> panics mappings a
     \<and> \<not> (at_mailbox a \<noteq> [] \<and> EqualFold (at_mailbox a) (rs_id r) \<and> (act = ''webmail:use'' \<or> HasPrefix act ''mailbox:app_password.''))"
proof (cases "at_type a = ''oidc_subject''")
  case True
  then have "Explain mappings a act r = explainOIDC mappings \<lparr>ex_decision = \<lparr>az_allow = False, az_reason = []\<rparr>,
      ex_steps = [''load actor'', ''load resource'', ''evaluate policy''], ex_rules = [], ex_missing = []\<rparr> a act r"
    by (simp add: Explain_def)
  then show ?thesis using True explainOIDC_Inl by simp
qed (simp add: Explain_def Let_def)

lemma validated_roles: "ValidateRoleMappings ms known = [] \<Longrightarrow> m \<in> set ms \<Longrightarrow> known_role (rm_role m) \<and> rm_verified m"
  by (auto simp: ValidateRoleMappings_def mapping_problems_def known_role_def split: if_splits)

text \<open>C39: with mappings that pass validation the authorizer always decides; it never stops with the run-time panic that a
  verified mapping of one of the actor's groups to an unknown role causes.\<close>

theorem validated_mappings_decide:
  assumes "ValidateRoleMappings mappings known = []"
  shows "\<exists>d. Decide_authz mappings a act r = Inr d"
proof (cases "Explain mappings a act r")
  case (Inl e)
  then have "panics mappings a" by (simp add: Explain_Inl)
  then show ?thesis using validated_roles [OF assms] by (auto simp: panics_def)
qed (simp add: Decide_authz_def)

text \<open>a verified mapping to an unknown role stops the authorizer for every OIDC subject of its group, except for the
  actions on the bound mailbox.\<close>

theorem unknown_role_panics:
  assumes "m \<in> set mappings" and "rm_verified m" and "rm_group m \<in> set (at_groups a)" and "\<not> known_role (rm_role m)"
    and "at_type a = ''oidc_subject''" and "at_mailbox a = []"
  shows "Decide_authz mappings a act r = Inl PanicError"
proof -
  have "Explain mappings a act r = Inl PanicError" using assms by (auto simp: Explain_Inl panics_def)
  then show ?thesis by (simp add: Decide_authz_def)
qed

lemma resourceDomain_lower: "ToLower (resourceDomain r) = resourceDomain r"
  by (simp add: resourceDomain_def ToLower_def o_def lower_char_idem split: option.split)

lemma holds_remove:
  assumes "rm_role m = role \<Longrightarrow> or_star (rm_domain m) \<noteq> d"
  shows "holds (ms @ m # ms') a role d = holds (ms @ ms') a role d"
  using assms by (auto simp: holds_def)

text \<open>a mapping of a domain role whose domain is written with an upper case letter has no effect, although validation
  compares domains without regard to case and accepts it.\<close>

theorem upper_case_mapping_void:
  assumes "rm_role m = RoleDomainManager \<or> rm_role m = RoleScopedDomainAccess" and "ToLower (rm_domain m) \<noteq> rm_domain m"
  shows "permits (ms @ m # ms') a act r = permits (ms @ ms') a act r"
proof -
  have "rm_domain m \<noteq> []" using assms(2) by (auto simp: ToLower_def)
  then have "or_star (rm_domain m) \<noteq> resourceDomain r" using assms(2) resourceDomain_lower [of r] by (auto simp: or_star_def)
  moreover have "rm_role m \<noteq> RoleGlobalAdmin" using assms(1) by auto
  ultimately have h: "holds (ms @ m # ms') a RoleGlobalAdmin ''*'' = holds (ms @ ms') a RoleGlobalAdmin ''*''"
    "holds (ms @ m # ms') a RoleDomainManager (resourceDomain r) = holds (ms @ ms') a RoleDomainManager (resourceDomain r)"
    "holds (ms @ m # ms') a RoleScopedDomainAccess (resourceDomain r) = holds (ms @ ms') a RoleScopedDomainAccess (resourceDomain r)"
    by (auto intro!: holds_remove)
  show ?thesis unfolding permits_iff h ..
qed

section \<open>Witnesses\<close>

definition subject :: "string \<Rightarrow> Actor" where
  "subject g = \<lparr>at_type = ''oidc_subject'', at_id = ''u1'', at_mailbox = [], at_scopes = [], at_groups = [g], at_roles = []\<rparr>"

definition mapping :: "string \<Rightarrow> string \<Rightarrow> string \<Rightarrow> RoleMapping" where
  "mapping g role d = \<lparr>rm_group = g, rm_role = role, rm_domain = d, rm_verified = True\<rparr>"

definition sample_mappings :: "RoleMapping list" where
  "sample_mappings = [mapping ''ops'' RoleGlobalAdmin [], mapping ''mgr'' RoleDomainManager ''x.io'', mapping ''ro'' RoleScopedDomainAccess ''x.io'']"

theorem Explain_correct_witness:
  "\<exists>ex. Explain sample_mappings (subject ''mgr'') ''alias:write'' \<lparr>rs_type = ''alias'', rs_id = ''a@X.io''\<rparr> = Inr ex
     \<and> ex_rules ex = [''oidc:domain_manager:x.io'']
     \<and> permits sample_mappings (subject ''mgr'') ''alias:write'' \<lparr>rs_type = ''alias'', rs_id = ''a@X.io''\<rparr>"
proof -
  let ?r = "\<lparr>rs_type = ''alias'', rs_id = ''a@X.io''\<rparr> :: Resource"
  have d: "resourceDomain ?r = ''x.io''" by code_simp
  obtain ex where e: "Explain sample_mappings (subject ''mgr'') ''alias:write'' ?r = Inr ex" "ex_rules ex = [''oidc:domain_manager:x.io'']"
    by (simp add: Explain_def explainOIDC_def subject_def rolesFor_def sample_mappings_def mapping_def assign_role_def has_role_def d HasPrefix_def
        oidc_allow_def Let_def)
  from Explain_correct [OF e(1)] e show ?thesis by (auto simp: coherent_def)
qed

theorem validated_mappings_decide_witness:
  "ValidateRoleMappings sample_mappings [''x.io''] = []
   \<and> (\<exists>d. Decide_authz sample_mappings (subject ''ro'') ''domain:read'' \<lparr>rs_type = ''domain'', rs_id = ''x.io''\<rparr> = Inr d)"
proof -
  have v: "ValidateRoleMappings sample_mappings [''x.io''] = []" by code_simp
  from validated_mappings_decide [OF v] v show ?thesis by blast
qed

theorem unknown_role_panics_witness:
  "Decide_authz [mapping ''ops'' ''owner'' []] (subject ''ops'') ''status:read'' \<lparr>rs_type = ''status'', rs_id = []\<rparr> = Inl PanicError"
  by (rule unknown_role_panics [of "mapping ''ops'' ''owner'' []"]) (simp_all add: mapping_def subject_def known_role_def)

theorem upper_case_mapping_void_witness:
  "ValidateRoleMappings [mapping ''ops'' RoleGlobalAdmin [], mapping ''mgr'' RoleDomainManager ''X.io'', mapping ''ro'' RoleScopedDomainAccess ''x.io'']
       [''X.io''] = []
   \<and> \<not> permits [mapping ''ops'' RoleGlobalAdmin [], mapping ''mgr'' RoleDomainManager ''X.io'', mapping ''ro'' RoleScopedDomainAccess ''x.io'']
       (subject ''mgr'') ''domain:write'' \<lparr>rs_type = ''domain'', rs_id = ''X.io''\<rparr>"
proof -
  let ?m = "mapping ''mgr'' RoleDomainManager ''X.io''" and ?r = "\<lparr>rs_type = ''domain'', rs_id = ''X.io''\<rparr> :: Resource"
  let ?a = "mapping ''ops'' RoleGlobalAdmin []" and ?b = "mapping ''ro'' RoleScopedDomainAccess ''x.io''"
  have "ToLower (rm_domain ?m) \<noteq> rm_domain ?m" by code_simp
  then have e: "permits ([?a] @ ?m # [?b]) (subject ''mgr'') ''domain:write'' ?r = permits ([?a] @ [?b]) (subject ''mgr'') ''domain:write'' ?r"
    by (intro upper_case_mapping_void) (simp_all add: mapping_def)
  have "\<not> permits [?a, ?b] (subject ''mgr'') ''domain:write'' ?r"
    by (simp add: permits_oidc subject_def holds_def mapping_def HasPrefix_def)
  then show ?thesis using e by simp code_simp
qed

end
