(* ===== verification/Text_Codec.thy ===== *)
theory Text_Codec
  imports Digest
begin

text \<open>
  Text encodings of the Go standard library that the credential code uses: \<open>strings.Split\<close> at one byte, \<open>strconv.Atoi\<close>,
  and \<open>encoding/base64\<close> with its two alphabets. Decoding follows the library: carriage returns and line feeds are skipped,
  padding is required exactly where the encoding has it, and the unused bits of the last character are not checked.
  Each encoding comes with its round trip.
\<close>

section \<open>Splitting\<close>

fun split_on :: "char \<Rightarrow> string \<Rightarrow> string list" where
  "split_on d [] = [[]]"
| "split_on d (c # s) =
     (if c = d then [] # split_on d s else case split_on d s of [] \<Rightarrow> [[c]] | p # ps \<Rightarrow> (c # p) # ps)"

lemma split_on_not_Nil [simp]: "split_on d s \<noteq> []"
  by (cases s) (auto split: list.split)

lemma split_on_front: "d \<notin> set p \<Longrightarrow> split_on d (p @ d # s) = p # split_on d s"
  by (induction p) auto

lemma split_on_last: "d \<notin> set p \<Longrightarrow> split_on d p = [p]"
  by (induction p) auto

lemma split_on_Cons:
  "split_on d s = p # ps \<Longrightarrow> d \<notin> set p \<and> (if ps = [] then s = p else \<exists>s'. s = p @ d # s' \<and> split_on d s' = ps)"
proof (induction s arbitrary: p ps)
  case (Cons c s)
  show ?case
  proof (cases "c = d")
    case False
    then obtain q where q: "split_on d s = q # ps" "p = c # q" using Cons.prems by (auto split: list.splits)
    show ?thesis using Cons.IH [OF q(1)] q(2) False by (auto split: if_splits)
  qed (use Cons.prems in auto)
qed auto

lemma split_on_parts:
  "split_on d s = [a, b, c, e] \<longleftrightarrow> s = a @ d # b @ d # c @ d # e \<and> d \<notin> set (a @ b @ c @ e)"
proof
  assume "split_on d s = [a, b, c, e]"
  from split_on_Cons [OF this] obtain s1 where 1: "s = a @ d # s1" "d \<notin> set a" "split_on d s1 = [b, c, e]" by auto
  from split_on_Cons [OF 1(3)] obtain s2 where 2: "s1 = b @ d # s2" "d \<notin> set b" "split_on d s2 = [c, e]" by auto
  from split_on_Cons [OF 2(3)] obtain s3 where 3: "s2 = c @ d # s3" "d \<notin> set c" "split_on d s3 = [e]" by auto
  from split_on_Cons [OF 3(3)] 1 2 3 show "s = a @ d # b @ d # c @ d # e \<and> d \<notin> set (a @ b @ c @ e)" by simp
qed (simp add: split_on_front split_on_last)

section \<open>Decimal numbers\<close>

definition is_digit :: "char \<Rightarrow> bool" where
  "is_digit c \<longleftrightarrow> 48 \<le> byte c \<and> byte c \<le> 57"

definition Atoi :: "string \<Rightarrow> int option" where
  "Atoi s =
     (let neg = (s \<noteq> [] \<and> hd s = CHR ''-'');
          digits = (if s \<noteq> [] \<and> (hd s = CHR ''-'' \<or> hd s = CHR ''+'') then tl s else s);
          n = int (decimal_value digits);
          v = (if neg then - n else n) in
      if digits = [] \<or> \<not> list_all is_digit digits then None
      else if - (2 ^ 63) \<le> v \<and> v < 2 ^ 63 then Some v else None)"

lemma FormatUint_not_Nil [simp]: "FormatUint n \<noteq> []"
  by (simp add: FormatUint.simps [of n])

lemma Atoi_FormatInt:
  assumes "0 \<le> i" and "i < 2 ^ 63"
  shows "Atoi (FormatInt i) = Some i"
proof -
  have f: "FormatInt i = FormatUint (nat i)" using assms(1) by (simp add: FormatInt_def)
  have d: "list_all is_digit (FormatUint (nat i))"
    using FormatUint_digits by (auto simp: list_all_iff is_digit_def)
  have "is_digit (hd (FormatUint (nat i)))" using d by (simp add: list_all_iff)
  then have "hd (FormatUint (nat i)) \<noteq> CHR ''-''" "hd (FormatUint (nat i)) \<noteq> CHR ''+''" by (auto simp: is_digit_def)
  then show ?thesis using assms d by (simp add: Atoi_def f Let_def)
qed

section \<open>Base 64\<close>

text \<open>\<open>StdEncoding\<close> has \<open>+\<close> and \<open>/\<close> as its last two characters and pads; \<open>RawURLEncoding\<close> has \<open>-\<close> and \<open>_\<close> and does not.\<close>

record base64 =
  b64_62 :: char
  b64_63 :: char
  b64_pad :: bool

definition StdEncoding :: base64 where
  "StdEncoding = \<lparr>b64_62 = CHR ''+'', b64_63 = CHR 0x2F, b64_pad = True\<rparr>"

definition RawURLEncoding :: base64 where
  "RawURLEncoding = \<lparr>b64_62 = CHR ''-'', b64_63 = CHR ''_'', b64_pad = False\<rparr>"

definition b64_char :: "base64 \<Rightarrow> nat \<Rightarrow> char" where
  "b64_char E n =
     (if n < 26 then char_of (65 + n) else if n < 52 then char_of (71 + n) else if n < 62 then char_of (n - 4)
      else if n = 62 then b64_62 E else b64_63 E)"

definition b64_value :: "base64 \<Rightarrow> char \<Rightarrow> nat option" where
  "b64_value E c =
     (let b = byte c in
      if 65 \<le> b \<and> b \<le> 90 then Some (b - 65)
      else if 97 \<le> b \<and> b \<le> 122 then Some (b - 71)
      else if 48 \<le> b \<and> b \<le> 57 then Some (b + 4)
      else if c = b64_62 E then Some 62
      else if c = b64_63 E then Some 63
      else None)"

fun EncodeToString :: "base64 \<Rightarrow> string \<Rightarrow> string" where
  "EncodeToString E [] = []"
| "EncodeToString E [a] =
     [b64_char E (byte a div 4), b64_char E (byte a mod 4 * 16)] @ (if b64_pad E then ''=='' else [])"
| "EncodeToString E [a, b] =
     [b64_char E (byte a div 4), b64_char E (byte a mod 4 * 16 + byte b div 16), b64_char E (byte b mod 16 * 4)]
     @ (if b64_pad E then ''='' else [])"
| "EncodeToString E (a # b # c # s) =
     [b64_char E (byte a div 4), b64_char E (byte a mod 4 * 16 + byte b div 16), b64_char E (byte b mod 16 * 4 + byte c div 64),
      b64_char E (byte c mod 64)] @ EncodeToString E s"

fun b64_quanta :: "base64 \<Rightarrow> string \<Rightarrow> string option" where
  "b64_quanta E [] = Some []"
| "b64_quanta E [a] = None"
| "b64_quanta E [a, b] =
     (if b64_pad E then None
      else case (b64_value E a, b64_value E b) of
        (Some x, Some y) \<Rightarrow> Some [char_of (x * 4 + y div 16)]
      | _ \<Rightarrow> None)"
| "b64_quanta E [a, b, c] =
     (if b64_pad E then None
      else case (b64_value E a, b64_value E b, b64_value E c) of
        (Some x, Some y, Some z) \<Rightarrow> Some [char_of (x * 4 + y div 16), char_of (y mod 16 * 16 + z div 4)]
      | _ \<Rightarrow> None)"
| "b64_quanta E (a # b # c # d # s) =
     (case (b64_value E a, b64_value E b) of
        (Some x, Some y) \<Rightarrow>
          if b64_pad E \<and> c = CHR ''='' then (if d = CHR ''='' \<and> s = [] then Some [char_of (x * 4 + y div 16)] else None)
          else (case b64_value E c of
              None \<Rightarrow> None
            | Some z \<Rightarrow>
                if b64_pad E \<and> d = CHR ''='' then (if s = [] then Some [char_of (x * 4 + y div 16), char_of (y mod 16 * 16 + z div 4)] else None)
                else (case (b64_value E d, b64_quanta E s) of
                    (Some u, Some r) \<Rightarrow> Some ([char_of (x * 4 + y div 16), char_of (y mod 16 * 16 + z div 4), char_of (z mod 4 * 64 + u)] @ r)
                  | _ \<Rightarrow> None))
      | _ \<Rightarrow> None)"

definition DecodeString :: "base64 \<Rightarrow> string \<Rightarrow> string option" where
  "DecodeString E s = b64_quanta E (filter (\<lambda>c. byte c \<noteq> 10 \<and> byte c \<noteq> 13) s)"

text \<open>The alphabets of the library: the two variable characters are not letters, digits, line breaks or the padding.\<close>

definition b64_alphabet :: "base64 \<Rightarrow> bool" where
  "b64_alphabet E \<longleftrightarrow> E = StdEncoding \<or> E = RawURLEncoding"

lemma b64_value_char: "b64_alphabet E \<Longrightarrow> n < 64 \<Longrightarrow> b64_value E (b64_char E n) = Some n"
  by (auto simp: b64_alphabet_def b64_value_def b64_char_def Let_def StdEncoding_def RawURLEncoding_def)

lemma b64_char_plain: 
  assumes "b64_alphabet E" and "n < 64"
  shows "b64_char E n \<noteq> CHR ''=''" and "byte (b64_char E n) \<noteq> 10" and "byte (b64_char E n) \<noteq> 13"
proof -
  have "b64_value E (b64_char E n) \<noteq> None" using b64_value_char [OF assms] by simp
  moreover have "b64_value E (CHR ''='') = None" "byte c = 10 \<or> byte c = 13 \<Longrightarrow> b64_value E c = None" for c
    using assms(1) by (auto simp: b64_alphabet_def b64_value_def Let_def StdEncoding_def RawURLEncoding_def)
  ultimately show "b64_char E n \<noteq> CHR ''=''" "byte (b64_char E n) \<noteq> 10" "byte (b64_char E n) \<noteq> 13" by metis+
qed

lemma byte_less: "byte c < 256"
  by (metis nat_of_char_less_256)

lemma sextets:
  fixes x y z :: nat
  assumes "x < 256" "y < 256" "z < 256"
  shows "x div 4 < 64" "x mod 4 * 16 + y div 16 < 64" "y mod 16 * 4 + z div 64 < 64" "y div 16 < 16" "z div 64 < 4"
  using assms by auto

lemma b64_parts:
  "byte a div 4 < 64" "byte a mod 4 * 16 < 64" "byte a mod 4 * 16 + byte b div 16 < 64" "byte b mod 16 * 4 < 64"
  "byte b mod 16 * 4 + byte c div 64 < 64" "byte c mod 64 < 64" for a b c :: char
  using sextets [OF byte_less [of a] byte_less [of b] byte_less [of c]] by simp_all

lemma byte_parts:
  "char_of (byte a div 4 * 4 + (byte a mod 4 * 16) div 16) = a"
  "char_of (byte a div 4 * 4 + (byte a mod 4 * 16 + byte b div 16) div 16) = a"
  "char_of ((byte a mod 4 * 16 + byte b div 16) mod 16 * 16 + (byte b mod 16 * 4) div 4) = b"
  "char_of ((byte a mod 4 * 16 + byte b div 16) mod 16 * 16 + (byte b mod 16 * 4 + byte c div 64) div 4) = b"
  "char_of ((byte b mod 16 * 4 + byte c div 64) mod 4 * 64 + byte c mod 64) = c" for a b c :: char
proof -
  have "byte b div 16 < 16" "byte c div 64 < 4" using sextets [OF byte_less [of b] byte_less [of b] byte_less [of c]] by simp_all
  then have "byte a div 4 * 4 + (byte a mod 4 * 16) div 16 = byte a"
    "byte a div 4 * 4 + (byte a mod 4 * 16 + byte b div 16) div 16 = byte a"
    "(byte a mod 4 * 16 + byte b div 16) mod 16 * 16 + (byte b mod 16 * 4) div 4 = byte b"
    "(byte a mod 4 * 16 + byte b div 16) mod 16 * 16 + (byte b mod 16 * 4 + byte c div 64) div 4 = byte b"
    "(byte b mod 16 * 4 + byte c div 64) mod 4 * 64 + byte c mod 64 = byte c" by auto
  then show 
    "char_of (byte a div 4 * 4 + (byte a mod 4 * 16) div 16) = a"
    "char_of (byte a div 4 * 4 + (byte a mod 4 * 16 + byte b div 16) div 16) = a"
    "char_of ((byte a mod 4 * 16 + byte b div 16) mod 16 * 16 + (byte b mod 16 * 4) div 4) = b"
    "char_of ((byte a mod 4 * 16 + byte b div 16) mod 16 * 16 + (byte b mod 16 * 4 + byte c div 64) div 4) = b"
    "char_of ((byte b mod 16 * 4 + byte c div 64) mod 4 * 64 + byte c mod 64) = c" by simp_all
qed

lemma b64_quanta_encode: "b64_alphabet E \<Longrightarrow> b64_quanta E (EncodeToString E s) = Some s"
  by (induction E s rule: EncodeToString.induct)
    (simp_all add: b64_value_char b64_parts b64_char_plain byte_parts byte_parts [simplified])

lemma EncodeToString_plain: "b64_alphabet E \<Longrightarrow> c \<in> set (EncodeToString E s) \<Longrightarrow> byte c \<noteq> 10 \<and> byte c \<noteq> 13 \<and> c \<noteq> CHR ''$''"
proof -
  have d: "b64_char E n \<noteq> CHR ''$''" if "b64_alphabet E" "n < 64" for E n
  proof -
    have "b64_value E (CHR ''$'') = None"
      using that(1) by (auto simp: b64_alphabet_def b64_value_def Let_def StdEncoding_def RawURLEncoding_def)
    then show ?thesis using b64_value_char [OF that] by (metis option.distinct(1))
  qed
  show "b64_alphabet E \<Longrightarrow> c \<in> set (EncodeToString E s) \<Longrightarrow> byte c \<noteq> 10 \<and> byte c \<noteq> 13 \<and> c \<noteq> CHR ''$''"
    by (induction E s rule: EncodeToString.induct) (auto simp: b64_parts b64_char_plain d split: if_splits)
qed

lemma DecodeString_EncodeToString: "b64_alphabet E \<Longrightarrow> DecodeString E (EncodeToString E s) = Some s"
proof -
  assume E: "b64_alphabet E"
  have "filter (\<lambda>c. byte c \<noteq> 10 \<and> byte c \<noteq> 13) (EncodeToString E s) = EncodeToString E s"
    using EncodeToString_plain [OF E] by (simp add: filter_id_conv)
  then show ?thesis using b64_quanta_encode [OF E] by (simp add: DecodeString_def)
qed

end
