(* ===== verification/Daemon.thy ===== *)
theory Daemon
  imports Release Text_Codec
begin

text \<open>
  The lookup service of \<^verbatim>\<open>internal/daemon/daemon.go\<close> that Postfix, Dovecot and Rspamd ask: the in-memory tables and their
  updates, one definition per handler, the PBKDF2 verifiers, and the routes into the outbound policy.

  A Go map is an association list in the order in which a \<open>range\<close> loop visits it, and an empty slice in a map is \<open>nil\<close>. The read/write lock of the tables is not
  modelled: a handler reads the tables of one moment. \<open>rnd k\<close> is what the k-th call of \<open>rand.Read\<close> in a request yields.
  Two functions of other packages are arguments, in the record \<open>libs\<close>: the address that \<open>net/mail.ParseAddress\<close> finds, and
  \<open>pbkdf2.Key\<close> of golang.org/x/crypto with SHA-256.
\<close>

section \<open>Types\<close>

record libs =
  lb_parse :: "string \<Rightarrow> string option"
  lb_pbkdf2 :: "string \<Rightarrow> string \<Rightarrow> int \<Rightarrow> nat \<Rightarrow> string"

text \<open>Documented behaviour: a bare address parses to itself; a derived key has the requested length.\<close>

definition mail_parser :: "libs \<Rightarrow> bool" where
  "mail_parser L \<longleftrightarrow> (\<forall>s. plain_address s \<longrightarrow> lb_parse L s = Some s)"

definition key_derivation :: "libs \<Rightarrow> bool" where
  "key_derivation L \<longleftrightarrow> (\<forall>secret salt i n. 1 \<le> i \<longrightarrow> length (lb_pbkdf2 L secret salt i n) = n)"

definition MaxAppPasswordVerifiers :: nat where "MaxAppPasswordVerifiers = 8"

abbreviation DOK :: string where "DOK \<equiv> ''ok''"
abbreviation DNotFound :: string where "DNotFound \<equiv> ''not_found''"
abbreviation DReject :: string where "DReject \<equiv> ''reject''"
abbreviation DDefer :: string where "DDefer \<equiv> ''defer''"
abbreviation DError :: string where "DError \<equiv> ''error''"

record Response =
  rsp_correlation :: string
  rsp_decision :: string
  rsp_reason :: string
  rsp_message :: string
  rsp_targets :: "string list"
  rsp_home :: string
  rsp_uid :: int
  rsp_gid :: int
  rsp_quota :: int
  rsp_domains :: "string list"
  rsp_selector :: string
  rsp_key_path :: string
  rsp_allowed :: bool
  rsp_retry_after :: int
  rsp_transport :: string
  rsp_revisions :: revisions
  rsp_queue_id :: string
  rsp_queue_state :: string
  rsp_confirmation :: string
  rsp_last_error :: string
  rsp_recipients :: nat
  rsp_sources :: nat
  rsp_attempts :: u64
  rsp_held :: bool
  rsp_consistent :: bool

record DaemonDomain =
  dd_name :: string
  dd_enabled :: bool
  dd_transport :: string
  dd_selector :: string
  dd_key_path :: string

record Mailbox =
  mx_address :: string
  mx_enabled :: bool
  mx_home :: string
  mx_uid :: int
  mx_gid :: int
  mx_quota :: int
  mx_verifier :: string
  mx_sieve :: string

record Alias =
  als_address :: string
  als_enabled :: bool
  als_targets :: "string list"

record RateLimit =
  rl_allowed :: bool
  rl_retry_after :: int

record SenderLoginRequest =
  sl_username :: string
  sl_mail_from :: string
  sl_client_ip :: string

record PassdbRequest =
  pr_username :: string
  pr_secret :: string
  pr_protocol :: string

record QuotaRequest =
  qq_address :: string
  qq_bytes :: int

text \<open>
  The service. A missing audit writer or outbound service is \<open>None\<close> (\<open>False\<close> for the admission service, which has no
  parameter of its own); the policy service is given by the actor of its holds, the reconciler and the release service by
  the Postfix boundary they use.
\<close>

record 'p Service =
  sv_unavailable :: bool
  sv_domains :: "(string \<times> DaemonDomain) list"
  sv_mailboxes :: "(string \<times> Mailbox) list"
  sv_aliases :: "(string \<times> Alias) list"
  sv_rate_limits :: "(string \<times> RateLimit) list"
  sv_verifiers :: "(string \<times> string list) list"
  sv_audit :: "(Event \<Rightarrow> ('p, unit) prog) option"
  sv_policy :: "ActorRef option"
  sv_admission :: bool
  sv_reconciler :: "'p boundary option"
  sv_release :: "'p boundary option"
  sv_helper_token :: string
  sv_helper_enabled :: bool
  sv_release_token :: string
  sv_release_enabled :: bool

section \<open>Credentials of the queue routes\<close>

definition ConfigurePostfixHelperToken :: "string \<Rightarrow> 'p Service \<Rightarrow> 'p Service result" where
  "ConfigurePostfixHelperToken token S =
     (if length token < 32 \<or> length token > 4096 \<or> TrimSpace token \<noteq> token then Inl (Err ''invalid Postfix helper token'')
      else if sv_release_enabled S \<and> sha256 token = sv_release_token S
      then Inl (Err ''Postfix helper token must differ from release token'')
      else Inr (S\<lparr>sv_helper_token := sha256 token, sv_helper_enabled := True\<rparr>))"

definition ConfigurePostfixReleaseToken :: "string \<Rightarrow> 'p Service \<Rightarrow> 'p Service result" where
  "ConfigurePostfixReleaseToken token S =
     (if length token < 32 \<or> length token > 4096 \<or> TrimSpace token \<noteq> token then Inl (Err ''invalid Postfix release token'')
      else if sv_helper_enabled S \<and> sha256 token = sv_helper_token S
      then Inl (Err ''Postfix release token must differ from helper token'')
      else Inr (S\<lparr>sv_release_token := sha256 token, sv_release_enabled := True\<rparr>))"

section \<open>Names and answers\<close>

definition normalizeDomain :: "string \<Rightarrow> string" where
  "normalizeDomain v = ToLower (TrimSpace v)"

definition normalizeAddress :: "libs \<Rightarrow> string \<Rightarrow> string" where
  "normalizeAddress L v =
     (case lb_parse L (TrimSpace v) of None \<Rightarrow> ToLower (TrimSpace v) | Some address \<Rightarrow> ToLower address)"

definition correlation :: "string option \<Rightarrow> string \<Rightarrow> string" where
  "correlation rnd v =
     (if TrimSpace v \<noteq> [] then v
      else case rnd of None \<Rightarrow> ''corr-0000000000000000'' | Some b \<Rightarrow> ''corr-'' @ hex_encode b)"

definition safeMessage :: "string \<Rightarrow> string \<Rightarrow> string" where
  "safeMessage d reason = map (\<lambda>c. if c = CHR ''_'' then CHR '' '' else c) (d @ '': '' @ reason)"

definition resp :: "string option \<Rightarrow> string \<Rightarrow> string \<Rightarrow> string \<Rightarrow> Response" where
  "resp rnd correlationID d reason =
     \<lparr>rsp_correlation = correlation rnd correlationID, rsp_decision = d, rsp_reason = reason, rsp_message = safeMessage d reason,
      rsp_targets = [], rsp_home = [], rsp_uid = 0, rsp_gid = 0, rsp_quota = 0, rsp_domains = [], rsp_selector = [], rsp_key_path = [],
      rsp_allowed = False, rsp_retry_after = 0, rsp_transport = [], rsp_revisions = [], rsp_queue_id = [], rsp_queue_state = [],
      rsp_confirmation = [], rsp_last_error = [], rsp_recipients = 0, rsp_sources = 0, rsp_attempts = 0, rsp_held = False,
      rsp_consistent = False\<rparr>"

section \<open>Tables\<close>

definition domains_map :: "'p Service \<Rightarrow> (string \<times> DaemonDomain) list" where
  "domains_map S =
     fold (\<lambda>(k, v) out. let v' = (if dd_name v = [] then v\<lparr>dd_name := k\<rparr> else v) in
             AList.update (normalizeDomain (dd_name v')) v' out) (sv_domains S) []"

definition mailboxes_map :: "libs \<Rightarrow> 'p Service \<Rightarrow> (string \<times> Mailbox) list" where
  "mailboxes_map L S =
     fold (\<lambda>(k, v) out. let v' = (if mx_address v = [] then v\<lparr>mx_address := k\<rparr> else v) in
             AList.update (normalizeAddress L (mx_address v')) v' out) (sv_mailboxes S) []"

definition aliases_map :: "libs \<Rightarrow> 'p Service \<Rightarrow> (string \<times> Alias) list" where
  "aliases_map L S =
     fold (\<lambda>(k, v) out. let v' = (if als_address v = [] then v\<lparr>als_address := k\<rparr> else v) in
             AList.update (normalizeAddress L (als_address v')) v' out) (sv_aliases S) []"

definition rateLimits_map :: "libs \<Rightarrow> 'p Service \<Rightarrow> (string \<times> RateLimit) list" where
  "rateLimits_map L S = fold (\<lambda>(k, v) out. AList.update (normalizeAddress L k) v out) (sv_rate_limits S) []"

text \<open>The part after the last \<open>@\<close>, or all of it.\<close>

definition after_at :: "string \<Rightarrow> string" where
  "after_at s = (case split_last CHR ''@'' s of None \<Rightarrow> s | Some (_, d) \<Rightarrow> d)"

definition UpsertIdentityMailbox :: "libs \<Rightarrow> Mailbox \<Rightarrow> 'p Service \<Rightarrow> 'p Service" where
  "UpsertIdentityMailbox L mailbox S =
     (let address = normalizeAddress L (mx_address mailbox);
          domain = after_at address;
          S' = S\<lparr>sv_mailboxes := AList.update address (mailbox\<lparr>mx_address := address\<rparr>) (sv_mailboxes S)\<rparr> in
      if map_of (sv_domains S) domain = None
      then S'\<lparr>sv_domains := AList.update domain
               \<lparr>dd_name = domain, dd_enabled = True, dd_transport = [], dd_selector = [], dd_key_path = []\<rparr> (sv_domains S)\<rparr>
      else S')"

definition DeleteIdentityMailbox :: "libs \<Rightarrow> string \<Rightarrow> 'p Service \<Rightarrow> 'p Service" where
  "DeleteIdentityMailbox L address S =
     S\<lparr>sv_mailboxes := AList.delete (normalizeAddress L address) (sv_mailboxes S),
       sv_verifiers := AList.delete (normalizeAddress L address) (sv_verifiers S)\<rparr>"

definition SetAppPasswordVerifiers :: "libs \<Rightarrow> string \<Rightarrow> string list \<Rightarrow> 'p Service \<Rightarrow> 'p Service" where
  "SetAppPasswordVerifiers L address verifiers S =
     S\<lparr>sv_verifiers := AList.update (normalizeAddress L address) verifiers (sv_verifiers S)\<rparr>"

section \<open>Outbound policy\<close>

definition outboundDecisionResponse :: "string option \<Rightarrow> string \<Rightarrow> Decision \<Rightarrow> Response" where
  "outboundDecisionResponse rnd correlationID decision =
     (let result = resp rnd correlationID DDefer (dec_reason decision);
          result1 = (if dec_action decision = ActionOK then result\<lparr>rsp_decision := DOK\<rparr>
                     else if dec_action decision = ActionReject then result\<lparr>rsp_decision := DReject\<rparr>
                     else if dec_action decision = ActionDefer then result\<lparr>rsp_decision := DDefer\<rparr>
                     else result\<lparr>rsp_decision := DDefer, rsp_reason := ReasonUnavailable\<rparr>) in
      if length (dec_revisions decision) > 0 then result1\<lparr>rsp_revisions := dec_revisions decision\<rparr> else result1)"

definition PostfixOutboundPolicy ::
  "external \<Rightarrow> 'p Service \<Rightarrow> (nat \<Rightarrow> string option) \<Rightarrow> string \<Rightarrow> EnforcementRequest \<Rightarrow> 'p world \<Rightarrow> Response \<times> 'p world"
where
  "PostfixOutboundPolicy X S rnd correlationID req w =
     (case sv_policy S of
        None \<Rightarrow> (resp (rnd 0) correlationID DDefer ReasonUnavailable, w)
      | Some actor \<Rightarrow>
         (case Decide X actor correlationID req w of ((decision, _), w1) \<Rightarrow>
            (outboundDecisionResponse (rnd 0) correlationID decision, w1)))"

definition PostfixSubmissionRecipient ::
  "external \<Rightarrow> 'p Service \<Rightarrow> (nat \<Rightarrow> string option) \<Rightarrow> string \<Rightarrow> string \<Rightarrow> string \<Rightarrow> string \<Rightarrow> 'p world \<Rightarrow> Response \<times> 'p world"
where
  "PostfixSubmissionRecipient X S rnd correlationID identity envelopeSender recipient w =
     (case sv_policy S of
        None \<Rightarrow> (resp (rnd 0) correlationID DDefer ReasonUnavailable, w)
      | Some actor \<Rightarrow>
         (case AuthenticatedIdentity identity of (mailbox, systemSenderID) \<Rightarrow>
         (case Decide X actor correlationID
              \<lparr>er_stage = StageSubmission, er_queue_id = [], er_mailbox = mailbox, er_system = systemSenderID,
               er_envelope = envelopeSender, er_recipient = recipient, er_sources = []\<rparr> w of ((decision, _), w1) \<Rightarrow>
            (outboundDecisionResponse (rnd 0) correlationID decision, w1))))"

definition PostfixQueueAdmission ::
  "external \<Rightarrow> 'p Service \<Rightarrow> (nat \<Rightarrow> string option) \<Rightarrow> string \<Rightarrow> QueueAdmissionRequest \<Rightarrow> 'p world \<Rightarrow> Response \<times> 'p world"
where
  "PostfixQueueAdmission X S rnd correlationID req w =
     (if \<not> sv_admission S then (resp (rnd 0) correlationID DDefer ReasonUnavailable, w)
      else case Admit X req w of
        (Inl _, w1) \<Rightarrow> (resp (rnd 0) correlationID DDefer ReasonUnavailable, w1)
      | (Inr (_, created), w1) \<Rightarrow>
          (resp (rnd 0) correlationID DOK
             (if created then ''outbound_queue_registered'' else ''outbound_queue_already_registered''), w1))"

abbreviation helper_actor :: ActorRef where
  "helper_actor \<equiv> \<lparr>actor_type = ''service'', actor_id = ''postfix-helper''\<rparr>"

definition PostfixQueueReconcile ::
  "external \<Rightarrow> 'p Service \<Rightarrow> (nat \<Rightarrow> string option) \<Rightarrow> string \<Rightarrow> string \<Rightarrow> 'p world \<Rightarrow> Response \<times> 'p world"
where
  "PostfixQueueReconcile X S rnd correlationID queueID w =
     (case sv_reconciler S of
        None \<Rightarrow> (resp (rnd 0) correlationID DDefer ReasonUnavailable, w)
      | Some B \<Rightarrow>
         (case Reconcile_queue X B helper_actor correlationID queueID w of
            ((_, Some _), w1) \<Rightarrow> (resp (rnd 0) correlationID DDefer ''outbound_queue_reconciliation_failed'', w1)
          | ((r, None), w1) \<Rightarrow>
              (resp (rnd 0) correlationID DOK
                 (if (case r of Some (_, changed) \<Rightarrow> changed | None \<Rightarrow> False)
                  then ''outbound_queue_hold_applied'' else ''outbound_queue_hold_already_applied''), w1)))"

definition PostfixQueueReleasePreview ::
  "external \<Rightarrow> 'p Service \<Rightarrow> (nat \<Rightarrow> string option) \<Rightarrow> string \<Rightarrow> string \<Rightarrow> 'p world \<Rightarrow> Response \<times> 'p world"
where
  "PostfixQueueReleasePreview X S rnd correlationID queueID w =
     (if sv_release S = None then (resp (rnd 0) correlationID DDefer ReasonUnavailable, w)
      else case Preview_release X queueID w of
        (Inl _, w1) \<Rightarrow> (resp (rnd 0) correlationID DReject ''outbound_queue_release_not_permitted'', w1)
      | (Inr plan, w1) \<Rightarrow>
          ((resp (rnd 0) correlationID DOK ''outbound_queue_release_previewed'')
             \<lparr>rsp_queue_id := rp_queue_id plan, rsp_queue_state := rp_hold_state plan, rsp_confirmation := rp_confirmation plan,
              rsp_revisions := rp_revisions plan\<rparr>, w1))"

definition PostfixQueueRelease ::
  "external \<Rightarrow> 'p Service \<Rightarrow> (nat \<Rightarrow> string option) \<Rightarrow> string \<Rightarrow> string \<Rightarrow> string \<Rightarrow> 'p world \<Rightarrow> Response \<times> 'p world"
where
  "PostfixQueueRelease X S rnd correlationID queueID confirmation w =
     (case sv_release S of
        None \<Rightarrow> (resp (rnd 0) correlationID DDefer ReasonUnavailable, w)
      | Some B \<Rightarrow>
         (case Release_queue X B helper_actor correlationID queueID confirmation w of
            ((_, Some _), w1) \<Rightarrow> (resp (rnd 0) correlationID DDefer ''outbound_queue_release_failed'', w1)
          | ((Some (record, changed), None), w1) \<Rightarrow>
              ((resp (rnd 0) correlationID DOK
                  (if changed then ''outbound_queue_released'' else ''outbound_queue_already_released''))
                 \<lparr>rsp_queue_id := qr_queue_id record, rsp_queue_state := qr_hold_state record\<rparr>, w1)
          | ((None, None), w1) \<Rightarrow> (resp (rnd 0) correlationID DOK ''outbound_queue_already_released'', w1)))"

definition PostfixQueueDiagnostic ::
  "external \<Rightarrow> 'p Service \<Rightarrow> (nat \<Rightarrow> string option) \<Rightarrow> string \<Rightarrow> string \<Rightarrow> 'p world \<Rightarrow> Response \<times> 'p world"
where
  "PostfixQueueDiagnostic X S rnd correlationID queueID w =
     (case sv_release S of
        None \<Rightarrow> (resp (rnd 0) correlationID DDefer ReasonUnavailable, w)
      | Some B \<Rightarrow>
         (case Diagnose X B queueID w of
            ((Some d, None), w1) \<Rightarrow>
              ((resp (rnd 0) correlationID DOK ''outbound_queue_diagnostic_consistent'')
                 \<lparr>rsp_queue_id := qd_queue_id d, rsp_queue_state := qd_hold_state d, rsp_revisions := qd_revisions d,
                  rsp_last_error := qd_error_code d, rsp_recipients := qd_recipient_count d, rsp_sources := qd_source_count d,
                  rsp_attempts := qd_attempts d, rsp_held := qd_postfix_held d, rsp_consistent := qd_consistent d\<rparr>, w1)
          | (_, w1) \<Rightarrow> (resp (rnd 0) correlationID DDefer ''outbound_queue_diagnostic_mismatch'', w1)))"

section \<open>Lookups\<close>

definition PostfixDomain :: "'p Service \<Rightarrow> (nat \<Rightarrow> string option) \<Rightarrow> string \<Rightarrow> string \<Rightarrow> Response" where
  "PostfixDomain S rnd correlationID domain =
     (if sv_unavailable S then resp (rnd 0) correlationID DDefer ''database_unavailable''
      else case map_of (domains_map S) (normalizeDomain domain) of
        None \<Rightarrow> resp (rnd 0) correlationID DNotFound ''domain_not_found''
      | Some d \<Rightarrow>
          if \<not> dd_enabled d then resp (rnd 0) correlationID DReject ''domain_disabled''
          else resp (rnd 0) correlationID DOK ''domain_accepted'')"

definition PostfixMailbox :: "libs \<Rightarrow> 'p Service \<Rightarrow> (nat \<Rightarrow> string option) \<Rightarrow> string \<Rightarrow> string \<Rightarrow> Response" where
  "PostfixMailbox L S rnd correlationID address =
     (if sv_unavailable S then resp (rnd 0) correlationID DDefer ''database_unavailable''
      else case map_of (mailboxes_map L S) (normalizeAddress L address) of
        None \<Rightarrow> resp (rnd 0) correlationID DNotFound ''mailbox_not_found''
      | Some m \<Rightarrow>
          if \<not> mx_enabled m then resp (rnd 0) correlationID DReject ''mailbox_disabled''
          else resp (rnd 0) correlationID DOK ''mailbox_accepted'')"

definition PostfixAlias :: "libs \<Rightarrow> 'p Service \<Rightarrow> (nat \<Rightarrow> string option) \<Rightarrow> string \<Rightarrow> string \<Rightarrow> Response" where
  "PostfixAlias L S rnd correlationID address =
     (if sv_unavailable S then resp (rnd 0) correlationID DDefer ''database_unavailable''
      else case map_of (aliases_map L S) (normalizeAddress L address) of
        None \<Rightarrow> resp (rnd 0) correlationID DNotFound ''alias_not_found''
      | Some a \<Rightarrow>
          if \<not> als_enabled a then resp (rnd 0) correlationID DReject ''alias_disabled''
          else (resp (rnd 0) correlationID DOK ''alias_expanded'')\<lparr>rsp_targets := als_targets a\<rparr>)"

definition PostfixRecipient :: "libs \<Rightarrow> 'p Service \<Rightarrow> (nat \<Rightarrow> string option) \<Rightarrow> string \<Rightarrow> string \<Rightarrow> Response" where
  "PostfixRecipient L S rnd correlationID address =
     (if sv_unavailable S then resp (rnd 0) correlationID DDefer ''database_unavailable''
      else let addr = normalizeAddress L address in
        if map_of (mailboxes_map L S) addr \<noteq> None then PostfixMailbox L S rnd correlationID addr
        else if map_of (aliases_map L S) addr \<noteq> None then PostfixAlias L S rnd correlationID addr
        else resp (rnd 0) correlationID DNotFound ''recipient_not_found'')"

definition PostfixSenderLogin :: "libs \<Rightarrow> 'p Service \<Rightarrow> (nat \<Rightarrow> string option) \<Rightarrow> string \<Rightarrow> SenderLoginRequest \<Rightarrow> Response" where
  "PostfixSenderLogin L S rnd correlationID req =
     (if sv_unavailable S then resp (rnd 0) correlationID DDefer ''database_unavailable''
      else if normalizeAddress L (sl_username req) = [] \<or> normalizeAddress L (sl_mail_from req) = []
      then resp (rnd 0) correlationID DError ''malformed_sender_login''
      else if normalizeAddress L (sl_username req) \<noteq> normalizeAddress L (sl_mail_from req)
      then resp (rnd 0) correlationID DReject ''sender_login_mismatch''
      else PostfixMailbox L S rnd correlationID (sl_username req))"

definition PostfixSenderPolicy :: "libs \<Rightarrow> 'p Service \<Rightarrow> (nat \<Rightarrow> string option) \<Rightarrow> string \<Rightarrow> SenderLoginRequest \<Rightarrow> Response" where
  "PostfixSenderPolicy L S rnd correlationID req =
     (if sv_unavailable S then resp (rnd 0) correlationID DDefer ''database_unavailable''
      else if normalizeAddress L (sl_mail_from req) = [] then resp (rnd 0) correlationID DError ''malformed_sender_policy''
      else PostfixMailbox L S rnd correlationID (sl_mail_from req))"

definition PostfixRateLimit :: "libs \<Rightarrow> 'p Service \<Rightarrow> (nat \<Rightarrow> string option) \<Rightarrow> string \<Rightarrow> string \<Rightarrow> Response" where
  "PostfixRateLimit L S rnd correlationID sender =
     (if sv_unavailable S then resp (rnd 0) correlationID DDefer ''database_unavailable''
      else case map_of (rateLimits_map L S) (normalizeAddress L sender) of
        Some r \<Rightarrow>
          if rl_allowed r then (resp (rnd 0) correlationID DOK ''rate_limit_allowed'')\<lparr>rsp_allowed := True\<rparr>
          else (resp (rnd 0) correlationID DReject ''rate_limit_exceeded'')\<lparr>rsp_retry_after := rl_retry_after r\<rparr>
      | None \<Rightarrow> (resp (rnd 0) correlationID DOK ''rate_limit_allowed'')\<lparr>rsp_allowed := True\<rparr>)"

definition PostfixTransport :: "'p Service \<Rightarrow> (nat \<Rightarrow> string option) \<Rightarrow> string \<Rightarrow> string \<Rightarrow> Response" where
  "PostfixTransport S rnd correlationID domain =
     (let r = PostfixDomain S rnd correlationID domain in
      if rsp_decision r \<noteq> DOK then r
      else let transport = (case map_of (domains_map S) (normalizeDomain domain) of None \<Rightarrow> [] | Some d \<Rightarrow> dd_transport d) in
        r\<lparr>rsp_transport := (if transport = [] then ''virtual:'' else transport)\<rparr>)"

section \<open>Passwords\<close>

definition MakeDjangoPBKDF2SHA256 :: "libs \<Rightarrow> string \<Rightarrow> string \<Rightarrow> int \<Rightarrow> string" where
  "MakeDjangoPBKDF2SHA256 L secret salt iterations =
     ''pbkdf2_sha256$'' @ FormatInt iterations @ ''$'' @ salt @ ''$'' @ EncodeToString StdEncoding (lb_pbkdf2 L secret salt iterations 32)"

definition ValidateDjangoPBKDF2SHA256 :: "string \<Rightarrow> go_error option" where
  "ValidateDjangoPBKDF2SHA256 encoded =
     (case split_on CHR ''$'' encoded of
        [scheme, iterations, salt, digest] \<Rightarrow>
          if scheme \<noteq> ''pbkdf2_sha256'' then Some (Err ''unsupported verifier'')
          else if (case Atoi iterations of None \<Rightarrow> True | Some i \<Rightarrow> i < 1) then Some (Err ''invalid verifier iterations'')
          else if salt = [] then Some (Err ''invalid verifier salt'')
          else if (case DecodeString StdEncoding digest of None \<Rightarrow> True | Some want \<Rightarrow> length want \<noteq> 32)
          then Some (Err ''invalid verifier digest'')
          else None
      | _ \<Rightarrow> Some (Err ''unsupported verifier''))"

definition VerifyDjangoPBKDF2SHA256 :: "libs \<Rightarrow> string \<Rightarrow> string \<Rightarrow> go_error option" where
  "VerifyDjangoPBKDF2SHA256 L encoded secret =
     (case ValidateDjangoPBKDF2SHA256 encoded of
        Some e \<Rightarrow> Some e
      | None \<Rightarrow>
          let parts = split_on CHR ''$'' encoded;
              iterations = (case Atoi (parts ! 1) of None \<Rightarrow> 0 | Some i \<Rightarrow> i);
              want = (case DecodeString StdEncoding (parts ! 3) of None \<Rightarrow> [] | Some d \<Rightarrow> d) in
          if lb_pbkdf2 L secret (parts ! 2) iterations (length want) \<noteq> want then Some (Err ''secret mismatch'') else None)"

definition passdbAuditAction :: "string \<Rightarrow> string" where
  "passdbAuditAction method =
     (if method = ''mailbox_password'' then ''mailbox_password.use''
      else if method = ''app_password'' then ''app_password.use'' else ''mail_secret.use'')"

definition passdb_event :: "libs \<Rightarrow> string option \<Rightarrow> string \<Rightarrow> PassdbRequest \<Rightarrow> string \<Rightarrow> string \<Rightarrow> string \<Rightarrow> Event" where
  "passdb_event L rnd correlationID req method res code =
     \<lparr>ev_id = [], ev_time = 0, ev_actor = \<lparr>actor_type = ''dovecot'', actor_id = pr_protocol req\<rparr>, ev_source = None,
      ev_action = passdbAuditAction method,
      ev_resource = \<lparr>res_type = ''mailbox'', res_id = normalizeAddress L (pr_username req)\<rparr>, ev_before = JNull,
      ev_after = JObj [(''method'', JStr method), (''protocol'', JStr (pr_protocol req))],
      ev_correlation = correlation rnd correlationID, ev_result = res, ev_error_code = code\<rparr>"

definition auditPassdb ::
  "libs \<Rightarrow> 'p Service \<Rightarrow> string option \<Rightarrow> string \<Rightarrow> PassdbRequest \<Rightarrow> string \<Rightarrow> string \<Rightarrow> string \<Rightarrow> ('p, unit) prog"
where
  "auditPassdb L S rnd correlationID req method res code w =
     (case sv_audit S of None \<Rightarrow> (Inr (), w) | Some write \<Rightarrow> write (passdb_event L rnd correlationID req method res code) w)"

definition mailboxAuth :: "libs \<Rightarrow> 'p Service \<Rightarrow> string \<Rightarrow> (Mailbox \<times> string list) option" where
  "mailboxAuth L S raw =
     (let address = normalizeAddress L raw;
          scan = (\<lambda>entries. case map_of entries address of
              Some v \<Rightarrow> Some v
            | None \<Rightarrow> map_option snd (List.find (\<lambda>(k, _). normalizeAddress L k = address) entries)) in
      case scan (sv_mailboxes S) of
        None \<Rightarrow> None
      | Some mailbox \<Rightarrow>
          Some (mailbox, case map_of (sv_verifiers S) address of
              Some (v # vs) \<Rightarrow> v # vs
            | _ \<Rightarrow> (case List.find (\<lambda>(k, _). normalizeAddress L k = address) (sv_verifiers S) of
                 None \<Rightarrow> [] | Some (_, vs) \<Rightarrow> vs)))"

definition oidc_token :: "string \<Rightarrow> bool" where
  "oidc_token secret \<longleftrightarrow>
     HasPrefix secret ''oidc:'' \<or> length (filter (\<lambda>c. c = CHR ''.'') secret) = 2 \<and> HasPrefix secret ''eyJ''"

definition DovecotPassdb ::
  "libs \<Rightarrow> 'p Service \<Rightarrow> (nat \<Rightarrow> string option) \<Rightarrow> string \<Rightarrow> PassdbRequest \<Rightarrow> 'p world \<Rightarrow> Response \<times> 'p world"
where
  "DovecotPassdb L S rnd correlationID req w =
     (if sv_unavailable S then (resp (rnd 0) correlationID DDefer ''database_unavailable'', w)
      else if pr_protocol req \<noteq> ''imap'' \<and> pr_protocol req \<noteq> ''submission''
      then (resp (rnd 0) correlationID DError ''unsupported_protocol'', w)
      else case mailboxAuth L S (normalizeAddress L (pr_username req)) of
        None \<Rightarrow> (resp (rnd 0) correlationID DNotFound ''mailbox_not_found'', w)
      | Some (m, appVerifiers) \<Rightarrow>
          if \<not> mx_enabled m then (resp (rnd 0) correlationID DReject ''mailbox_disabled'', w)
          else if oidc_token (pr_secret req) then (resp (rnd 0) correlationID DReject ''oidc_token_not_mail_secret'', w)
          else if VerifyDjangoPBKDF2SHA256 L (mx_verifier m) (pr_secret req) = None
          then (case auditPassdb L S (rnd 0) correlationID req ''mailbox_password'' ''success'' [] w of
                  (Inl _, w1) \<Rightarrow> (resp (rnd 1) correlationID DDefer ''audit_unavailable'', w1)
                | (Inr _, w1) \<Rightarrow> (resp (rnd 1) correlationID DOK ''passdb_authenticated'', w1))
          else if length appVerifiers > MaxAppPasswordVerifiers
          then (case auditPassdb L S (rnd 0) correlationID req ''mail_secret'' ''failure'' ''app_password_verifier_limit_exceeded'' w of
                  (_, w1) \<Rightarrow> (resp (rnd 1) correlationID DError ''app_password_verifier_limit_exceeded'', w1))
          else if list_ex (\<lambda>verifier. VerifyDjangoPBKDF2SHA256 L verifier (pr_secret req) = None) appVerifiers
          then (case auditPassdb L S (rnd 0) correlationID req ''app_password'' ''success'' [] w of
                  (Inl _, w1) \<Rightarrow> (resp (rnd 1) correlationID DDefer ''audit_unavailable'', w1)
                | (Inr _, w1) \<Rightarrow> (resp (rnd 1) correlationID DOK ''passdb_authenticated'', w1))
          else (case auditPassdb L S (rnd 0) correlationID req ''mail_secret'' ''failure'' ''invalid_secret'' w of
                  (_, w1) \<Rightarrow> (resp (rnd 1) correlationID DReject ''invalid_secret'', w1)))"

section \<open>Dovecot and Rspamd\<close>

definition DovecotUserdb :: "libs \<Rightarrow> 'p Service \<Rightarrow> (nat \<Rightarrow> string option) \<Rightarrow> string \<Rightarrow> string \<Rightarrow> Response" where
  "DovecotUserdb L S rnd correlationID address =
     (if sv_unavailable S then resp (rnd 0) correlationID DDefer ''database_unavailable''
      else case map_of (mailboxes_map L S) (normalizeAddress L address) of
        None \<Rightarrow> resp (rnd 0) correlationID DNotFound ''mailbox_not_found''
      | Some m \<Rightarrow>
          if \<not> mx_enabled m then resp (rnd 0) correlationID DReject ''mailbox_disabled''
          else (resp (rnd 0) correlationID DOK ''userdb_found'')
                 \<lparr>rsp_home := mx_home m, rsp_uid := mx_uid m, rsp_gid := mx_gid m, rsp_quota := mx_quota m\<rparr>)"

definition DovecotQuota :: "libs \<Rightarrow> 'p Service \<Rightarrow> (nat \<Rightarrow> string option) \<Rightarrow> string \<Rightarrow> QuotaRequest \<Rightarrow> Response" where
  "DovecotQuota L S rnd correlationID req =
     (if sv_unavailable S then resp (rnd 0) correlationID DDefer ''database_unavailable''
      else if qq_bytes req < 0 then resp (rnd 0) correlationID DError ''invalid_quota''
      else case map_of (mailboxes_map L S) (normalizeAddress L (qq_address req)) of
        None \<Rightarrow> resp (rnd 0) correlationID DNotFound ''mailbox_not_found''
      | Some m \<Rightarrow>
          if \<not> mx_enabled m then resp (rnd 0) correlationID DReject ''mailbox_disabled''
          else (resp (rnd 0) correlationID DOK ''quota_updated'')\<lparr>rsp_quota := qq_bytes req\<rparr>)"

definition DovecotSieve :: "libs \<Rightarrow> 'p Service \<Rightarrow> (nat \<Rightarrow> string option) \<Rightarrow> string \<Rightarrow> string \<Rightarrow> Response" where
  "DovecotSieve L S rnd correlationID address =
     (let r = DovecotUserdb L S rnd correlationID address in
      if rsp_decision r \<noteq> DOK then r else resp (rnd 1) correlationID DOK ''sieve_default_available'')"

definition RspamdLocalDomains :: "'p Service \<Rightarrow> (nat \<Rightarrow> string option) \<Rightarrow> string \<Rightarrow> Response" where
  "RspamdLocalDomains S rnd correlationID =
     (if sv_unavailable S then resp (rnd 0) correlationID DDefer ''database_unavailable''
      else (resp (rnd 0) correlationID DOK ''local_domains_listed'')
             \<lparr>rsp_domains := map fst (filter (\<lambda>(_, d). dd_enabled d) (domains_map S))\<rparr>)"

definition RspamdDKIM :: "'p Service \<Rightarrow> (nat \<Rightarrow> string option) \<Rightarrow> string \<Rightarrow> string \<Rightarrow> Response" where
  "RspamdDKIM S rnd correlationID domain =
     (if sv_unavailable S then resp (rnd 0) correlationID DDefer ''database_unavailable''
      else case map_of (domains_map S) (normalizeDomain domain) of
        None \<Rightarrow> resp (rnd 0) correlationID DNotFound ''domain_not_found''
      | Some d \<Rightarrow>
          if \<not> dd_enabled d then resp (rnd 0) correlationID DReject ''domain_disabled''
          else if dd_selector d = [] \<or> dd_key_path d = [] then resp (rnd 0) correlationID DNotFound ''dkim_not_configured''
          else (resp (rnd 0) correlationID DOK ''dkim_key_available'')\<lparr>rsp_selector := dd_selector d, rsp_key_path := dd_key_path d\<rparr>)"

definition RspamdSigningDecision :: "'p Service \<Rightarrow> (nat \<Rightarrow> string option) \<Rightarrow> string \<Rightarrow> string \<Rightarrow> Response" where
  "RspamdSigningDecision S rnd correlationID domain =
     (let r = RspamdDKIM S rnd correlationID domain in
      if rsp_decision r = DOK then r\<lparr>rsp_reason := ''signing_allowed''\<rparr> else r)"

definition RspamdRateSignal :: "libs \<Rightarrow> 'p Service \<Rightarrow> (nat \<Rightarrow> string option) \<Rightarrow> string \<Rightarrow> string \<Rightarrow> Response" where
  "RspamdRateSignal L S rnd correlationID sender = PostfixRateLimit L S rnd correlationID sender"

end
