(* ===== verification/Daemon_HTTP.thy ===== *)
theory Daemon_HTTP
  imports Daemon
begin

text \<open>
  The HTTP routes of the service, \<^verbatim>\<open>internal/daemon/http.go\<close>: method checks, the two bearer credentials, decoding, and the
  dispatch of every path. The path of a request is clean (the multiplexer of \<open>net/http\<close> has redirected any other), and the
  body is given by what decoding it as each of the request structures yields, \<open>None\<close> for a decoder error, a body over 1 MiB
  or, where decoding is strict, an unknown field or a second value.
\<close>

section \<open>Requests and replies\<close>

record request_body =
  as_sender :: "SenderLoginRequest option"
  as_enforcement :: "EnforcementRequest option"
  as_admission :: "QueueAdmissionRequest option"
  as_queue :: "string option"
  as_release :: "(string \<times> string) option"
  as_passdb :: "PassdbRequest option"
  as_quota :: "QuotaRequest option"
  as_domain :: "string option"
  as_rate_sender :: "string option"

record HttpRequest =
  hq_method :: string
  hq_path :: string
  hq_auth :: string
  hq_correlation :: string
  hq_body :: request_body

record HttpReply =
  hp_status :: nat
  hp_body :: "Response option"

abbreviation status_only :: "nat \<Rightarrow> HttpReply" where
  "status_only n \<equiv> \<lparr>hp_status = n, hp_body = None\<rparr>"

definition write_response :: "Response \<Rightarrow> HttpReply" where
  "write_response r = \<lparr>hp_status = 200, hp_body = Some r\<rparr>"

section \<open>Guards\<close>

definition TrimPrefix :: "string \<Rightarrow> string \<Rightarrow> string" where
  "TrimPrefix s p = (if HasPrefix s p then drop (length p) s else s)"

definition authorizePostfixToken :: "string \<Rightarrow> bool \<Rightarrow> string \<Rightarrow> bool" where
  "authorizePostfixToken header enabled tokenHash =
     (if \<not> enabled \<or> \<not> HasPrefix header ''Bearer '' \<or> length header > length ''Bearer '' + 4096 then False
      else sha256 (TrimPrefix header ''Bearer '') = tokenHash)"

definition authorizePostfixHelper :: "'p Service \<Rightarrow> HttpRequest \<Rightarrow> bool" where
  "authorizePostfixHelper S r = authorizePostfixToken (hq_auth r) (sv_helper_enabled S) (sv_helper_token S)"

definition authorizePostfixRelease :: "'p Service \<Rightarrow> HttpRequest \<Rightarrow> bool" where
  "authorizePostfixRelease S r = authorizePostfixToken (hq_auth r) (sv_release_enabled S) (sv_release_token S)"

definition malformed :: "HttpRequest \<Rightarrow> HttpReply" where
  "malformed r = write_response ((resp None ''x'' DError ''malformed_json'')\<lparr>rsp_correlation := hq_correlation r\<rparr>)"

definition pathTail :: "HttpRequest \<Rightarrow> string \<Rightarrow> string" where
  "pathTail r p = TrimPrefix (hq_path r) p"

text \<open>A read route, a route with a decoded body, and a privileged route.\<close>

definition get_route :: "HttpRequest \<Rightarrow> Response \<Rightarrow> 'p world \<Rightarrow> HttpReply \<times> 'p world" where
  "get_route r answer w = (if hq_method r \<noteq> ''GET'' then (status_only 405, w) else (write_response answer, w))"

definition post_route ::
  "HttpRequest \<Rightarrow> 'b option \<Rightarrow> ('b \<Rightarrow> 'p world \<Rightarrow> Response \<times> 'p world) \<Rightarrow> 'p world \<Rightarrow> HttpReply \<times> 'p world"
where
  "post_route r body handler w =
     (if hq_method r \<noteq> ''POST'' then (status_only 405, w)
      else case body of
        None \<Rightarrow> (malformed r, w)
      | Some x \<Rightarrow> (case handler x w of (answer, w1) \<Rightarrow> (write_response answer, w1)))"

definition guarded_route ::
  "HttpRequest \<Rightarrow> bool \<Rightarrow> 'b option \<Rightarrow> ('b \<Rightarrow> 'p world \<Rightarrow> Response \<times> 'p world) \<Rightarrow> 'p world \<Rightarrow> HttpReply \<times> 'p world"
where
  "guarded_route r authorized body handler w =
     (if hq_method r \<noteq> ''POST'' then (status_only 405, w)
      else if \<not> authorized then (status_only 401, w)
      else post_route r body handler w)"

section \<open>Dispatch\<close>

definition subtree_patterns :: "string list" where
  "subtree_patterns =
     [''/internal/v1/postfix/domains/'', ''/internal/v1/postfix/recipients/'', ''/internal/v1/postfix/mailboxes/'',
      ''/internal/v1/postfix/aliases/'', ''/internal/v1/postfix/rate-limit/'', ''/internal/v1/postfix/transport/'',
      ''/internal/v1/dovecot/userdb/'', ''/internal/v1/dovecot/sieve/default/'', ''/internal/v1/rspamd/dkim/'']"

definition serve_queue ::
  "external \<Rightarrow> 'p Service \<Rightarrow> (nat \<Rightarrow> string option) \<Rightarrow> HttpRequest \<Rightarrow> 'p world \<Rightarrow> (HttpReply \<times> 'p world) option"
where
  "serve_queue X S rnd r w =
     (let c = hq_correlation r; path = hq_path r; body = hq_body r in
      if path = ''/internal/v1/postfix/outbound-policy''
      then Some (post_route r (as_enforcement body) (PostfixOutboundPolicy X S rnd c) w)
      else if path = ''/internal/v1/postfix/queue/register''
      then Some (guarded_route r (authorizePostfixHelper S r) (as_admission body) (PostfixQueueAdmission X S rnd c) w)
      else if path = ''/internal/v1/postfix/queue/reconcile''
      then Some (guarded_route r (authorizePostfixHelper S r) (as_queue body) (PostfixQueueReconcile X S rnd c) w)
      else if path = ''/internal/v1/postfix/queue/release-preview''
      then Some (guarded_route r (authorizePostfixRelease S r) (as_queue body) (PostfixQueueReleasePreview X S rnd c) w)
      else if path = ''/internal/v1/postfix/queue/release''
      then Some (guarded_route r (authorizePostfixRelease S r) (as_release body)
                   (\<lambda>(queueID, confirmation). PostfixQueueRelease X S rnd c queueID confirmation) w)
      else if path = ''/internal/v1/postfix/queue/diagnostic''
      then Some (guarded_route r (authorizePostfixHelper S r) (as_queue body) (PostfixQueueDiagnostic X S rnd c) w)
      else None)"

definition serve_lookup ::
  "libs \<Rightarrow> 'p Service \<Rightarrow> (nat \<Rightarrow> string option) \<Rightarrow> HttpRequest \<Rightarrow> 'p world \<Rightarrow> (HttpReply \<times> 'p world) option"
where
  "serve_lookup L S rnd r w =
     (let c = hq_correlation r; path = hq_path r; body = hq_body r in
      if HasPrefix path ''/internal/v1/postfix/domains/''
      then Some (get_route r (PostfixDomain S rnd c (pathTail r ''/internal/v1/postfix/domains/'')) w)
      else if HasPrefix path ''/internal/v1/postfix/recipients/''
      then Some (get_route r (PostfixRecipient L S rnd c (pathTail r ''/internal/v1/postfix/recipients/'')) w)
      else if HasPrefix path ''/internal/v1/postfix/mailboxes/''
      then Some (get_route r (PostfixMailbox L S rnd c (pathTail r ''/internal/v1/postfix/mailboxes/'')) w)
      else if HasPrefix path ''/internal/v1/postfix/aliases/''
      then Some (get_route r (PostfixAlias L S rnd c (pathTail r ''/internal/v1/postfix/aliases/'')) w)
      else if path = ''/internal/v1/postfix/sender-login''
      then Some (post_route r (as_sender body) (\<lambda>q w. (PostfixSenderLogin L S rnd c q, w)) w)
      else if path = ''/internal/v1/postfix/sender-policy''
      then Some (post_route r (as_sender body) (\<lambda>q w. (PostfixSenderPolicy L S rnd c q, w)) w)
      else if HasPrefix path ''/internal/v1/postfix/rate-limit/''
      then Some (get_route r (PostfixRateLimit L S rnd c (pathTail r ''/internal/v1/postfix/rate-limit/'')) w)
      else if HasPrefix path ''/internal/v1/postfix/transport/''
      then Some (get_route r (PostfixTransport S rnd c (pathTail r ''/internal/v1/postfix/transport/'')) w)
      else None)"

definition serve_mail ::
  "libs \<Rightarrow> 'p Service \<Rightarrow> (nat \<Rightarrow> string option) \<Rightarrow> HttpRequest \<Rightarrow> 'p world \<Rightarrow> (HttpReply \<times> 'p world) option"
where
  "serve_mail L S rnd r w =
     (let c = hq_correlation r; path = hq_path r; body = hq_body r in
      if path = ''/internal/v1/dovecot/passdb'' then Some (post_route r (as_passdb body) (DovecotPassdb L S rnd c) w)
      else if HasPrefix path ''/internal/v1/dovecot/userdb/''
      then Some (get_route r (DovecotUserdb L S rnd c (pathTail r ''/internal/v1/dovecot/userdb/'')) w)
      else if path = ''/internal/v1/dovecot/quota''
      then Some (post_route r (as_quota body) (\<lambda>q w. (DovecotQuota L S rnd c q, w)) w)
      else if HasPrefix path ''/internal/v1/dovecot/sieve/default/''
      then Some (get_route r (DovecotSieve L S rnd c (pathTail r ''/internal/v1/dovecot/sieve/default/'')) w)
      else if path = ''/internal/v1/rspamd/local-domains'' then Some (get_route r (RspamdLocalDomains S rnd c) w)
      else if HasPrefix path ''/internal/v1/rspamd/dkim/''
      then Some (get_route r (RspamdDKIM S rnd c (pathTail r ''/internal/v1/rspamd/dkim/'')) w)
      else if path = ''/internal/v1/rspamd/signing-decision''
      then Some (post_route r (as_domain body) (\<lambda>d w. (RspamdSigningDecision S rnd c d, w)) w)
      else if path = ''/internal/v1/rspamd/rate-signal''
      then Some (post_route r (as_rate_sender body) (\<lambda>s w. (RspamdRateSignal L S rnd c s, w)) w)
      else None)"

definition serve ::
  "external \<Rightarrow> libs \<Rightarrow> 'p Service \<Rightarrow> (nat \<Rightarrow> string option) \<Rightarrow> HttpRequest \<Rightarrow> 'p world \<Rightarrow> HttpReply \<times> 'p world"
where
  "serve X L S rnd r w =
     (case serve_queue X S rnd r w of
        Some answer \<Rightarrow> answer
      | None \<Rightarrow>
         (case serve_lookup L S rnd r w of
            Some answer \<Rightarrow> answer
          | None \<Rightarrow>
             (case serve_mail L S rnd r w of
                Some answer \<Rightarrow> answer
              | None \<Rightarrow> (status_only (if hq_path r @ ''/'' \<in> set subtree_patterns then 301 else 404), w))))"

end
