(* ===== verification/Gate.thy ===== *)
theory Gate
  imports Daemon_HTTP
begin

text \<open>
  The delivery gate that Postfix runs for every queued message, \<^verbatim>\<open>internal/postfixgate/gate.go\<close>, its HTTP client for the core,
  \<^verbatim>\<open>internal/postfixgate/control.go\<close>, and the choice of authority of \<^verbatim>\<open>cmd/gotth-mail-postfix-gate\<close>.

  The gate works on a state of any type. The SMTP relay is the list of commands sent so far together with a function that says
  whether the next command is accepted. JSON on the wire is the record \<open>wire\<close>: what the core decodes from a request the client
  marshals, and what the client decodes from a reply.
\<close>

section \<open>The gate\<close>

definition MaxMessageBytes :: nat where "MaxMessageBytes = 64 * 2 ^ 20"

record DeliveryRequest =
  dr_queue_id :: string
  dr_mailbox :: string
  dr_system :: string
  dr_deliveries :: "QueueDelivery list"

text \<open>The interfaces \<open>QueueInspector\<close>, \<open>Controller\<close> and \<open>Relay\<close>.\<close>

record 's Gate =
  g_inspect :: "string \<Rightarrow> 's \<Rightarrow> QueueMetadata result \<times> 's"
  g_register :: "QueueAdmissionRequest \<Rightarrow> 's \<Rightarrow> go_error option \<times> 's"
  g_decide :: "string \<Rightarrow> string \<Rightarrow> 's \<Rightarrow> Decision result \<times> 's"
  g_reconcile :: "string \<Rightarrow> 's \<Rightarrow> go_error option \<times> 's"
  g_submit :: "string \<Rightarrow> string list \<Rightarrow> string \<Rightarrow> 's \<Rightarrow> go_error option \<times> 's"

text \<open>An \<open>io.Reader\<close>: its bytes, and whether it ends with an error.\<close>

record reader =
  rd_bytes :: string
  rd_error :: bool

text \<open>\<open>io.ReadAll (io.LimitReader r n)\<close>.\<close>

definition read_limited :: "reader \<Rightarrow> nat \<Rightarrow> string option" where
  "read_limited r n =
     (if n \<le> length (rd_bytes r) then Some (take n (rd_bytes r))
      else if rd_error r then None else Some (rd_bytes r))"

fun decideRecipients :: "'s Gate \<Rightarrow> string \<Rightarrow> string list \<Rightarrow> 's \<Rightarrow> go_error option \<times> 's" where
  "decideRecipients G queueID [] s = (None, s)"
| "decideRecipients G queueID (r # rs) s =
     (case g_decide G queueID r s of
        (Inl e, s1) \<Rightarrow> (Some e, s1)
      | (Inr decision, s1) \<Rightarrow>
          if dec_action decision = ActionDefer \<and> dec_reason decision = ReasonPolicyHold
          then (case g_reconcile G queueID s1 of
                  (Some e, s2) \<Rightarrow> (Some e, s2)
                | (None, s2) \<Rightarrow> (Some (Err ''outbound queue placed on policy hold''), s2))
          else if dec_action decision \<noteq> ActionOK then (Some (Err ''outbound policy deferred final handoff''), s1)
          else decideRecipients G queueID rs s1)"

text \<open>\<open>Gate.Deliver\<close>; a gate without one of its interfaces is \<open>None\<close>.\<close>

definition Deliver :: "'s Gate option \<Rightarrow> DeliveryRequest \<Rightarrow> reader \<Rightarrow> 's \<Rightarrow> go_error option \<times> 's" where
  "Deliver gate request message s =
     (case gate of
        None \<Rightarrow> (Some (Err ''Postfix delivery gate is unavailable''), s)
      | Some G \<Rightarrow>
          if length (dr_deliveries request) = 0 then (Some (Err ''Postfix delivery gate is unavailable''), s)
          else case g_inspect G (dr_queue_id request) s of
            (Inl _, s1) \<Rightarrow> (Some (Err ''Postfix queue metadata is unavailable''), s1)
          | (Inr metadata, s1) \<Rightarrow>
              if qm_held metadata then (Some (Err ''Postfix queue metadata is unavailable''), s1)
              else case g_register G \<lparr>ad_metadata = metadata, ad_deliveries = dr_deliveries request,
                                      ad_mailbox = dr_mailbox request, ad_system = dr_system request\<rparr> s1 of
                (Some e, s2) \<Rightarrow> (Some e, s2)
              | (None, s2) \<Rightarrow>
                 (case decideRecipients G (qm_queue_id metadata) (qm_recipients metadata) s2 of
                    (Some e, s3) \<Rightarrow> (Some e, s3)
                  | (None, s3) \<Rightarrow>
                     (case read_limited message (MaxMessageBytes + 1) of
                        None \<Rightarrow> (Some (Err ''invalid or oversized Postfix message''), s3)
                      | Some body \<Rightarrow>
                          if length body = 0 \<or> length body > MaxMessageBytes
                          then (Some (Err ''invalid or oversized Postfix message''), s3)
                          else g_submit G (qm_sender metadata) (qm_recipients metadata) body s3)))"

section \<open>The relay\<close>

datatype smtp_cmd = Connect string | Greeting | Hello string | MailFrom string | RcptTo string | DataCmd | Content string | EndData | QuitCmd

type_synonym server = "smtp_cmd list \<Rightarrow> smtp_cmd \<Rightarrow> bool"

text \<open>One command: it is sent, and the relay accepts it or not.\<close>

definition send :: "server \<Rightarrow> smtp_cmd \<Rightarrow> smtp_cmd list \<Rightarrow> bool \<times> smtp_cmd list" where
  "send accepts cmd t = (accepts t cmd, t @ [cmd])"

fun rcptLoop :: "server \<Rightarrow> string list \<Rightarrow> smtp_cmd list \<Rightarrow> bool \<times> smtp_cmd list" where
  "rcptLoop accepts [] t = (True, t)"
| "rcptLoop accepts (r # rs) t =
     (case send accepts (RcptTo r) t of (False, t1) \<Rightarrow> (False, t1) | (True, t1) \<Rightarrow> rcptLoop accepts rs t1)"

definition submitData :: "server \<Rightarrow> string \<Rightarrow> smtp_cmd list \<Rightarrow> go_error option \<times> smtp_cmd list" where
  "submitData accepts message t =
     (case send accepts DataCmd t of
        (False, t1) \<Rightarrow> (Some (Err ''SMTP relay DATA rejected''), t1)
      | (True, t1) \<Rightarrow>
         (case send accepts (Content message) t1 of
            (False, t2) \<Rightarrow> (Some (Err ''SMTP relay message write failed''), t2)
          | (True, t2) \<Rightarrow>
             (case send accepts EndData t2 of
                (False, t3) \<Rightarrow> (Some (Err ''SMTP relay did not accept DATA''), t3)
              | (True, t3) \<Rightarrow> (None, snd (send accepts QuitCmd t3)))))"

definition submitEnvelope ::
  "server \<Rightarrow> string \<Rightarrow> string list \<Rightarrow> string \<Rightarrow> smtp_cmd list \<Rightarrow> go_error option \<times> smtp_cmd list"
where
  "submitEnvelope accepts sender rcpts message t =
     (case send accepts (MailFrom sender) t of
        (False, t1) \<Rightarrow> (Some (Err ''SMTP relay sender rejected''), t1)
      | (True, t1) \<Rightarrow>
         (case rcptLoop accepts rcpts t1 of
            (False, t2) \<Rightarrow> (Some (Err ''SMTP relay recipient rejected''), t2)
          | (True, t2) \<Rightarrow> submitData accepts message t2))"

text \<open>\<open>smtpDialer.submit\<close>. The writer is closed also when the write of the message has failed; its
  buffer keeps the error, so nothing more is sent then.\<close>

definition smtp_submit ::
  "server \<Rightarrow> string \<Rightarrow> string \<Rightarrow> string \<Rightarrow> string list \<Rightarrow> string \<Rightarrow> smtp_cmd list \<Rightarrow> go_error option \<times> smtp_cmd list"
where
  "smtp_submit accepts addr helloName sender rcpts message t =
     (case send accepts (Connect addr) t of
        (False, t1) \<Rightarrow> (Some (Err ''SMTP relay unavailable''), t1)
      | (True, t1) \<Rightarrow>
         (case send accepts Greeting t1 of
            (False, t2) \<Rightarrow> (Some (Err ''SMTP relay greeting failed''), t2)
          | (True, t2) \<Rightarrow>
              if helloName \<noteq> []
              then (case send accepts (Hello helloName) t2 of
                      (False, t3) \<Rightarrow> (Some (Err ''SMTP relay hello failed''), t3)
                    | (True, t3) \<Rightarrow> submitEnvelope accepts sender rcpts message t3)
              else submitEnvelope accepts sender rcpts message t2))"

record SMTPRelay =
  sr_addr :: string
  sr_hello :: string

definition Submit ::
  "libs \<Rightarrow> server \<Rightarrow> SMTPRelay \<Rightarrow> string \<Rightarrow> string list \<Rightarrow> string \<Rightarrow> smtp_cmd list \<Rightarrow> go_error option \<times> smtp_cmd list"
where
  "Submit L accepts R sender rcpts message t =
     (let addr = TrimSpace (sr_addr R) in
      if addr = [] \<or> length rcpts = 0 \<or> length message = 0 then (Some (Err ''invalid SMTP relay request''), t)
      else case (if sender \<noteq> ''<>'' then lb_parse L sender else Some []) of
        None \<Rightarrow> (Some (Err ''invalid SMTP relay sender''), t)
      | Some from \<Rightarrow>
         (case those (map (lb_parse L) rcpts) of
            None \<Rightarrow> (Some (Err ''invalid SMTP relay recipient''), t)
          | Some canonical \<Rightarrow> smtp_submit accepts addr (TrimSpace (sr_hello R)) from canonical message t))"

section \<open>The client of the core\<close>

datatype control_input = RegisterInput QueueAdmissionRequest | DecideInput EnforcementRequest | ReconcileInput string

record wire =
  jw_request :: "control_input \<Rightarrow> request_body option"
  jw_reply :: "Response \<Rightarrow> Response option"

text \<open>
  \<open>None\<close> in \<open>jw_request\<close> is a request over 1 MiB, \<open>None\<close> in \<open>jw_reply\<close> a reply over 64 KiB. Documented behaviour: decoding
  a marshalled request gives it back if all its texts are valid UTF-8, and a text field of a reply arrives as it was sent if it
  is valid UTF-8.
\<close>

definition utf8_admission :: "QueueAdmissionRequest \<Rightarrow> bool" where
  "utf8_admission a \<longleftrightarrow>
     ValidString (qm_queue_id (ad_metadata a)) \<and> ValidString (qm_fingerprint (ad_metadata a)) \<and> ValidString (qm_sender (ad_metadata a))
     \<and> list_all ValidString (qm_recipients (ad_metadata a))
     \<and> list_all (\<lambda>d. ValidString (dl_original d) \<and> ValidString (dl_recipient d)) (ad_deliveries a)
     \<and> ValidString (ad_mailbox a) \<and> ValidString (ad_system a)"

definition utf8_enforcement :: "EnforcementRequest \<Rightarrow> bool" where
  "utf8_enforcement e \<longleftrightarrow>
     list_all ValidString [er_stage e, er_queue_id e, er_mailbox e, er_system e, er_envelope e, er_recipient e]
     \<and> list_all (\<lambda>s. ValidString (src_kind s) \<and> ValidString (src_object s)) (er_sources e)"

definition json_exact :: "wire \<Rightarrow> bool" where
  "json_exact J \<longleftrightarrow>
     (\<forall>a b. jw_request J (RegisterInput a) = Some b \<and> utf8_admission a \<longrightarrow> as_admission b = Some a)
     \<and> (\<forall>e b. jw_request J (DecideInput e) = Some b \<and> utf8_enforcement e \<longrightarrow> as_enforcement b = Some e)
     \<and> (\<forall>q b. jw_request J (ReconcileInput q) = Some b \<and> ValidString q \<longrightarrow> as_queue b = Some q)
     \<and> (\<forall>r r'. jw_reply J r = Some r' \<longrightarrow> (ValidString (rsp_decision r) \<longrightarrow> rsp_decision r' = rsp_decision r)
            \<and> (ValidString (rsp_reason r) \<longrightarrow> rsp_reason r' = rsp_reason r))"

text \<open>\<open>http.Client.Do\<close>: the reply, or \<open>None\<close> if the exchange failed.\<close>

type_synonym 's http = "HttpRequest \<Rightarrow> 's \<Rightarrow> HttpReply option \<times> 's"

record parsed_url =
  pu_scheme :: string
  pu_host :: string
  pu_user :: bool
  pu_path :: string
  pu_query :: string
  pu_fragment :: string

text \<open>\<open>NewHTTPController\<close> on the outcome of \<open>url.Parse\<close>; the base URL is kept as parsed.\<close>

definition NewHTTPController :: "parsed_url option \<Rightarrow> string \<Rightarrow> (parsed_url \<times> string) result" where
  "NewHTTPController parsed token =
     (case parsed of
        None \<Rightarrow> Inl (Err ''invalid GOTTH Mail core URL'')
      | Some u \<Rightarrow>
          if pu_scheme u \<noteq> ''http'' \<and> pu_scheme u \<noteq> ''https'' \<or> pu_host u = [] \<or> pu_user u \<or> pu_path u \<noteq> [] \<or> pu_query u \<noteq> []
             \<or> pu_fragment u \<noteq> []
          then Inl (Err ''invalid GOTTH Mail core URL'')
          else if length token < 32 \<or> length token > 4096 \<or> TrimSpace token \<noteq> token
          then Inl (Err ''invalid Postfix helper token'')
          else Inr (u, token))"

definition call ::
  "wire \<Rightarrow> 's http \<Rightarrow> ('s \<Rightarrow> string) \<Rightarrow> string \<Rightarrow> string \<Rightarrow> control_input \<Rightarrow> bool \<Rightarrow> 's \<Rightarrow> Response result \<times> 's"
where
  "call J http stamp token path input privileged s =
     (case jw_request J input of
        None \<Rightarrow> (Inl (Err ''GOTTH Mail control request invalid''), s)
      | Some body \<Rightarrow>
         (case http \<lparr>hq_method = ''POST'', hq_path = path, hq_auth = (if privileged then ''Bearer '' @ token else []),
                     hq_correlation = ''postfix-gate:'' @ stamp s, hq_body = body\<rparr> s of
            (None, s1) \<Rightarrow> (Inl (Err ''GOTTH Mail control plane unavailable''), s1)
          | (Some reply, s1) \<Rightarrow>
              if hp_status reply \<noteq> 200 then (Inl (Err ''GOTTH Mail control response invalid''), s1)
              else case hp_body reply of
                None \<Rightarrow> (Inl (Err ''GOTTH Mail control response invalid''), s1)
              | Some r \<Rightarrow>
                 (case jw_reply J r of
                    None \<Rightarrow> (Inl (Err ''GOTTH Mail control response invalid''), s1)
                  | Some result \<Rightarrow> (Inr result, s1))))"

definition controlRegister :: "wire \<Rightarrow> 's http \<Rightarrow> ('s \<Rightarrow> string) \<Rightarrow> string \<Rightarrow> QueueAdmissionRequest \<Rightarrow> 's \<Rightarrow> go_error option \<times> 's" where
  "controlRegister J http stamp token request s =
     (case call J http stamp token ''/internal/v1/postfix/queue/register'' (RegisterInput request) True s of
        (Inl e, s1) \<Rightarrow> (Some e, s1)
      | (Inr response, s1) \<Rightarrow>
          if rsp_decision response \<noteq> DOK
             \<or> rsp_reason response \<noteq> ''outbound_queue_registered'' \<and> rsp_reason response \<noteq> ''outbound_queue_already_registered''
          then (Some (Err ''GOTTH Mail rejected queue registration''), s1)
          else (None, s1))"

definition policy_reasons :: "string list" where
  "policy_reasons = [ReasonUnrestricted, ReasonSameDomain, ReasonRecipientForbidden, ReasonCrossDomainConflict, ReasonPolicyHold,
     ReasonUnavailable]"

definition controlDecide :: "wire \<Rightarrow> 's http \<Rightarrow> ('s \<Rightarrow> string) \<Rightarrow> string \<Rightarrow> string \<Rightarrow> string \<Rightarrow> 's \<Rightarrow> Decision result \<times> 's" where
  "controlDecide J http stamp token queueID recipient s =
     (case call J http stamp token ''/internal/v1/postfix/outbound-policy''
         (DecideInput \<lparr>er_stage = StageTransport, er_queue_id = queueID, er_mailbox = [], er_system = [], er_envelope = [],
                       er_recipient = recipient, er_sources = []\<rparr>) False s of
        (Inl e, s1) \<Rightarrow> (Inl e, s1)
      | (Inr response, s1) \<Rightarrow>
          if rsp_decision response \<notin> {ActionOK, ActionReject, ActionDefer}
          then (Inl (Err ''GOTTH Mail returned invalid policy action''), s1)
          else if rsp_reason response \<notin> set policy_reasons
          then (Inl (Err ''GOTTH Mail returned invalid policy reason''), s1)
          else (Inr \<lparr>dec_action = rsp_decision response, dec_reason = rsp_reason response, dec_revisions = rsp_revisions response\<rparr>, s1))"

definition controlReconcile :: "wire \<Rightarrow> 's http \<Rightarrow> ('s \<Rightarrow> string) \<Rightarrow> string \<Rightarrow> string \<Rightarrow> 's \<Rightarrow> go_error option \<times> 's" where
  "controlReconcile J http stamp token queueID s =
     (case call J http stamp token ''/internal/v1/postfix/queue/reconcile'' (ReconcileInput queueID) True s of
        (Inl e, s1) \<Rightarrow> (Some e, s1)
      | (Inr response, s1) \<Rightarrow>
          if rsp_decision response \<noteq> DOK
             \<or> rsp_reason response \<noteq> ''outbound_queue_hold_applied'' \<and> rsp_reason response \<noteq> ''outbound_queue_hold_already_applied''
          then (Some (Err ''GOTTH Mail did not reconcile queue hold''), s1)
          else (None, s1))"

section \<open>Authority of a delivery\<close>

definition deliveryAuthority :: "string \<Rightarrow> string \<Rightarrow> string \<Rightarrow> (string \<times> string) result" where
  "deliveryAuthority identity explicitSystem clientAddress =
     (if identity \<noteq> [] \<and> explicitSystem \<noteq> [] then Inl (Err ''ambiguous Postfix delivery authority'')
      else if explicitSystem \<noteq> []
      then (if clientAddress \<noteq> [] then Inr ([], []) else Inr ([], explicitSystem))
      else Inr (AuthenticatedIdentity identity))"

section \<open>The deployment\<close>

text \<open>
  \<open>runDelivery\<close> puts the parts together: the inspector is the local Postfix boundary, the controller the HTTP client whose
  requests the core serves, the relay the SMTP relay. The network may lose a request or a reply.
\<close>

datatype loss = Delivered | RequestLost | ReplyLost

record 'p deployment =
  dp_service :: "'p Service"
  dp_boundary :: "'p PostfixBoundary"
  dp_relay :: SMTPRelay
  dp_server :: server
  dp_token :: string
  dp_stamp :: "'p world \<Rightarrow> string"
  dp_rnd :: "'p world \<Rightarrow> nat \<Rightarrow> string option"
  dp_net :: "HttpRequest \<Rightarrow> 'p world \<Rightarrow> loss"

type_synonym 'p site = "'p world \<times> smtp_cmd list"

definition core_http :: "external \<Rightarrow> libs \<Rightarrow> 'p deployment \<Rightarrow> 'p site http" where
  "core_http X L D req s =
     (case s of (w, t) \<Rightarrow>
        if dp_net D req w = RequestLost then (None, (w, t))
        else case serve X L (dp_service D) (dp_rnd D w) req w of
          (reply, w1) \<Rightarrow> (if dp_net D req w = ReplyLost then None else Some reply, (w1, t)))"

definition site_gate :: "external \<Rightarrow> libs \<Rightarrow> wire \<Rightarrow> 'p deployment \<Rightarrow> 'p site Gate" where
  "site_gate X L J D =
     \<lparr>g_inspect = (\<lambda>queueID (w, t). case on_postfix (Inspect X (dp_boundary D) queueID) w of (m, w1) \<Rightarrow> (m, (w1, t))),
      g_register = controlRegister J (core_http X L D) (dp_stamp D \<circ> fst) (dp_token D),
      g_decide = controlDecide J (core_http X L D) (dp_stamp D \<circ> fst) (dp_token D),
      g_reconcile = controlReconcile J (core_http X L D) (dp_stamp D \<circ> fst) (dp_token D),
      g_submit = (\<lambda>sender rcpts message (w, t).
        case Submit L (dp_server D) (dp_relay D) sender rcpts message t of (e, t1) \<Rightarrow> (e, (w, t1)))\<rparr>"

section \<open>The delivery command\<close>

text \<open>
  The environment of the command: the token given directly or in a file (\<open>None\<close> if it cannot be opened), the outcome of
  \<open>url.Parse\<close> on the core URL, the name of the Postfix instance and the address of the relay; and the machine it runs on.
\<close>

record secret_env =
  se_direct :: string
  se_path :: string
  se_file :: "reader option"

record gate_env =
  ge_token :: secret_env
  ge_url :: "parsed_url option"
  ge_instance :: string
  ge_relay :: string

record 'p host =
  ht_service :: "'p Service"
  ht_runner :: "'p runner"
  ht_server :: server
  ht_stamp :: "'p world \<Rightarrow> string"
  ht_rnd :: "'p world \<Rightarrow> nat \<Rightarrow> string option"
  ht_net :: "HttpRequest \<Rightarrow> 'p world \<Rightarrow> loss"

definition TrimRight :: "string \<Rightarrow> string \<Rightarrow> string" where
  "TrimRight s cutset = rev (dropWhile (\<lambda>c. c \<in> set cutset) (rev s))"

definition configuredGateSecret :: "secret_env \<Rightarrow> string \<Rightarrow> string result" where
  "configuredGateSecret E label =
     (let direct = se_direct E; path = TrimSpace (se_path E) in
      if direct \<noteq> [] \<and> path \<noteq> [] then Inl (Err (label @ '' sources are mutually exclusive''))
      else if path = []
      then (if length direct < 32 \<or> length direct > 4096 then Inl (Err (''invalid '' @ label)) else Inr direct)
      else case se_file E of
        None \<Rightarrow> Inl (Err (label @ '' file unavailable''))
      | Some handle \<Rightarrow>
         (case read_limited handle 4097 of
            None \<Rightarrow> Inl (Err (''invalid '' @ label @ '' file''))
          | Some data \<Rightarrow>
              if length data > 4096 then Inl (Err (''invalid '' @ label @ '' file''))
              else let token = TrimRight data [CHR 0x0D, CHR 0x0A] in
                if length token < 32 \<or> length token > 4096 then Inl (Err (''invalid '' @ label)) else Inr token))"

definition helperToken :: "gate_env \<Rightarrow> string result" where
  "helperToken E = configuredGateSecret (ge_token E) ''Postfix helper token''"

definition stringListSet :: "string list \<Rightarrow> string \<Rightarrow> string list result" where
  "stringListSet s value =
     (if value = [] \<or> length value > 320 then Inl (Err ''invalid Postfix address argument'') else Inr (s @ [value]))"

fun addressFlags :: "string list \<Rightarrow> string list \<Rightarrow> string list result" where
  "addressFlags s [] = Inr s"
| "addressFlags s (v # vs) = (case stringListSet s v of Inl e \<Rightarrow> Inl e | Inr s1 \<Rightarrow> addressFlags s1 vs)"

definition delivery_boundary :: "gate_env \<Rightarrow> 'p host \<Rightarrow> 'p PostfixBoundary" where
  "delivery_boundary E H =
     \<lparr>pb_runner = ht_runner H, pb_postqueue = ''/usr/sbin/postqueue'', pb_postsuper = ''/usr/sbin/postsuper'',
      pb_instance = TrimSpace (ge_instance E), pb_max_output = 8 * 2 ^ 20\<rparr>"

definition delivery_site :: "gate_env \<Rightarrow> 'p host \<Rightarrow> string \<Rightarrow> 'p deployment" where
  "delivery_site E H token =
     \<lparr>dp_service = ht_service H, dp_boundary = delivery_boundary E H,
      dp_relay = \<lparr>sr_addr = ge_relay E, sr_hello = TrimSpace (ge_instance E)\<rparr>,
      dp_server = ht_server H, dp_token = token, dp_stamp = ht_stamp H, dp_rnd = ht_rnd H, dp_net = ht_net H\<rparr>"

text \<open>
  \<open>runDelivery\<close> on the values of its flags, in the order of the command line for each flag; other errors of \<open>flags.Parse\<close>
  give the error of the first branch.
\<close>

definition runDelivery ::
  "external \<Rightarrow> libs \<Rightarrow> wire \<Rightarrow> gate_env \<Rightarrow> 'p host \<Rightarrow> string \<Rightarrow> string \<Rightarrow> string \<Rightarrow> string \<Rightarrow> string list \<Rightarrow> string list \<Rightarrow> reader
   \<Rightarrow> 'p site \<Rightarrow> go_error option \<times> 'p site"
where
  "runDelivery X L J E H queueID identity systemSender clientAddress originalFlags recipientFlags message s =
     (case (addressFlags [] originalFlags, addressFlags [] recipientFlags) of
        (Inr originals, Inr rcpts) \<Rightarrow>
          if length originals = 0 \<or> length originals \<noteq> length rcpts
          then (Some (Err ''invalid Postfix pipe arguments''), s)
          else (case deliveryAuthority identity systemSender clientAddress of
             Inl e \<Rightarrow> (Some e, s)
           | Inr (mailbox, system) \<Rightarrow>
              (case helperToken E of
                 Inl e \<Rightarrow> (Some e, s)
               | Inr token \<Rightarrow>
                  (case NewHTTPController (ge_url E) token of
                     Inl e \<Rightarrow> (Some e, s)
                   | Inr _ \<Rightarrow>
                       if TrimSpace (ge_instance E) = [] then (Some (Err ''GOTTH_MAIL_POSTFIX_INSTANCE is required''), s)
                       else Deliver (Some (site_gate X L J (delivery_site E H token)))
                         \<lparr>dr_queue_id = queueID, dr_mailbox = mailbox, dr_system = system,
                          dr_deliveries = map2 (\<lambda>a b. \<lparr>dl_original = a, dl_recipient = b\<rparr>) originals rcpts\<rparr> message s)))
      | _ \<Rightarrow> (Some (Err ''invalid Postfix pipe arguments''), s))"

end
