(* ===== verification/Gate_Facts.thy ===== *)
theory Gate_Facts
  imports Activation_Facts Gate
begin

text \<open>
  The delivery gate: what a successful submission to the relay means, and that nothing reaches the relay which the policy in
  force does not allow. The gate relies on its inspector and its controller through the locale \<open>gate_contract\<close>, which the
  deployed gate (the local Postfix boundary, and the HTTP client of the core) is shown to satisfy.
\<close>

section \<open>Routes\<close>

lemma serve_register:
  "hq_path r = ''/internal/v1/postfix/queue/register'' \<Longrightarrow>
   serve X L S rnd r w = guarded_route r (authorizePostfixHelper S r) (as_admission (hq_body r))
     (PostfixQueueAdmission X S rnd (hq_correlation r)) w"
  by (simp add: serve_def serve_queue_def Let_def)

lemma serve_reconcile:
  "hq_path r = ''/internal/v1/postfix/queue/reconcile'' \<Longrightarrow>
   serve X L S rnd r w = guarded_route r (authorizePostfixHelper S r) (as_queue (hq_body r))
     (PostfixQueueReconcile X S rnd (hq_correlation r)) w"
  by (simp add: serve_def serve_queue_def Let_def)

lemma serve_policy:
  "hq_path r = ''/internal/v1/postfix/outbound-policy'' \<Longrightarrow>
   serve X L S rnd r w = post_route r (as_enforcement (hq_body r)) (PostfixOutboundPolicy X S rnd (hq_correlation r)) w"
  by (simp add: serve_def serve_queue_def Let_def)

lemma ascii_texts:
  "ValidString ''ok''" "ValidString ''error''" "ValidString ''defer''" "ValidString ''reject''" "ValidString ''not_found''"
  by code_simp+

lemma resp_fields [simp]:
  "rsp_decision (resp rnd c d reason) = d" "rsp_reason (resp rnd c d reason) = reason"
  by (simp_all add: resp_def)

lemma reply_decision:
  assumes "json_exact J" and "jw_reply J r = Some r'" and "ValidString (rsp_decision r)"
  shows "rsp_decision r' = rsp_decision r"
  using assms by (auto simp: json_exact_def)

lemma call_Inr:
  assumes "call J (core_http X L D) stamp token path input privileged (w, t) = (Inr response, s1)"
  shows "\<exists>body r w1. jw_request J input = Some body \<and> jw_reply J r = Some response \<and> s1 = (w1, t)
    \<and> serve X L (dp_service D) (dp_rnd D w)
        \<lparr>hq_method = ''POST'', hq_path = path, hq_auth = (if privileged then ''Bearer '' @ token else []),
         hq_correlation = ''postfix-gate:'' @ stamp (w, t), hq_body = body\<rparr> w = (\<lparr>hp_status = 200, hp_body = Some r\<rparr>, w1)"
  using assms
  by (auto simp: call_def core_http_def split: option.splits prod.splits if_splits)

lemma malformed_reply: "malformed r = \<lparr>hp_status = 200, hp_body = Some a\<rparr> \<Longrightarrow> rsp_decision a = DError"
  by (auto simp: malformed_def write_response_def resp_def)

lemma post_route_200:
  assumes "post_route r body handler w = (\<lparr>hp_status = 200, hp_body = Some a\<rparr>, w1)" and "rsp_decision a \<noteq> DError"
  shows "\<exists>x. body = Some x \<and> handler x w = (a, w1)"
  using assms malformed_reply [of r a] by (auto simp: post_route_def write_response_def split: if_splits option.splits prod.splits)

lemma guarded_route_200:
  assumes "guarded_route r ok body handler w = (\<lparr>hp_status = 200, hp_body = Some a\<rparr>, w1)" and "rsp_decision a \<noteq> DError"
  shows "ok \<and> (\<exists>x. body = Some x \<and> handler x w = (a, w1))"
  using assms post_route_200 [of r body handler w a w1] by (auto simp: guarded_route_def split: if_splits)

lemma malformed_valid: "malformed r = \<lparr>hp_status = 200, hp_body = Some a\<rparr> \<Longrightarrow> ValidString (rsp_decision a)"
  using malformed_reply ascii_texts by simp

lemma post_route_decision:
  assumes "post_route r body handler w = (\<lparr>hp_status = 200, hp_body = Some a\<rparr>, w1)"
    and "\<And>x. ValidString (rsp_decision (fst (handler x w)))"
  shows "ValidString (rsp_decision a)"
  using assms malformed_valid [of r a]
  by (auto simp: post_route_def write_response_def split: if_splits option.splits prod.splits) (metis fst_conv)

lemma guarded_route_decision:
  assumes "guarded_route r ok body handler w = (\<lparr>hp_status = 200, hp_body = Some a\<rparr>, w1)"
    and "\<And>x. ValidString (rsp_decision (fst (handler x w)))"
  shows "ValidString (rsp_decision a)"
  using assms post_route_decision [of r body handler w a w1] by (auto simp: guarded_route_def split: if_splits)

lemma outboundDecisionResponse_decision:
  "rsp_decision (outboundDecisionResponse rnd c d) = (if dec_action d \<in> {ActionOK, ActionReject, ActionDefer} then dec_action d else DDefer)"
  by (simp add: outboundDecisionResponse_def Let_def)

lemma policy_decision: "ValidString (rsp_decision (fst (PostfixOutboundPolicy X S rnd c req w)))"
  by (auto simp: PostfixOutboundPolicy_def outboundDecisionResponse_decision ascii_texts split: option.split prod.split)

lemma admission_decision: "ValidString (rsp_decision (fst (PostfixQueueAdmission X S rnd c req w)))"
  by (auto simp: PostfixQueueAdmission_def ascii_texts split: sum.split prod.split)

section \<open>The controller\<close>

lemma controlRegister_None:
  assumes J: "json_exact J" and "utf8_admission a"
    and "controlRegister J (core_http X L D) stamp token a (w, t) = (None, s1)"
  shows "\<exists>r created w1. s1 = (w1, t) \<and> Admit X a w = (Inr (r, created), w1)"
proof -
  let ?path = "''/internal/v1/postfix/queue/register''"
  obtain response where c: "call J (core_http X L D) stamp token ?path (RegisterInput a) True (w, t) = (Inr response, s1)"
    and ok: "rsp_decision response = DOK"
    using assms(3) by (auto simp: controlRegister_def split: sum.splits prod.splits if_splits)
  from call_Inr [OF c] obtain body r w1 where b: "jw_request J (RegisterInput a) = Some body" and r: "jw_reply J r = Some response"
    and s1: "s1 = (w1, t)"
    and sv: "serve X L (dp_service D) (dp_rnd D w) \<lparr>hq_method = ''POST'', hq_path = ?path, hq_auth = ''Bearer '' @ token,
         hq_correlation = ''postfix-gate:'' @ stamp (w, t), hq_body = body\<rparr> w = (\<lparr>hp_status = 200, hp_body = Some r\<rparr>, w1)"
    by auto
  define rq where "rq = \<lparr>hq_method = ''POST'', hq_path = ?path, hq_auth = ''Bearer '' @ token,
         hq_correlation = ''postfix-gate:'' @ stamp (w, t), hq_body = body\<rparr>"
  have rq: "hq_path rq = ?path" "hq_correlation rq = ''postfix-gate:'' @ stamp (w, t)" "hq_body rq = body" by (simp_all add: rq_def)
  note g = sv [folded rq_def, unfolded serve_register [OF rq(1)] rq(2,3)]
  have "ValidString (rsp_decision r)" by (rule guarded_route_decision [OF g]) (rule admission_decision)
  then have "rsp_decision r = DOK" using reply_decision [OF J r] ok by simp
  moreover have "as_admission body = Some a" using J b assms(2) by (auto simp: json_exact_def)
  ultimately have "PostfixQueueAdmission X (dp_service D) (dp_rnd D w) (''postfix-gate:'' @ stamp (w, t)) a w = (r, w1)"
    using guarded_route_200 [OF g] by auto
  then show ?thesis using \<open>rsp_decision r = DOK\<close> s1
    by (auto simp: PostfixQueueAdmission_def split: if_splits sum.splits prod.splits)
qed

lemma controlDecide_OK:
  assumes J: "json_exact J" and "ValidString q" and "ValidString a"
    and "controlDecide J (core_http X L D) stamp token q a (w, t) = (Inr d, s1)" and "dec_action d = ActionOK"
  shows "\<exists>actor c d' err w1. s1 = (w1, t) \<and> dec_action d' = ActionOK
    \<and> Decide X actor c \<lparr>er_stage = StageTransport, er_queue_id = q, er_mailbox = [], er_system = [], er_envelope = [],
         er_recipient = a, er_sources = []\<rparr> w = ((d', err), w1)"
proof -
  let ?path = "''/internal/v1/postfix/outbound-policy''"
  let ?e = "\<lparr>er_stage = StageTransport, er_queue_id = q, er_mailbox = [], er_system = [], er_envelope = [], er_recipient = a, er_sources = []\<rparr>"
  obtain response where c: "call J (core_http X L D) stamp token ?path (DecideInput ?e) False (w, t) = (Inr response, s1)"
    and ok: "rsp_decision response = DOK"
    using assms(4,5) by (auto simp: controlDecide_def split: sum.splits prod.splits if_splits)
  from call_Inr [OF c] obtain body r w1 where b: "jw_request J (DecideInput ?e) = Some body" and r: "jw_reply J r = Some response"
    and s1: "s1 = (w1, t)"
    and sv: "serve X L (dp_service D) (dp_rnd D w) \<lparr>hq_method = ''POST'', hq_path = ?path, hq_auth = [],
         hq_correlation = ''postfix-gate:'' @ stamp (w, t), hq_body = body\<rparr> w = (\<lparr>hp_status = 200, hp_body = Some r\<rparr>, w1)"
    by auto
  define rq where "rq = \<lparr>hq_method = ''POST'', hq_path = ?path, hq_auth = [],
         hq_correlation = ''postfix-gate:'' @ stamp (w, t), hq_body = body\<rparr>"
  have rq: "hq_path rq = ?path" "hq_correlation rq = ''postfix-gate:'' @ stamp (w, t)" "hq_body rq = body" by (simp_all add: rq_def)
  note g = sv [folded rq_def, unfolded serve_policy [OF rq(1)] rq(2,3)]
  have "ValidString (rsp_decision r)" by (rule post_route_decision [OF g]) (rule policy_decision)
  then have rd: "rsp_decision r = DOK" using reply_decision [OF J r] ok by simp
  have "ValidString StageTransport" "ValidString []" by code_simp+
  then have "as_enforcement body = Some ?e" using J b assms(2,3) by (auto simp: json_exact_def utf8_enforcement_def)
  then have "PostfixOutboundPolicy X (dp_service D) (dp_rnd D w) (''postfix-gate:'' @ stamp (w, t)) ?e w = (r, w1)"
    using post_route_200 [OF g] rd by auto
  then obtain actor d' err where "Decide X actor (''postfix-gate:'' @ stamp (w, t)) ?e w = ((d', err), w1)"
    "r = outboundDecisionResponse (dp_rnd D w 0) (''postfix-gate:'' @ stamp (w, t)) d'"
    using rd by (auto simp: PostfixOutboundPolicy_def split: option.splits prod.splits)
  moreover have "dec_action d' = ActionOK" using rd calculation(2) outboundDecisionResponse_decision by (auto split: if_splits)
  ultimately show ?thesis using s1 by blast
qed

section \<open>The relay\<close>

text \<open>Whether the relay accepted the message somewhere in the commands \<open>u\<close> sent after \<open>t\<close>.\<close>

fun accepted :: "server \<Rightarrow> smtp_cmd list \<Rightarrow> smtp_cmd list \<Rightarrow> bool" where
  "accepted A t [] = False"
| "accepted A t (c # u) = (c = EndData \<and> A t c \<or> accepted A (t @ [c]) u)"

lemma accepted_append: "accepted A t (u @ v) = (accepted A t u \<or> accepted A (t @ u) v)"
  by (induction u arbitrary: t) auto

lemma not_accepted: "EndData \<notin> set u \<Longrightarrow> \<not> accepted A t u"
  by (induction u arbitrary: t) auto

lemma rcptLoop_spec:
  assumes "rcptLoop A rs t = (ok, t')"
  shows "\<exists>ks. t' = t @ map RcptTo ks \<and> set ks \<subseteq> set rs \<and> (ok \<longrightarrow> ks = rs)"
  using assms
proof (induction rs arbitrary: t)
  case (Cons r rs)
  show ?case
  proof (cases "A t (RcptTo r)")
    case False
    then show ?thesis using Cons.prems by (intro exI [of _ "[r]"]) (auto simp: send_def)
  next
    case True
    then have "rcptLoop A rs (t @ [RcptTo r]) = (ok, t')" using Cons.prems by (simp add: send_def)
    from Cons.IH [OF this] obtain ks where "t' = (t @ [RcptTo r]) @ map RcptTo ks" "set ks \<subseteq> set rs" "ok \<longrightarrow> ks = rs" by blast
    then show ?thesis by (intro exI [of _ "r # ks"]) auto
  qed
qed simp

lemma submitData_spec:
  assumes "submitData A m t = (err, t')"
  shows "\<exists>u. t' = t @ u \<and> (err = None \<longleftrightarrow> accepted A t u) \<and> (\<forall>r. RcptTo r \<notin> set u)
    \<and> (err = None \<longrightarrow> u = [DataCmd, Content m, EndData, QuitCmd])"
proof -
  consider "\<not> A t DataCmd" | "A t DataCmd" "\<not> A (t @ [DataCmd]) (Content m)"
    | "A t DataCmd" "A (t @ [DataCmd]) (Content m)" "\<not> A (t @ [DataCmd, Content m]) EndData"
    | "A t DataCmd" "A (t @ [DataCmd]) (Content m)" "A (t @ [DataCmd, Content m]) EndData" by blast
  then show ?thesis
  proof cases
    case 1 then show ?thesis using assms by (intro exI [of _ "[DataCmd]"]) (auto simp: submitData_def send_def)
  next
    case 2 then show ?thesis using assms by (intro exI [of _ "[DataCmd, Content m]"]) (auto simp: submitData_def send_def)
  next
    case 3 then show ?thesis using assms by (intro exI [of _ "[DataCmd, Content m, EndData]"]) (auto simp: submitData_def send_def)
  next
    case 4 then show ?thesis using assms by (intro exI [of _ "[DataCmd, Content m, EndData, QuitCmd]"]) (auto simp: submitData_def send_def)
  qed
qed

lemma submitEnvelope_spec:
  assumes "submitEnvelope A from rs m t = (err, t')"
  shows "\<exists>u. t' = t @ u \<and> (err = None \<longleftrightarrow> accepted A t u) \<and> (\<forall>r. RcptTo r \<in> set u \<longrightarrow> r \<in> set rs)
    \<and> (err = None \<longrightarrow> u = MailFrom from # map RcptTo rs @ [DataCmd, Content m, EndData, QuitCmd])"
proof (cases "A t (MailFrom from)")
  case False
  then show ?thesis using assms by (intro exI [of _ "[MailFrom from]"]) (auto simp: submitEnvelope_def send_def)
next
  case True
  obtain ok t2 where l: "rcptLoop A rs (t @ [MailFrom from]) = (ok, t2)" by fastforce
  from rcptLoop_spec [OF l] obtain ks where ks: "t2 = (t @ [MailFrom from]) @ map RcptTo ks" "set ks \<subseteq> set rs" "ok \<longrightarrow> ks = rs" by blast
  have na: "\<not> accepted A t (MailFrom from # map RcptTo ks)" by (rule not_accepted) auto
  show ?thesis
  proof (cases ok)
    case False
    then have "err \<noteq> None" "t' = t2" using assms True l by (auto simp: submitEnvelope_def send_def)
    then show ?thesis using ks na by (intro exI [of _ "MailFrom from # map RcptTo ks"]) auto
  next
    case ok: True
    then have "submitData A m t2 = (err, t')" using assms True l by (simp add: submitEnvelope_def send_def)
    from submitData_spec [OF this] obtain u where u: "t' = t2 @ u" "err = None \<longleftrightarrow> accepted A t2 u" "\<forall>r. RcptTo r \<notin> set u"
      "err = None \<longrightarrow> u = [DataCmd, Content m, EndData, QuitCmd]" by blast
    have "accepted A t ((MailFrom from # map RcptTo ks) @ u) = accepted A t2 u"
      unfolding accepted_append using na ks(1) by simp
    then show ?thesis using u ks ok by (intro exI [of _ "(MailFrom from # map RcptTo ks) @ u"]) auto
  qed
qed

lemma smtp_submit_spec:
  assumes "smtp_submit A addr hello from rs m t = (err, t')"
  shows "\<exists>u. t' = t @ u \<and> u \<noteq> [] \<and> (err = None \<longleftrightarrow> accepted A t u) \<and> (\<forall>r. RcptTo r \<in> set u \<longrightarrow> r \<in> set rs)
    \<and> (err = None \<longrightarrow> u = [Connect addr, Greeting] @ (if hello = [] then [] else [Hello hello])
         @ MailFrom from # map RcptTo rs @ [DataCmd, Content m, EndData, QuitCmd])"
proof -
  have step: ?thesis if pre: "EndData \<notin> set pre" "pre \<noteq> []" "\<forall>r. RcptTo r \<notin> set pre" "pre = [Connect addr, Greeting] @ (if hello = [] then [] else [Hello hello])"
    and e: "submitEnvelope A from rs m (t @ pre) = (err, t')" for pre
  proof -
    from submitEnvelope_spec [OF e] obtain u where u: "t' = (t @ pre) @ u" "err = None \<longleftrightarrow> accepted A (t @ pre) u"
      "\<forall>r. RcptTo r \<in> set u \<longrightarrow> r \<in> set rs" "err = None \<longrightarrow> u = MailFrom from # map RcptTo rs @ [DataCmd, Content m, EndData, QuitCmd]" by blast
    have "accepted A t (pre @ u) = accepted A (t @ pre) u" unfolding accepted_append using not_accepted [OF pre(1)] by simp
    then show ?thesis using u pre by (intro exI [of _ "pre @ u"]) auto
  qed
  consider "\<not> A t (Connect addr)" | "A t (Connect addr)" "\<not> A (t @ [Connect addr]) Greeting"
    | "A t (Connect addr)" "A (t @ [Connect addr]) Greeting" "hello = []"
    | "A t (Connect addr)" "A (t @ [Connect addr]) Greeting" "hello \<noteq> []" "\<not> A (t @ [Connect addr, Greeting]) (Hello hello)"
    | "A t (Connect addr)" "A (t @ [Connect addr]) Greeting" "hello \<noteq> []" "A (t @ [Connect addr, Greeting]) (Hello hello)" by blast
  then show ?thesis
  proof cases
    case 1 then show ?thesis using assms by (intro exI [of _ "[Connect addr]"]) (auto simp: smtp_submit_def send_def)
  next
    case 2 then show ?thesis using assms by (intro exI [of _ "[Connect addr, Greeting]"]) (auto simp: smtp_submit_def send_def)
  next
    case 3
    then show ?thesis using assms by (intro step [of "[Connect addr, Greeting]"]) (simp_all add: smtp_submit_def send_def)
  next
    case 4
    then show ?thesis using assms by (intro exI [of _ "[Connect addr, Greeting, Hello hello]"]) (auto simp: smtp_submit_def send_def)
  next
    case 5
    then show ?thesis using assms by (intro step [of "[Connect addr, Greeting, Hello hello]"]) (simp_all add: smtp_submit_def send_def)
  qed
qed

lemma those_Some: "those xs = Some ys \<Longrightarrow> xs = map Some ys"
  by (induction xs arbitrary: ys) (auto split: option.splits)


lemma Submit_recipients:
  assumes "Submit L A R sender rs m t = (err, t')"
  shows "\<exists>u. t' = t @ u \<and> (\<forall>r. RcptTo r \<in> set u \<longrightarrow> (\<exists>a\<in>set rs. lb_parse L a = Some r))"
proof -
  consider "t' = t" | origin canonical where "those (map (lb_parse L) rs) = Some canonical"
        "smtp_submit A (TrimSpace (sr_addr R)) (TrimSpace (sr_hello R)) origin canonical m t = (err, t')"
    using assms by (auto simp: Submit_def Let_def split: if_splits option.splits)
  then show ?thesis
  proof cases
    case 2
    have c: "map (lb_parse L) rs = map Some canonical" using 2(1) those_Some by blast
    have "\<exists>a\<in>set rs. lb_parse L a = Some r" if "r \<in> set canonical" for r
    proof -
      have "Some r \<in> set (map Some canonical)" using that by simp
      then show ?thesis unfolding c [symmetric] by auto
    qed
    then show ?thesis using smtp_submit_spec [OF 2(2)] by blast
  qed simp
qed

section \<open>Observed messages\<close>

lemma canonical_address_plain:
  assumes "canonical_address X a d"
  shows "plain_address a" and "ValidString a"
proof -
  obtain l where l: "a = l @ CHR ''@'' # d" "dot_atom l" "canonical_domain X d" using assms by (auto simp: canonical_address_def)
  have d: "dot_atom d" by (rule canonical_domain_dot_atom [OF l(3)])
  show "plain_address a" using plain_address_iff [OF d, of l] l by simp
  have "ValidString (l @ ''@'' @ d)"
    using l(2) d by (intro ValidString_append) (auto simp: dot_atom_def intro: ValidString_ascii)
  then show "ValidString a" using l(1) by simp
qed

lemma canonical_address_same:
  assumes X: "idna_lookup X" and "canonical_address X a d" and n: "normalizeQueueRecipient X a = Inr (c, e)"
  shows "c = a"
proof -
  obtain l where l: "a = l @ CHR ''@'' # d" "space_len (l @ ''@'') = 0" "canonical_domain X d"
    using assms(2) by (auto simp: canonical_address_def)
  have t: "TrimSpace a = a" using trimmed_address [OF l(2,3)] l(1) by (simp add: TrimSpace_trimmed)
  obtain l' dd where r: "a = l' @ CHR ''@'' # dd" "CHR ''@'' \<notin> set dd" "NormalizeDomain X dd = Inr e" "c = l' @ CHR ''@'' # e"
    using n normalizeQueueRecipient_iff [OF X] t by auto
  have "CHR ''@'' \<notin> set d" using l(3) ldh_dot_not_at by (simp add: canonical_domain_def)
  then have "split_last CHR ''@'' a = Some (l, d)" using l(1) by (simp add: split_last_Some_iff)
  moreover have "split_last CHR ''@'' a = Some (l', dd)" using r(1,2) by (simp add: split_last_Some_iff)
  ultimately have "l' = l" "dd = d" by simp_all
  then show ?thesis using r NormalizeDomain_fixed [OF l(3)] l(1) by simp
qed

lemma canonicalQueueRecipients_canonical:
  assumes X: "idna_lookup X" and "canonicalQueueRecipients X raw = Inr rs" and "a \<in> set rs"
  shows "\<exists>d. canonical_address X a d"
proof -
  obtain pairs where p: "map (normalizeQueueRecipient X) raw = map Inr pairs" and rs: "rs = sorted_set (map fst pairs)"
    using assms(2) by (auto simp: canonicalQueueRecipients_def mapR_Inr split: if_splits sum.splits)
  obtain d where "(a, d) \<in> set pairs" using assms(3) rs by (auto simp: sorted_set_def)
  then have "Inr (a, d) \<in> set (map (normalizeQueueRecipient X) raw)" unfolding p by simp
  then obtain r where "normalizeQueueRecipient X r = Inr (a, d)" by auto
  from normalizeQueueRecipient_canonical [OF X this] show ?thesis by blast
qed

lemma validLowerHex_text: "validLowerHexDigest s \<Longrightarrow> ValidString s"
  by (auto simp: validLowerHexDigest_def list_all_iff is_lower_hex_def intro!: ValidString_ascii)

lemma long_queue_text: "validLongQueueID q \<Longrightarrow> ValidString q"
proof -
  have z: "CHR ''z'' \<in> set long_queue_alphabet" "\<forall>c\<in>set long_queue_alphabet. byte c < 128" by code_simp+
  assume "validLongQueueID q"
  then have "set q \<subseteq> set long_queue_alphabet" using z(1) by (auto simp: validLongQueueID_regex sql_queue_id_check_def)
  then show ?thesis using z(2) by (auto intro!: ValidString_ascii)
qed

lemma observed_message:
  assumes X: "idna_lookup X" and "Inspect X b q p = (Inr m, p')"
  shows "qm_queue_id m = q" and "validLongQueueID q" and "\<And>a. a \<in> set (qm_recipients m) \<Longrightarrow> \<exists>d. canonical_address X a d"
    and "ValidString (qm_fingerprint m)" and "ValidString (qm_sender m)"
proof -
  obtain i ls where i: "inspectLines X i q ls None = Inr m" and q: "validLongQueueID q"
    using assms(2) by (auto simp: Inspect_def split: if_splits sum.splits prod.splits)
  show "validLongQueueID q" by (rule q)
  from inspectLines_Inr [OF i] obtain e where e: "e \<in> entries_of ls q" "queueMetadataFromEntry X i e = Inr m" by auto
  then show "qm_queue_id m = q" using queueMetadataFromEntry_Inr(1) [OF e(2)] by (auto simp: entries_of_def)
  from e(2) obtain sender rs where s: "normalizePostqueueSender X (pe_sender e) = Inr sender"
    and r: "canonicalQueueRecipients X (pe_recipients e) = Inr rs"
    and f: "QueueArrivalFingerprint X i (pe_queue_id e) (pe_arrival_time e) (pe_message_size e) sender rs = Inr (qm_fingerprint m)"
    and m: "qm_sender m = sender" "qm_recipients m = rs"
    by (auto simp: queueMetadataFromEntry_def Let_def split: if_splits sum.splits)
  show "a \<in> set (qm_recipients m) \<Longrightarrow> \<exists>d. canonical_address X a d" for a
    using canonicalQueueRecipients_canonical [OF X r] m by simp
  have "validLowerHexDigest (qm_fingerprint m)"
  proof -
    obtain vs where "digestStrings vs = qm_fingerprint m" using f by (auto simp: QueueArrivalFingerprint_def split: if_splits sum.splits)
    then show ?thesis using validLowerHexDigest_digestStrings by metis
  qed
  then show "ValidString (qm_fingerprint m)" by (rule validLowerHex_text)
  have "ValidString ''<>''" by code_simp
  moreover have "ValidString c" if "normalizeQueueRecipient X raw = Inr (c, d)" for raw c d
    using canonical_address_plain(2) [OF normalizeQueueRecipient_canonical [OF X that]] .
  ultimately show "ValidString (qm_sender m)"
    using s m by (auto simp: normalizePostqueueSender_def normalizeQueueSender_def split: if_splits sum.splits)
qed

section \<open>The contract of the gate\<close>

text \<open>
  What the gate relies on: \<open>core\<close> is the state that policy depends on, \<open>sent\<close> what the relay has been sent. Under \<open>calm\<close>, for a
  \<open>legible\<close> message, an admission is an admission of the core, and an \<open>ok\<close> for a recipient means that the core permits it and
  changes nothing.
\<close>

locale gate_contract =
  fixes G :: "'s Gate" and core :: "'s \<Rightarrow> 'c" and sent :: "'s \<Rightarrow> smtp_cmd list" and calm :: "'s \<Rightarrow> bool"
    and legible :: "QueueAdmissionRequest \<Rightarrow> bool"
    and admitted :: "QueueAdmissionRequest \<Rightarrow> 'c \<Rightarrow> 'c \<Rightarrow> bool" and permitted :: "'c \<Rightarrow> string \<Rightarrow> string \<Rightarrow> bool"
  assumes sent_inspect: "g_inspect G q s = (x, s') \<Longrightarrow> sent s' = sent s"
    and sent_register: "g_register G a s = (e, s') \<Longrightarrow> sent s' = sent s"
    and sent_decide: "g_decide G q r s = (y, s') \<Longrightarrow> sent s' = sent s"
    and sent_reconcile: "g_reconcile G q s = (e, s') \<Longrightarrow> sent s' = sent s"
    and inspect: "calm s \<Longrightarrow> g_inspect G q s = (x, s') \<Longrightarrow> calm s' \<and> core s' = core s"
    and register: "calm s \<Longrightarrow> legible a \<Longrightarrow> g_register G a s = (None, s') \<Longrightarrow> calm s' \<and> admitted a (core s) (core s')"
    and decide: "calm s \<Longrightarrow> legible a \<Longrightarrow> r \<in> set (qm_recipients (ad_metadata a)) \<Longrightarrow>
      g_decide G (qm_queue_id (ad_metadata a)) r s = (Inr d, s') \<Longrightarrow> dec_action d = ActionOK \<Longrightarrow>
      calm s' \<and> core s' = core s \<and> permitted (core s) (qm_queue_id (ad_metadata a)) r"
    and submit: "g_submit G f rs b s = (e, s') \<Longrightarrow> core s' = core s"
begin

lemma decideRecipients_sent: "decideRecipients G q rs s = (e, s') \<Longrightarrow> sent s' = sent s"
proof (induction rs arbitrary: s)
  case (Cons r rs)
  obtain y s1 where y: "g_decide G q r s = (y, s1)" by fastforce
  obtain x s2 where x: "g_reconcile G q s1 = (x, s2)" by fastforce
  have "sent s1 = sent s" "sent s2 = sent s1" by (rule sent_decide [OF y], rule sent_reconcile [OF x])
  then show ?case using Cons.prems y x Cons.IH [of s1] by (auto split: sum.splits if_splits option.splits)
qed simp

lemma decideRecipients_permitted:
  assumes "legible a"
  shows "decideRecipients G (qm_queue_id (ad_metadata a)) rs s = (None, s') \<Longrightarrow> calm s \<Longrightarrow> set rs \<subseteq> set (qm_recipients (ad_metadata a)) \<Longrightarrow>
    calm s' \<and> core s' = core s \<and> (\<forall>r\<in>set rs. permitted (core s) (qm_queue_id (ad_metadata a)) r)"
proof (induction rs arbitrary: s)
  case (Cons r rs)
  obtain d s1 where d: "g_decide G (qm_queue_id (ad_metadata a)) r s = (Inr d, s1)" "dec_action d = ActionOK"
    "decideRecipients G (qm_queue_id (ad_metadata a)) rs s1 = (None, s')"
    using Cons.prems(1) by (auto split: prod.splits sum.splits if_splits option.splits)
  have "r \<in> set (qm_recipients (ad_metadata a))" using Cons.prems(3) by simp
  then have "calm s1" "core s1 = core s" "permitted (core s) (qm_queue_id (ad_metadata a)) r"
    using decide [OF Cons.prems(2) assms _ d(1,2)] by auto
  then show ?case using Cons.IH [OF d(3)] Cons.prems(3) by simp
qed simp

lemma handed_over:
  assumes "calm s" and "Deliver (Some G) req msg s = (err, s')" and "sent s' \<noteq> sent s"
    and legible: "\<And>m s1. g_inspect G (dr_queue_id req) s = (Inr m, s1) \<Longrightarrow>
      legible \<lparr>ad_metadata = m, ad_deliveries = dr_deliveries req, ad_mailbox = dr_mailbox req, ad_system = dr_system req\<rparr>"
  shows "\<exists>m s1 s3 body. g_inspect G (dr_queue_id req) s = (Inr m, s1) \<and> \<not> qm_held m
    \<and> admitted \<lparr>ad_metadata = m, ad_deliveries = dr_deliveries req, ad_mailbox = dr_mailbox req, ad_system = dr_system req\<rparr> (core s) (core s')
    \<and> (\<forall>r\<in>set (qm_recipients m). permitted (core s') (qm_queue_id m) r)
    \<and> sent s3 = sent s \<and> g_submit G (qm_sender m) (qm_recipients m) body s3 = (err, s')
    \<and> body \<noteq> [] \<and> length body \<le> MaxMessageBytes"
proof -
  have d: "length (dr_deliveries req) \<noteq> 0" using assms(2,3) by (auto simp: Deliver_def)
  obtain m s1 where i: "g_inspect G (dr_queue_id req) s = (Inr m, s1)" and h: "\<not> qm_held m"
    using assms(2,3) d by (auto simp: Deliver_def sent_inspect split: sum.splits prod.splits if_splits)
  let ?a = "\<lparr>ad_metadata = m, ad_deliveries = dr_deliveries req, ad_mailbox = dr_mailbox req, ad_system = dr_system req\<rparr>"
  note s1 = sent_inspect [OF i] inspect [OF assms(1) i] and l = legible [OF i]
  obtain e s2 where r: "g_register G ?a s1 = (e, s2)" by fastforce
  note s2 = sent_register [OF r]
  have e: "e = None" using assms(2,3) d i h r s1 s2 by (cases e) (auto simp: Deliver_def)
  note c2 = register [of s1 ?a s2, OF _ l r [unfolded e]]
  obtain e3 s3 where dr: "decideRecipients G (qm_queue_id m) (qm_recipients m) s2 = (e3, s3)" by fastforce
  note s3 = decideRecipients_sent [OF dr]
  have e3: "e3 = None" using assms(2,3) d i h r e dr s1 s2 s3 by (cases e3) (auto simp: Deliver_def)
  have p: "calm s2 \<Longrightarrow> calm s3 \<and> core s3 = core s2 \<and> (\<forall>r\<in>set (qm_recipients m). permitted (core s2) (qm_queue_id m) r)"
    using decideRecipients_permitted [OF l, of "qm_recipients m" s2 s3] dr e3 by simp
  obtain body where b: "g_submit G (qm_sender m) (qm_recipients m) body s3 = (err, s')" "body \<noteq> []" "length body \<le> MaxMessageBytes"
    using assms(2,3) d i h r e dr e3 s1 s2 s3
    by (auto simp: Deliver_def split: option.splits if_splits)
  show ?thesis using i h c2 p s1 s2 s3 b submit [OF b(1)] by (intro exI [of _ m] exI [of _ s1] exI [of _ s3]) auto
qed

end

section \<open>The deployed gate\<close>

text \<open>The provenance with which the core admits a message: the stored record and what it was proved from.\<close>

definition proven :: "external \<Rightarrow> QueueAdmissionRequest \<Rightarrow> db \<Rightarrow> db \<Rightarrow> bool" where
  "proven X req db db' \<longleftrightarrow> (\<exists>authority canonical record r.
     (if ad_mailbox req = [] \<and> ad_system req = [] then authority = [] else authenticated X db (admission_request req) authority)
     \<and> mapR (canonicalDelivery X) (ad_deliveries req) = Inr canonical
     \<and> (\<forall>d\<in>set canonical. dl_original d \<noteq> dl_recipient d \<longrightarrow> dl_recipient d \<in> db_leaves X db (dl_original d))
     \<and> set (qr_recipients record) = dl_recipient ` set canonical
     \<and> set (qr_sources record) = set authority
         \<union> (\<Union>d\<in>{d \<in> set canonical. dl_original d \<noteq> dl_recipient d}. db_sources X db (dl_original d))
     \<and> qr_recipient_digest record = digestStrings (qr_recipients record)
     \<and> qr_source_digest record = digestSources (qr_sources record)
     \<and> sameQueueIdentity r record \<and> loadQueueRecord X db' (qm_queue_id (ad_metadata req)) = Inr r)"

lemma Admit_proven: "idna_lookup X \<Longrightarrow> still w \<Longrightarrow> Admit X req w = (Inr (r, created), w') \<Longrightarrow> proven X req (w_db w) (w_db w')"
  unfolding proven_def by (drule (2) Admit_Inr, elim exE, intro exI, assumption)

text \<open>What the stored record of a message says about a recipient: policy confines it under all sources of the message.\<close>

definition cleared :: "external \<Rightarrow> db \<Rightarrow> string \<Rightarrow> string \<Rightarrow> bool" where
  "cleared X db q a \<longleftrightarrow>
     (\<exists>r c d. loadQueueRecord X db q = Inr r \<and> normalizeQueueRecipient X a = Inr (c, d) \<and> confined X db (set (qr_sources r)) c)"

lemma call_sent: "call J (core_http X L D) stamp token path input privileged s = (x, s') \<Longrightarrow> snd s' = snd s"
  by (auto simp: call_def core_http_def split: option.splits prod.splits if_splits)

lemma utf8_parts:
  assumes "utf8_admission a"
  shows "ValidString (qm_queue_id (ad_metadata a))" and "r \<in> set (qm_recipients (ad_metadata a)) \<Longrightarrow> ValidString r"
  using assms by (auto simp: utf8_admission_def list_all_iff)

interpretation deployed: gate_contract "site_gate X L J D" "\<lambda>s. w_db (fst s)" snd
  "\<lambda>s. alone (fst s) \<and> json_exact J \<and> idna_lookup X" utf8_admission "proven X" "cleared X" for X L J D
proof unfold_locales
  let ?G = "site_gate X L J D" and ?calm = "\<lambda>s. alone (fst s) \<and> json_exact J \<and> idna_lookup X"
  fix q s x s' a e r y f rs b d
  show "snd s' = snd s" if "g_inspect ?G q s = (x, s')" using that by (auto simp: site_gate_def split: prod.splits)
  show "snd s' = snd s" if "g_register ?G a s = (e, s')"
    using that by (auto simp: site_gate_def controlRegister_def split: prod.splits sum.splits if_splits dest: call_sent)
  show "snd s' = snd s" if "g_decide ?G q r s = (y, s')"
    using that by (auto simp: site_gate_def controlDecide_def split: prod.splits sum.splits if_splits dest: call_sent)
  show "snd s' = snd s" if "g_reconcile ?G q s = (e, s')"
    using that by (auto simp: site_gate_def controlReconcile_def split: prod.splits sum.splits if_splits dest: call_sent)
  show "?calm s' \<and> w_db (fst s') = w_db (fst s)" if "?calm s" and "g_inspect ?G q s = (x, s')"
    using that by (auto simp: site_gate_def on_postfix_def alone_def split: prod.splits)
  show "?calm s' \<and> proven X a (w_db (fst s)) (w_db (fst s'))" if c: "?calm s" and u: "utf8_admission a" and g: "g_register ?G a s = (None, s')"
  proof -
    obtain w t where s: "s = (w, t)" by (cases s)
    obtain r created w1 where r: "s' = (w1, t)" "Admit X a w = (Inr (r, created), w1)"
      using controlRegister_None [of J a X L D "dp_stamp D \<circ> fst" "dp_token D" w t s'] c u g s by (auto simp: site_gate_def)
    have "alone w1" by (rule alone_guaranteed(1) [OF keeps_Admit [of X] _ r(2)]) (use c s in simp_all)
    then show ?thesis using c s r Admit_proven [OF _ alone_still r(2)] by simp
  qed
  show "?calm s' \<and> w_db (fst s') = w_db (fst s) \<and> cleared X (w_db (fst s)) (qm_queue_id (ad_metadata a)) r"
    if c: "?calm s" and u: "utf8_admission a" and m: "r \<in> set (qm_recipients (ad_metadata a))"
      and g: "g_decide ?G (qm_queue_id (ad_metadata a)) r s = (Inr d, s')" and ok: "dec_action d = ActionOK"
  proof -
    obtain w t where s: "s = (w, t)" by (cases s)
    obtain actor cid d' err w1 where w1: "s' = (w1, t)" "dec_action d' = ActionOK"
      and dec: "Decide X actor cid \<lparr>er_stage = StageTransport, er_queue_id = qm_queue_id (ad_metadata a), er_mailbox = [], er_system = [],
         er_envelope = [], er_recipient = r, er_sources = []\<rparr> w = ((d', err), w1)"
      using controlDecide_OK [of J "qm_queue_id (ad_metadata a)" r X L D "dp_stamp D \<circ> fst" "dp_token D" w t d s'] c g ok s
        utf8_parts [OF u] m by (auto simp: site_gate_def)
    have "alone w" using c s by simp
    from transport_OK_reads [OF this dec w1(2)] show ?thesis using c s w1(1) by (auto simp: cleared_def)
  qed
  show "w_db (fst s') = w_db (fst s)" if "g_submit ?G f rs b s = (e, s')"
    using that by (auto simp: site_gate_def split: prod.splits)
qed

lemma ValidString_Nil: "ValidString []" by code_simp

lemma AuthenticatedIdentity_text: "ValidString i \<Longrightarrow> AuthenticatedIdentity i = (mailbox, sysid) \<Longrightarrow> ValidString mailbox \<and> ValidString sysid"
  by (auto simp: AuthenticatedIdentity_def ValidString_Nil split: if_splits)

lemma deliveryAuthority_text:
  "deliveryAuthority i sy c = Inr (mailbox, sysid) \<Longrightarrow> ValidString i \<Longrightarrow> ValidString sy \<Longrightarrow> ValidString mailbox \<and> ValidString sysid"
  using AuthenticatedIdentity_text [of i mailbox sysid]
  by (auto simp: deliveryAuthority_def ValidString_Nil split: if_splits)

lemma delivery_legible:
  assumes X: "idna_lookup X" and "Inspect X b q p = (Inr m, p')"
    and "list_all ValidString (originals @ rcpts)" and "ValidString mailbox" and "ValidString sysid"
  shows "utf8_admission \<lparr>ad_metadata = m, ad_deliveries = map2 (\<lambda>a b. \<lparr>dl_original = a, dl_recipient = b\<rparr>) originals rcpts,
    ad_mailbox = mailbox, ad_system = sysid\<rparr>"
proof -
  note ob = observed_message [OF X assms(2)]
  have "list_all ValidString (qm_recipients m)" using ob(3) canonical_address_plain(2) by (auto simp: list_all_iff)
  moreover have "list_all (\<lambda>d. ValidString (dl_original d) \<and> ValidString (dl_recipient d))
      (map2 (\<lambda>a b. \<lparr>dl_original = a, dl_recipient = b\<rparr>) originals rcpts)"
    using assms(3) by (auto simp: list_all_iff dest: set_zip_leftD set_zip_rightD)
  ultimately show ?thesis using ob(1,4,5) long_queue_text [OF ob(2)] assms(4,5) by (simp add: utf8_admission_def)
qed

lemma addressFlags_Inr: "addressFlags s vs = Inr s' \<Longrightarrow> s' = s @ vs"
  by (induction vs arbitrary: s) (fastforce simp: stringListSet_def split: if_splits)+

lemma runDelivery_hands:
  assumes "runDelivery X L J E H q identity systemSender clientAddress originals rcpts msg (w, t) = (err, (w', t'))" and "t' \<noteq> t"
  shows "\<exists>mailbox sysid token. deliveryAuthority identity systemSender clientAddress = Inr (mailbox, sysid)
    \<and> Deliver (Some (site_gate X L J (delivery_site E H token))) \<lparr>dr_queue_id = q, dr_mailbox = mailbox, dr_system = sysid,
      dr_deliveries = map2 (\<lambda>a b. \<lparr>dl_original = a, dl_recipient = b\<rparr>) originals rcpts\<rparr> msg (w, t) = (err, (w', t'))"
  using assms by (auto simp: runDelivery_def split: if_splits sum.splits dest!: addressFlags_Inr)

text \<open>C1: nothing reaches the relay unless policy allows it. If a run of the delivery command sends the relay anything, then the
  message stands in the Postfix queue and is not on hold, the core has admitted it with a proved provenance for exactly this
  authority and these deliveries, and every recipient named to the relay is a recipient of the queued message that the policy
  in force confines under all sources of the stored record. The session runs alone; requests and replies may be lost.\<close>

theorem runDelivery_confined:
  assumes X: "idna_lookup X" and J: "json_exact J" and L: "mail_parser L" and w: "alone w"
    and utf8: "list_all ValidString (identity # systemSender # originals @ rcpts)"
    and run: "runDelivery X L J E H q identity systemSender clientAddress originals rcpts msg (w, t) = (err, (w', t'))" and sent: "t' \<noteq> t"
  shows "\<exists>m p' adm u. Inspect X (delivery_boundary E H) q (w_postfix w) = (Inr m, p') \<and> \<not> qm_held m
    \<and> ad_metadata adm = m \<and> ad_deliveries adm = map2 (\<lambda>a b. \<lparr>dl_original = a, dl_recipient = b\<rparr>) originals rcpts
    \<and> deliveryAuthority identity systemSender clientAddress = Inr (ad_mailbox adm, ad_system adm)
    \<and> proven X adm (w_db w) (w_db w') \<and> t' = t @ u
    \<and> (\<forall>a. RcptTo a \<in> set u \<longrightarrow> a \<in> set (qm_recipients m)
         \<and> (\<exists>r. loadQueueRecord X (w_db w') q = Inr r \<and> confined X (w_db w') (set (qr_sources r)) a))"
proof -
  obtain mailbox sysid token where au: "deliveryAuthority identity systemSender clientAddress = Inr (mailbox, sysid)"
    and d0: "Deliver (Some (site_gate X L J (delivery_site E H token))) \<lparr>dr_queue_id = q, dr_mailbox = mailbox, dr_system = sysid,
      dr_deliveries = map2 (\<lambda>a b. \<lparr>dl_original = a, dl_recipient = b\<rparr>) originals rcpts\<rparr> msg (w, t) = (err, (w', t'))"
    using runDelivery_hands [OF run sent] by blast
  define D where "D = delivery_site E H token"
  have bd: "dp_boundary D = delivery_boundary E H" by (simp add: D_def delivery_site_def)
  let ?del = "map2 (\<lambda>a b. \<lparr>dl_original = a, dl_recipient = b\<rparr>) originals rcpts" and ?G = "site_gate X L J D"
  note d = d0 [folded D_def]
  have texts: "ValidString mailbox" "ValidString sysid" using deliveryAuthority_text [OF au] utf8 by simp_all
  have insp: "g_inspect ?G q (w, t) = (Inr m, s1) \<Longrightarrow> \<exists>p'. Inspect X (dp_boundary D) q (w_postfix w) = (Inr m, p')" for m s1
    by (auto simp: site_gate_def on_postfix_def split: prod.splits)
  have leg: "utf8_admission \<lparr>ad_metadata = m, ad_deliveries = ?del, ad_mailbox = mailbox, ad_system = sysid\<rparr>"
    if g: "g_inspect ?G q (w, t) = (Inr m, s1)" for m s1
  proof -
    obtain p' where "Inspect X (dp_boundary D) q (w_postfix w) = (Inr m, p')" using insp [OF g] by blast
    then show ?thesis by (rule delivery_legible [OF X _ _ texts]) (use utf8 in simp)
  qed
  obtain m s1 s3 body where i: "g_inspect ?G q (w, t) = (Inr m, s1)" "\<not> qm_held m"
    and p: "proven X \<lparr>ad_metadata = m, ad_deliveries = ?del, ad_mailbox = mailbox, ad_system = sysid\<rparr> (w_db w) (w_db w')"
    and c: "\<forall>r\<in>set (qm_recipients m). cleared X (w_db w') (qm_queue_id m) r"
    and sub: "snd s3 = t" "g_submit ?G (qm_sender m) (qm_recipients m) body s3 = (err, (w', t'))"
    using deployed.handed_over [OF _ d] w J X sent leg by auto
  obtain p' where p': "Inspect X (dp_boundary D) q (w_postfix w) = (Inr m, p')" using insp [OF i(1)] by blast
  note ob = observed_message [OF X p']
  have "Submit L (dp_server D) (dp_relay D) (qm_sender m) (qm_recipients m) body t = (err, t')"
    using sub by (auto simp: site_gate_def split: prod.splits)
  from Submit_recipients [OF this] obtain u where u: "t' = t @ u" "\<forall>r. RcptTo r \<in> set u \<longrightarrow> (\<exists>a\<in>set (qm_recipients m). lb_parse L a = Some r)"
    by blast
  have "a \<in> set (qm_recipients m) \<and> (\<exists>r. loadQueueRecord X (w_db w') q = Inr r \<and> confined X (w_db w') (set (qr_sources r)) a)"
    if "RcptTo a \<in> set u" for a
  proof -
    obtain b where b: "b \<in> set (qm_recipients m)" "lb_parse L b = Some a" using u(2) \<open>RcptTo a \<in> set u\<close> by blast
    obtain e where e: "canonical_address X b e" using ob(3) [OF b(1)] by blast
    then have "a = b" using canonical_address_plain(1) [OF e] L b(2) by (auto simp: mail_parser_def)
    then show ?thesis using c b(1) canonical_address_same [OF X e] ob(1) by (auto simp: cleared_def)
  qed
  then show ?thesis using p' i(2) au p u(1) unfolding bd
    by (intro exI [of _ m] exI [of _ p'] exI [of _ "\<lparr>ad_metadata = m, ad_deliveries = ?del, ad_mailbox = mailbox, ad_system = sysid\<rparr>"] exI [of _ u]) simp
qed

section \<open>Witnesses\<close>

text \<open>A site where mail from \<open>a@x.io\<close> to itself waits in the Postfix queue, the network works and the relay accepts everything.\<close>

definition post_entry :: postqueueEntry where
  "post_entry = \<lparr>pe_queue_name = ''active'', pe_queue_id = mail_queue_id, pe_arrival_time = 1700000000, pe_message_size = 512,
     pe_sender = ''a@x.io'', pe_recipients = [''a@x.io'']\<rparr>"

definition post_print :: string where
  "post_print = digestStrings (arrival_values ''mx.example.com'' mail_queue_id 1700000000 512 ''a@x.io'' [''a@x.io''])"

definition post_metadata :: QueueMetadata where
  "post_metadata = (mail_metadata ''a@x.io'' False)\<lparr>qm_fingerprint := post_print\<rparr>"

definition post_record :: QueueRecord where
  "post_record = (mail_record ''a@x.io'')\<lparr>qr_fingerprint := post_print\<rparr>"

definition post_db :: db where
  "post_db = stored_rows ascii_external post_record 1000 mail_db"

lemma post_normalizes:
  "normalizeQueueRegistration ascii_external ((mail_registration ''a@x.io'')\<lparr>qreg_fingerprint := post_print\<rparr>) = Inr post_record"
  unfolding normalizeQueueRegistration_Inr
  using mail_texts graph_addresses(4)
  by (auto simp: mail_registration_def mail_record_def post_record_def queue_limits sorted_set_def post_print_def
      intro!: exI [of _ "[(''a@x.io'', ''x.io'')]"])

lemma post_stored:
  "register_tx ascii_external post_record 1000 mail_db = Inr ((post_record\<lparr>qr_first_seen := 1000, qr_updated := 1000\<rparr>, True), post_db)"
  "loadQueueRecord ascii_external post_db mail_queue_id = Inr (post_record\<lparr>qr_first_seen := 1000, qr_updated := 1000\<rparr>)"
proof -
  note ci = normalizeQueueRegistration_canonical [OF ascii_external_idna post_normalizes]
  note init = normalizeQueueRegistration_init [OF post_normalizes]
  have st: "storable ascii_external post_record"
    by (simp add: storable_def post_record_def mail_record_def ascii_external_def maxEnvelopeRecipientBytes_def)
  have q: "qr_queue_id post_record = mail_queue_id" by (simp add: post_record_def mail_record_def)
  show "register_tx ascii_external post_record 1000 mail_db = Inr ((post_record\<lparr>qr_first_seen := 1000, qr_updated := 1000\<rparr>, True), post_db)"
    unfolding post_db_def by (rule register_tx_fresh [OF ascii_external_idna ascii_bytewise ci st _ mail_db_queue init(1-5)]) simp
  show "loadQueueRecord ascii_external post_db mail_queue_id = Inr (post_record\<lparr>qr_first_seen := 1000, qr_updated := 1000\<rparr>)"
    using load_stored_rows [OF ascii_external_idna ascii_bytewise ci st _ mail_db_queue init(1-5), of 1000]
    unfolding q post_db_def by simp
qed

definition post_admission :: QueueAdmissionRequest where
  "post_admission = mail_admission\<lparr>ad_metadata := post_metadata\<rparr>"

abbreviation post_world :: "unit world" where
  "post_world \<equiv> (sample_world mail_db)\<lparr>w_count := 3, w_db := post_db\<rparr>"

lemma post_admit:
  "Admit ascii_external post_admission (sample_world mail_db)
     = (Inr (post_record\<lparr>qr_first_seen := 1000, qr_updated := 1000\<rparr>, True), post_world)"
proof -
  have "Register ascii_external ((mail_registration ''a@x.io'')\<lparr>qreg_fingerprint := post_print\<rparr>) ((sample_world mail_db)\<lparr>w_count := 2\<rparr>)
      = (Inr (post_record\<lparr>qr_first_seen := 1000, qr_updated := 1000\<rparr>, True), post_world)"
    using post_stored(1) post_normalizes by (simp add: Register_def run_tx_def Let_def sample_world_def quiet_def)
  then show ?thesis
    by (simp add: Admit_def post_admission_def mail_admission_def post_metadata_def mail_metadata_def mail_deliveries admitAuthority_def
        mail_sources Let_def mail_registration_def maxQueueRecipients_def)
qed

lemma post_tables:
  "mailboxes post_db = mailboxes mail_db" "aliases post_db = aliases mail_db" "senders post_db = senders mail_db"
  "domains post_db = domains mail_db"
  by (simp_all add: post_db_def stored_rows_def)

lemma post_decide:
  assumes "validPolicyCorrelationID c"
  shows "\<exists>w'. Decide ascii_external admin c \<lparr>er_stage = StageTransport, er_queue_id = mail_queue_id, er_mailbox = [], er_system = [],
      er_envelope = [], er_recipient = ''a@x.io'', er_sources = []\<rparr> post_world
    = ((\<lparr>dec_action = ActionOK, dec_reason = ReasonSameDomain, dec_revisions = [(''x.io'', 4)]\<rparr>, None), w')"
proof -
  have ld: "Load ascii_external mail_queue_id post_world
      = (Inr (post_record\<lparr>qr_first_seen := 1000, qr_updated := 1000\<rparr>), post_world\<lparr>w_count := 4\<rparr>)"
    using post_stored(2) by (simp add: Load_def mail_texts run_query_def sample_world_def quiet_def Let_def)
  have pol: "policy_row post_db s = policy_row mail_db s" for s unfolding policy_row_def source_owner_def post_tables ..
  have res: "resolvePolicySources ascii_external mail_authority ((sample_world mail_db)\<lparr>w_db := post_db, w_count := 4\<rparr>)
     = (Inr [mail_governing, mail_governing], (sample_world mail_db)\<lparr>w_db := post_db, w_count := 5\<rparr>)"
    by (simp add: resolvePolicySources_def pol mail_policy mail_rows run_query_def Let_def sample_world_def quiet_def maxQueueSources_def)
  have c: "sortedStringContains [''a@x.io''] ''a@x.io''" by code_simp
  have f: "qr_recipients (post_record\<lparr>qr_first_seen := n, qr_updated := n\<rparr>) = [''a@x.io'']" "qr_sources (post_record\<lparr>qr_first_seen := n, qr_updated := n\<rparr>) = mail_authority" "qr_queue_id (post_record\<lparr>qr_first_seen := n, qr_updated := n\<rparr>) = mail_queue_id" for n
    by (simp_all add: post_record_def mail_record_def)
  show ?thesis
    using assms by (simp add: Decide_def decideTransport_def ld graph_addresses f c res held_evaluate Let_def)
qed

definition post_libs :: libs where
  "post_libs = \<lparr>lb_parse = (\<lambda>s. if plain_address s then Some s else None), lb_pbkdf2 = (\<lambda>secret salt i n. replicate n CHR ''k'')\<rparr>"

definition post_wire :: wire where
  "post_wire = \<lparr>jw_request = (\<lambda>input.
     let none = \<lparr>as_sender = None, as_enforcement = None, as_admission = None, as_queue = None, as_release = None, as_passdb = None,
       as_quota = None, as_domain = None, as_rate_sender = None\<rparr> in
     case input of RegisterInput a \<Rightarrow> Some (none\<lparr>as_admission := Some a\<rparr>) | DecideInput e \<Rightarrow> Some (none\<lparr>as_enforcement := Some e\<rparr>)
       | ReconcileInput q \<Rightarrow> Some (none\<lparr>as_queue := Some q\<rparr>)), jw_reply = Some\<rparr>"

abbreviation post_token :: string where "post_token \<equiv> replicate 32 CHR ''k''"

definition post_service :: "unit Service" where
  "post_service = \<lparr>sv_unavailable = False, sv_domains = [], sv_mailboxes = [], sv_aliases = [], sv_rate_limits = [], sv_verifiers = [],
     sv_audit = None, sv_policy = Some admin, sv_admission = True, sv_reconciler = None, sv_release = None,
     sv_helper_token = sha256 post_token, sv_helper_enabled = True, sv_release_token = [], sv_release_enabled = False\<rparr>"

definition post_env :: gate_env where
  "post_env = \<lparr>ge_token = \<lparr>se_direct = [], se_path = ''/run/secrets/token'', se_file = Some \<lparr>rd_bytes = post_token @ [CHR 0x0A], rd_error = False\<rparr>\<rparr>,
     ge_url = Some \<lparr>pu_scheme = ''http'', pu_host = ''core:8080'', pu_user = False, pu_path = [], pu_query = [], pu_fragment = []\<rparr>,
     ge_instance = ''mx.example.com'', ge_relay = ''relay:25''\<rparr>"

definition post_host :: "unit host" where
  "post_host = \<lparr>ht_service = post_service,
     ht_runner = (\<lambda>path args limit p.
        (Inr \<lparr>co_length = 200, co_lines = [\<lparr>pl_length = 199, pl_blank = False, pl_entry = Some post_entry\<rparr>]\<rparr>, p)),
     ht_server = (\<lambda>t c. True), ht_stamp = (\<lambda>w. ''t''), ht_rnd = (\<lambda>w k. None), ht_net = (\<lambda>r w. Delivered)\<rparr>"

definition post_site :: "unit deployment" where
  "post_site = delivery_site post_env post_host post_token"

lemma post_site_fields:
  "dp_service post_site = post_service" "dp_boundary post_site = delivery_boundary post_env post_host" "dp_server post_site = (\<lambda>t c. True)"
  "dp_token post_site = post_token" "dp_stamp post_site = (\<lambda>w. ''t'')" "dp_rnd post_site = (\<lambda>w k. None)"
  "dp_net post_site = (\<lambda>r w. Delivered)"
  by (simp_all add: post_site_def delivery_site_def post_host_def)

lemma post_inspect: "Inspect ascii_external (delivery_boundary post_env post_host) mail_queue_id p = (Inr post_metadata, p)"
proof -
  have n: "NormalizeDomain ascii_external ''mx.example.com'' = Inr ''mx.example.com''"
    "normalizePostqueueSender ascii_external ''a@x.io'' = Inr ''a@x.io''"
    "canonicalQueueRecipients ascii_external [''a@x.io''] = Inr [''a@x.io'']"
    "validPostfixPath ''/usr/sbin/postqueue'' ''postqueue''" "TrimSpace ''mx.example.com'' = ''mx.example.com''"
    by code_simp+
  have "queueMetadataFromEntry ascii_external ''mx.example.com'' post_entry = Inr post_metadata"
    by (simp add: queueMetadataFromEntry_def QueueArrivalFingerprint_def post_entry_def post_metadata_def mail_metadata_def post_print_def n
        mail_texts)
  moreover have "pe_queue_id post_entry = mail_queue_id" by (simp add: post_entry_def)
  ultimately show ?thesis
    by (simp add: Inspect_def delivery_boundary_def post_env_def post_host_def n mail_texts outputLimit_def defaultPostfixOutputBytes_def maxPostqueueJSONLineBytes_def
        maxPostfixOutputBytes_def)
qed

lemma post_hypotheses: "json_exact post_wire" "mail_parser post_libs" "key_derivation post_libs"
  by (simp_all add: json_exact_def post_wire_def mail_parser_def post_libs_def key_derivation_def Let_def)

lemma post_authorized:
  "hq_auth r = ''Bearer '' @ post_token \<Longrightarrow> authorizePostfixHelper post_service r"
  by (simp add: authorizePostfixHelper_def authorizePostfixToken_def post_service_def HasPrefix_def TrimPrefix_def)

definition empty_body :: request_body where
  "empty_body = \<lparr>as_sender = None, as_enforcement = None, as_admission = None, as_queue = None, as_release = None, as_passdb = None,
     as_quota = None, as_domain = None, as_rate_sender = None\<rparr>"

lemma post_wire_inputs:
  "jw_request post_wire (RegisterInput a) = Some (empty_body\<lparr>as_admission := Some a\<rparr>)"
  "jw_request post_wire (DecideInput e) = Some (empty_body\<lparr>as_enforcement := Some e\<rparr>)"
  "jw_reply post_wire r = Some r"
  by (simp_all add: post_wire_def empty_body_def Let_def)

lemma post_call:
  assumes "serve ascii_external post_libs post_service (\<lambda>k. None) \<lparr>hq_method = ''POST'', hq_path = path,
      hq_auth = (if privileged then ''Bearer '' @ post_token else []), hq_correlation = ''postfix-gate:t'', hq_body = body\<rparr> w
      = (write_response r, w1)"
    and "jw_request post_wire input = Some body"
  shows "call post_wire (core_http ascii_external post_libs post_site) (dp_stamp post_site \<circ> fst) (dp_token post_site) path input privileged (w, u)
      = (Inr r, (w1, u))"
  using assms by (simp add: call_def core_http_def post_site_fields post_wire_inputs write_response_def)

lemma post_register:
  "g_register (site_gate ascii_external post_libs post_wire post_site) post_admission (sample_world mail_db, u) = (None, (post_world, u))"
proof -
  let ?path = "''/internal/v1/postfix/queue/register''"
  define rq where "rq = \<lparr>hq_method = ''POST'', hq_path = ?path, hq_auth = ''Bearer '' @ post_token,
      hq_correlation = ''postfix-gate:t'', hq_body = empty_body\<lparr>as_admission := Some post_admission\<rparr>\<rparr>"
  have rq: "hq_path rq = ?path" "hq_correlation rq = ''postfix-gate:t''" "as_admission (hq_body rq) = Some post_admission"
    "hq_method rq = ''POST''"
    by (simp_all add: rq_def)
  have ok: "authorizePostfixHelper post_service rq" by (rule post_authorized) (simp add: rq_def)
  have "serve ascii_external post_libs post_service (\<lambda>k. None) rq (sample_world mail_db)
      = (write_response (resp None ''postfix-gate:t'' DOK ''outbound_queue_registered''), post_world)"
    unfolding serve_register [OF rq(1)] guarded_route_def post_route_def PostfixQueueAdmission_def rq
    using ok post_admit by (simp add: post_service_def)
  then have "call post_wire (core_http ascii_external post_libs post_site) (dp_stamp post_site \<circ> fst) (dp_token post_site) ?path
      (RegisterInput post_admission) True (sample_world mail_db, u)
      = (Inr (resp None ''postfix-gate:t'' DOK ''outbound_queue_registered''), (post_world, u))"
    by (intro post_call [OF _ post_wire_inputs(1)]) (simp add: rq_def)
  then show ?thesis by (simp add: site_gate_def controlRegister_def)
qed

lemma post_decides:
  "\<exists>w'. g_decide (site_gate ascii_external post_libs post_wire post_site) mail_queue_id ''a@x.io'' (post_world, u)
    = (Inr \<lparr>dec_action = ActionOK, dec_reason = ReasonSameDomain, dec_revisions = [(''x.io'', 4)]\<rparr>, (w', u))"
proof -
  let ?path = "''/internal/v1/postfix/outbound-policy''"
  define e where "e = \<lparr>er_stage = StageTransport, er_queue_id = mail_queue_id, er_mailbox = [], er_system = [],
      er_envelope = [], er_recipient = ''a@x.io'', er_sources = []\<rparr>"
  define rq where "rq = \<lparr>hq_method = ''POST'', hq_path = ?path, hq_auth = [],
      hq_correlation = ''postfix-gate:t'', hq_body = empty_body\<lparr>as_enforcement := Some e\<rparr>\<rparr>"
  have rq: "hq_path rq = ?path" "hq_correlation rq = ''postfix-gate:t''" "as_enforcement (hq_body rq) = Some e"
    "hq_method rq = ''POST''"
    by (simp_all add: rq_def)
  have "validPolicyCorrelationID ''postfix-gate:t''" by code_simp
  then obtain w' where d: "Decide ascii_external admin ''postfix-gate:t'' e post_world
      = ((\<lparr>dec_action = ActionOK, dec_reason = ReasonSameDomain, dec_revisions = [(''x.io'', 4)]\<rparr>, None), w')"
    using post_decide unfolding e_def by blast
  let ?d = "\<lparr>dec_action = ActionOK, dec_reason = ReasonSameDomain, dec_revisions = [(''x.io'', 4)]\<rparr> :: Decision"
  have "serve ascii_external post_libs post_service (\<lambda>k. None) rq post_world
      = (write_response (outboundDecisionResponse None ''postfix-gate:t'' ?d), w')"
    unfolding serve_policy [OF rq(1)] post_route_def PostfixOutboundPolicy_def rq
    using d by (simp add: post_service_def)
  then have "call post_wire (core_http ascii_external post_libs post_site) (dp_stamp post_site \<circ> fst) (dp_token post_site) ?path
      (DecideInput e) False (post_world, u) = (Inr (outboundDecisionResponse None ''postfix-gate:t'' ?d), (w', u))"
    by (intro post_call [OF _ post_wire_inputs(2)]) (simp add: rq_def)
  then show ?thesis
    by (simp add: site_gate_def controlDecide_def e_def outboundDecisionResponse_def policy_reasons_def Let_def resp_def)
qed

definition post_session :: "smtp_cmd list" where
  "post_session = [Connect ''relay:25'', Greeting, Hello ''mx.example.com'', MailFrom ''a@x.io'', RcptTo ''a@x.io'', DataCmd, Content ''hello'', EndData,
     QuitCmd]"

lemma post_submit: "Submit post_libs (\<lambda>t c. True) (dp_relay post_site) ''a@x.io'' [''a@x.io''] ''hello'' [] = (None, post_session)"
proof -
  have "plain_address ''a@x.io''" "TrimSpace ''relay:25'' = ''relay:25''" "TrimSpace ''mx.example.com'' = ''mx.example.com''" by code_simp+
  then show ?thesis
    by (simp add: Submit_def post_site_def delivery_site_def post_env_def post_libs_def smtp_submit_def submitEnvelope_def submitData_def send_def post_session_def)
qed

lemma post_run:
  "\<exists>w'. runDelivery ascii_external post_libs post_wire post_env post_host mail_queue_id ''a@x.io'' [] [] [''a@x.io''] [''a@x.io'']
     \<lparr>rd_bytes = ''hello'', rd_error = False\<rparr> (sample_world mail_db, []) = (None, (w', post_session))"
proof -
  let ?G = "site_gate ascii_external post_libs post_wire post_site"
  have a: "deliveryAuthority ''a@x.io'' [] [] = Inr (''a@x.io'', [])" by code_simp
  have i: "g_inspect ?G mail_queue_id (sample_world mail_db, []) = (Inr post_metadata, (sample_world mail_db, []))"
    using post_inspect by (simp add: site_gate_def on_postfix_def post_site_fields sample_world_def)
  have m: "qm_queue_id post_metadata = mail_queue_id" "qm_recipients post_metadata = [''a@x.io'']" "qm_sender post_metadata = ''a@x.io''"
    "\<not> qm_held post_metadata"
    by (simp_all add: post_metadata_def mail_metadata_def)
  have ad: "\<lparr>ad_metadata = post_metadata, ad_deliveries = [\<lparr>dl_original = ''a@x.io'', dl_recipient = ''a@x.io''\<rparr>],
      ad_mailbox = ''a@x.io'', ad_system = []\<rparr> = post_admission"
    by (simp add: post_admission_def mail_admission_def)
  obtain w' where d: "g_decide ?G mail_queue_id ''a@x.io'' (post_world, [])
      = (Inr \<lparr>dec_action = ActionOK, dec_reason = ReasonSameDomain, dec_revisions = [(''x.io'', 4)]\<rparr>, (w', []))"
    using post_decides by blast
  then have d: "decideRecipients ?G mail_queue_id [''a@x.io''] (post_world, []) = (None, (w', []))" by simp
  have b: "read_limited \<lparr>rd_bytes = ''hello'', rd_error = False\<rparr> (MaxMessageBytes + 1) = Some ''hello''"
    "length ''hello'' \<le> MaxMessageBytes"
    by (simp_all add: read_limited_def MaxMessageBytes_def)
  have g: "g_submit ?G ''a@x.io'' [''a@x.io''] ''hello'' (w', []) = (None, (w', post_session))"
    using post_submit by (simp add: site_gate_def post_site_fields)
  have "Deliver (Some ?G) \<lparr>dr_queue_id = mail_queue_id, dr_mailbox = ''a@x.io'', dr_system = [],
      dr_deliveries = [\<lparr>dl_original = ''a@x.io'', dl_recipient = ''a@x.io''\<rparr>]\<rparr> \<lparr>rd_bytes = ''hello'', rd_error = False\<rparr> (sample_world mail_db, [])
      = (None, (w', post_session))"
    using b(2) by (simp only: Deliver_def option.case DeliveryRequest.simps i prod.case sum.case m ad post_register d b(1) if_False list.size
      simp_thms) (simp add: g)
  moreover have "helperToken post_env = Inr post_token"
    "NewHTTPController (ge_url post_env) post_token = Inr (the (ge_url post_env), post_token)" "TrimSpace (ge_instance post_env) \<noteq> []"
    "addressFlags [] [''a@x.io''] = Inr [''a@x.io'']"
    by code_simp+
  ultimately show ?thesis by (auto simp: runDelivery_def a post_site_def)
qed

theorem runDelivery_confined_witness:
  "\<exists>w'. runDelivery ascii_external post_libs post_wire post_env post_host mail_queue_id ''a@x.io'' [] [] [''a@x.io''] [''a@x.io'']
      \<lparr>rd_bytes = ''hello'', rd_error = False\<rparr> (sample_world mail_db, []) = (None, (w', post_session))
    \<and> (\<exists>r. loadQueueRecord ascii_external (w_db w') mail_queue_id = Inr r \<and> confined ascii_external (w_db w') (set (qr_sources r)) ''a@x.io'')"
proof -
  obtain w' where r: "runDelivery ascii_external post_libs post_wire post_env post_host mail_queue_id ''a@x.io'' [] [] [''a@x.io''] [''a@x.io'']
      \<lparr>rd_bytes = ''hello'', rd_error = False\<rparr> (sample_world mail_db, []) = (None, (w', post_session))"
    using post_run by blast
  have v: "list_all ValidString (''a@x.io'' # [] # [''a@x.io''] @ [''a@x.io''])" by code_simp
  have n: "post_session \<noteq> []" by (simp add: post_session_def)
  have c: "RcptTo ''a@x.io'' \<in> set post_session" by (simp add: post_session_def)
  show ?thesis
    using runDelivery_confined [OF ascii_external_idna post_hypotheses(1,2) _ v r n] r c
    by (auto simp: alone_def sample_world_def quiet_def)
qed


end
