(* ===== verification/Daemon_Facts.thy ===== *)
theory Daemon_Facts
  imports Gate_Facts
begin

text \<open>
  The mail daemon: accounts are kept as promised by every sequence of identity operations (locale \<open>account_store\<close>, interpreted on
  the service), who can log in, the round trip of password verifiers, and the separation of the two queue credentials.
\<close>

section \<open>Addresses\<close>

text \<open>Plain addresses in ASCII: they are stored in lower case and found in any case.\<close>

definition simple_address :: "string \<Rightarrow> bool" where
  "simple_address a \<longleftrightarrow> plain_address a \<and> list_all graph a"

lemma lower_graph: "graph (lower_char c) \<longleftrightarrow> graph c"
  by (auto simp: graph_def lower_char_def)

lemma lower_special: "byte d < 65 \<Longrightarrow> lower_char c = d \<longleftrightarrow> c = d"
  by (auto simp: lower_char_def)

lemma lower_dot: "lower_char c = CHR ''.'' \<longleftrightarrow> c = CHR ''.''" "lower_char c = CHR ''@'' \<longleftrightarrow> c = CHR ''@''"
  by (rule lower_special, simp)+

lemma lower_isAtext: "isAtext (lower_char c) \<longleftrightarrow> isAtext c"
  by (auto simp: isAtext_def lower_char_def)

lemma Contains_dots_lower: "Contains (ToLower s) ''..'' \<longleftrightarrow> Contains s ''..''"
proof (induction s)
  case (Cons c s)
  then show ?case by (cases s) (auto simp: ToLower_def HasPrefix_def lower_dot)
qed (simp add: ToLower_def)

lemma dot_atom_lower:
  assumes "dot_atom s" and "list_all graph s"
  shows "dot_atom (ToLower s)"
proof -
  have "ValidString (ToLower s)"
  proof (rule ValidString_ascii, rule ballI)
    fix c assume "c \<in> set (ToLower s)"
    then have "graph c" using assms(2) lower_graph by (auto simp: list_all_iff ToLower_def)
    then show "byte c < 128" by (simp add: graph_def)
  qed
  moreover have "HasPrefix (ToLower s) ''.'' = HasPrefix s ''.''" by (cases s) (auto simp: ToLower_def HasPrefix_def lower_dot)
  moreover have "HasSuffix (ToLower s) ''.'' = HasSuffix s ''.''"
    by (cases s rule: rev_cases) (auto simp: ToLower_def HasSuffix_def lower_dot)
  ultimately show ?thesis
    using assms(1) Contains_dots_lower [of s] by (auto simp: dot_atom_def list_all_iff ToLower_def lower_isAtext)
qed

lemma simple_lower: 
  assumes "simple_address a"
  shows "simple_address (ToLower a)"
proof -
  obtain l d where a: "a = l @ CHR ''@'' # d" "dot_atom l" "dot_atom d"
    using assms by (auto simp: simple_address_def plain_address_def split_first_Some_iff split: option.splits)
  have g: "list_all graph l" "list_all graph d" using assms a(1) by (auto simp: simple_address_def)
  have "ToLower a = ToLower l @ ''@'' @ ToLower d" using a(1) by (simp add: ToLower_def lower_char_def)
  then have "plain_address (ToLower a)"
    using plain_address_iff [OF dot_atom_lower [OF a(3) g(2)]] dot_atom_lower [OF a(2) g(1)] by simp
  moreover have "list_all graph (ToLower a)" using assms by (simp add: simple_address_def ToLower_def list_all_iff lower_graph)
  ultimately show ?thesis by (simp add: simple_address_def)
qed

lemma simple_normalize:
  assumes "mail_parser L" and "simple_address a"
  shows "normalizeAddress L a = ToLower a"
proof -
  have "a \<noteq> []" using assms(2) by (auto simp: simple_address_def plain_address_def split_first_Some_iff split: option.splits)
  then have "TrimSpace a = a" using assms(2) trimmed_graph by (intro TrimSpace_trimmed) (auto simp: simple_address_def list_all_iff)
  then show ?thesis using assms by (simp add: normalizeAddress_def mail_parser_def simple_address_def)
qed

section \<open>Accounts\<close>

text \<open>What the service promises about accounts: two maps from addresses, and what each identity operation does to them.\<close>

datatype identity_op = Upsert Mailbox | Remove string | Verifiers string "string list"

fun op_address :: "identity_op \<Rightarrow> string" where
  "op_address (Upsert m) = mx_address m"
| "op_address (Remove a) = a"
| "op_address (Verifiers a vs) = a"

fun apply_identity :: "libs \<Rightarrow> identity_op \<Rightarrow> 'p Service \<Rightarrow> 'p Service" where
  "apply_identity L (Upsert m) S = UpsertIdentityMailbox L m S"
| "apply_identity L (Remove a) S = DeleteIdentityMailbox L a S"
| "apply_identity L (Verifiers a vs) S = SetAppPasswordVerifiers L a vs S"

type_synonym accounts = "(string \<Rightarrow> Mailbox option) \<times> (string \<Rightarrow> string list)"

fun account_step :: "identity_op \<Rightarrow> accounts \<Rightarrow> accounts" where
  "account_step (Upsert m) (M, V) = (M(ToLower (mx_address m) \<mapsto> m\<lparr>mx_address := ToLower (mx_address m)\<rparr>), V)"
| "account_step (Remove a) (M, V) = (M(ToLower a := None), V(ToLower a := []))"
| "account_step (Verifiers a vs) (M, V) = (M, V(ToLower a := vs))"

definition accounts :: "'p Service \<Rightarrow> accounts" where
  "accounts S = (map_of (sv_mailboxes S), \<lambda>a. case map_of (sv_verifiers S) a of None \<Rightarrow> [] | Some vs \<Rightarrow> vs)"

text \<open>The keys of both tables are their own canonical form.\<close>

definition tidy :: "libs \<Rightarrow> 'p Service \<Rightarrow> bool" where
  "tidy L S \<longleftrightarrow> (\<forall>k\<in>fst ` set (sv_mailboxes S) \<union> fst ` set (sv_verifiers S). normalizeAddress L k = k)"

lemma find_tidy:
  assumes "\<forall>k\<in>fst ` set xs. normalizeAddress L k = k"
  shows "List.find (\<lambda>(k, _). normalizeAddress L k = a) xs = map_option (Pair a) (map_of xs a)"
  using assms by (induction xs) auto

lemma mailboxAuth_tidy:
  assumes "tidy L S"
  shows "mailboxAuth L S a = map_option (\<lambda>m. (m, snd (accounts S) (normalizeAddress L a))) (fst (accounts S) (normalizeAddress L a))"
proof -
  let ?a = "normalizeAddress L a"
  have "\<forall>k\<in>fst ` set (sv_mailboxes S). normalizeAddress L k = k" "\<forall>k\<in>fst ` set (sv_verifiers S). normalizeAddress L k = k"
    using assms by (auto simp: tidy_def)
  note f = find_tidy [OF this(1), of ?a] find_tidy [OF this(2), of ?a]
  show ?thesis by (simp add: mailboxAuth_def Let_def accounts_def f split: option.split list.split)
qed

lemma identity_step:
  assumes "mail_parser L" and "tidy L S" and "simple_address (op_address op)"
  shows "tidy L (apply_identity L op S)" and "accounts (apply_identity L op S) = account_step op (accounts S)"
proof -
  let ?a = "ToLower (op_address op)"
  have n: "normalizeAddress L (op_address op) = ?a" "normalizeAddress L ?a = ?a"
    using simple_normalize [OF assms(1,3)] simple_normalize [OF assms(1) simple_lower [OF assms(3)]] by simp_all
  show "tidy L (apply_identity L op S)"
    using assms(2) n
    by (cases op) (auto simp: tidy_def UpsertIdentityMailbox_def DeleteIdentityMailbox_def SetAppPasswordVerifiers_def Let_def
        AList.dom_update AList.delete_eq)
  show "accounts (apply_identity L op S) = account_step op (accounts S)"
    using n by (cases op) (auto simp: accounts_def UpsertIdentityMailbox_def DeleteIdentityMailbox_def SetAppPasswordVerifiers_def Let_def
        AList.update_conv' AList.delete_conv' split: option.split)
qed

locale account_store =
  fixes apply_op :: "identity_op \<Rightarrow> 's \<Rightarrow> 's" and view :: "'s \<Rightarrow> accounts" and ok :: "'s \<Rightarrow> bool" and lookup :: "'s \<Rightarrow> string \<Rightarrow> (Mailbox \<times> string list) option"
  assumes op_ok: "ok s \<Longrightarrow> simple_address (op_address op) \<Longrightarrow> ok (apply_op op s)"
    and op_view: "ok s \<Longrightarrow> simple_address (op_address op) \<Longrightarrow> view (apply_op op s) = account_step op (view s)"
    and lookup_view: "ok s \<Longrightarrow> simple_address a \<Longrightarrow> lookup s a = map_option (\<lambda>m. (m, snd (view s) (ToLower a))) (fst (view s) (ToLower a))"
begin

lemma run_view:
  assumes "ok s" and "list_all (\<lambda>op. simple_address (op_address op)) ops"
  shows "ok (fold apply_op ops s) \<and> view (fold apply_op ops s) = fold account_step ops (view s)"
  using assms by (induction ops arbitrary: s) (auto simp: op_ok op_view)

lemma run_lookup:
  assumes "ok s" and "list_all (\<lambda>op. simple_address (op_address op)) ops" and "simple_address a"
    and "fold account_step ops (view s) = (M, V)"
  shows "lookup (fold apply_op ops s) a = map_option (\<lambda>m. (m, V (ToLower a))) (M (ToLower a))"
  using run_view [OF assms(1,2)] lookup_view assms(3,4) by simp

end

interpretation service: account_store "apply_identity L" accounts "\<lambda>S. mail_parser L \<and> tidy L S" "mailboxAuth L" for L
proof unfold_locales
  fix S :: "'p Service" and op a
  assume "mail_parser L \<and> tidy L S"
  then show "mailboxAuth L S a = map_option (\<lambda>m. (m, snd (accounts S) (ToLower a))) (fst (accounts S) (ToLower a))" if "simple_address a"
    using mailboxAuth_tidy [of L S a] simple_normalize [OF _ that] by simp
qed (simp_all add: identity_step)

text \<open>C23: the service keeps accounts as promised. After any sequence of identity operations a look-up, in any case, finds exactly
  the mailbox and the verifiers that the last operations on its address left.\<close>

theorem identity_refines:
  assumes "mail_parser L" and "tidy L S" and "list_all (\<lambda>op. simple_address (op_address op)) ops" and "simple_address a"
    and "fold account_step ops (accounts S) = (M, V)"
  shows "mailboxAuth L (fold (apply_identity L) ops S) a = map_option (\<lambda>m. (m, V (ToLower a))) (M (ToLower a))"
  using assms by (intro service.run_lookup) auto

section \<open>Passwords\<close>

text \<open>A verifier opens with a secret: its four parts are well-formed, and its digest is the key derived from the secret.\<close>

definition opens :: "libs \<Rightarrow> string \<Rightarrow> string \<Rightarrow> bool" where
  "opens L v secret \<longleftrightarrow>
     (\<exists>its salt digest i. v = ''pbkdf2_sha256$'' @ its @ ''$'' @ salt @ ''$'' @ digest \<and> CHR ''$'' \<notin> set (its @ salt @ digest)
        \<and> Atoi its = Some i \<and> 1 \<le> i \<and> salt \<noteq> [] \<and> DecodeString StdEncoding digest = Some (lb_pbkdf2 L secret salt i 32))"

lemma Validate_None:
  "ValidateDjangoPBKDF2SHA256 v = None \<longleftrightarrow>
     (\<exists>its salt digest i key. split_on CHR ''$'' v = [''pbkdf2_sha256'', its, salt, digest] \<and> Atoi its = Some i \<and> 1 \<le> i \<and> salt \<noteq> []
        \<and> DecodeString StdEncoding digest = Some key \<and> length key = 32)"
  by (auto simp: ValidateDjangoPBKDF2SHA256_def split: list.splits option.splits)

lemma Verify_opens:
  assumes "key_derivation L"
  shows "VerifyDjangoPBKDF2SHA256 L v secret = None \<longleftrightarrow> opens L v secret"
proof -
  have "VerifyDjangoPBKDF2SHA256 L v secret = None \<longleftrightarrow>
     (\<exists>its salt digest i. split_on CHR ''$'' v = [''pbkdf2_sha256'', its, salt, digest] \<and> Atoi its = Some i \<and> 1 \<le> i \<and> salt \<noteq> []
        \<and> DecodeString StdEncoding digest = Some (lb_pbkdf2 L secret salt i 32))" (is "?L \<longleftrightarrow> ?R")
  proof
    assume ?L
    then have "ValidateDjangoPBKDF2SHA256 v = None" by (simp add: VerifyDjangoPBKDF2SHA256_def split: option.splits)
    then obtain its salt digest i key where v: "split_on CHR ''$'' v = [''pbkdf2_sha256'', its, salt, digest]" "Atoi its = Some i" "1 \<le> i"
      "salt \<noteq> []" "DecodeString StdEncoding digest = Some key" "length key = 32"
      by (auto simp: Validate_None)
    then show ?R using \<open>?L\<close> by (auto simp: VerifyDjangoPBKDF2SHA256_def Let_def split: option.splits if_splits)
  next
    assume ?R
    then obtain its salt digest i where v: "split_on CHR ''$'' v = [''pbkdf2_sha256'', its, salt, digest]" "Atoi its = Some i" "1 \<le> i"
      "salt \<noteq> []" "DecodeString StdEncoding digest = Some (lb_pbkdf2 L secret salt i 32)"
      by auto
    moreover have l: "length (lb_pbkdf2 L secret salt i 32) = 32" using assms v(3) by (simp add: key_derivation_def)
    ultimately have "ValidateDjangoPBKDF2SHA256 v = None" by (auto simp: Validate_None)
    then show ?L using v l by (simp add: VerifyDjangoPBKDF2SHA256_def Let_def)
  qed
  also have "?R \<longleftrightarrow> opens L v secret" unfolding opens_def split_on_parts by simp
  finally show ?thesis .
qed

lemma Make_parts:
  assumes "salt \<noteq> []" and "CHR ''$'' \<notin> set salt" and "1 \<le> i" and "i < 2 ^ 63"
  shows "split_on CHR ''$'' (MakeDjangoPBKDF2SHA256 L secret salt i)
      = [''pbkdf2_sha256'', FormatInt i, salt, EncodeToString StdEncoding (lb_pbkdf2 L secret salt i 32)]"
    and "Atoi (FormatInt i) = Some i"
    and "DecodeString StdEncoding (EncodeToString StdEncoding (lb_pbkdf2 L secret salt i 32)) = Some (lb_pbkdf2 L secret salt i 32)"
proof -
  have "CHR ''$'' \<notin> set (FormatInt i)" using assms(3) FormatUint_digits [of "CHR ''$''" "nat i"] by (auto simp: FormatInt_def)
  moreover have "CHR ''$'' \<notin> set (EncodeToString StdEncoding (lb_pbkdf2 L secret salt i 32))"
    using EncodeToString_plain [of StdEncoding] by (auto simp: b64_alphabet_def)
  ultimately show "split_on CHR ''$'' (MakeDjangoPBKDF2SHA256 L secret salt i)
      = [''pbkdf2_sha256'', FormatInt i, salt, EncodeToString StdEncoding (lb_pbkdf2 L secret salt i 32)]"
    unfolding split_on_parts using assms(2) by (simp add: MakeDjangoPBKDF2SHA256_def)
  show "Atoi (FormatInt i) = Some i" using assms(3,4) by (intro Atoi_FormatInt) auto
  show "DecodeString StdEncoding (EncodeToString StdEncoding (lb_pbkdf2 L secret salt i 32)) = Some (lb_pbkdf2 L secret salt i 32)"
    by (intro DecodeString_EncodeToString) (simp add: b64_alphabet_def)
qed

lemma Verify_Make_iff:
  assumes "key_derivation L" and "salt \<noteq> []" and "CHR ''$'' \<notin> set salt" and "1 \<le> i" and "i < 2 ^ 63"
  shows "ValidateDjangoPBKDF2SHA256 (MakeDjangoPBKDF2SHA256 L secret salt i) = None
    \<and> (VerifyDjangoPBKDF2SHA256 L (MakeDjangoPBKDF2SHA256 L secret salt i) secret' = None
       \<longleftrightarrow> lb_pbkdf2 L secret' salt i 32 = lb_pbkdf2 L secret salt i 32)"
proof -
  note m = Make_parts [OF assms(2-5)]
  have l: "length (lb_pbkdf2 L secret salt i 32) = 32" using assms(1,4) by (simp add: key_derivation_def)
  have v: "ValidateDjangoPBKDF2SHA256 (MakeDjangoPBKDF2SHA256 L secret salt i) = None"
    unfolding Validate_None using m l assms(2,4) by auto
  then show ?thesis using m l by (auto simp: VerifyDjangoPBKDF2SHA256_def Let_def)
qed

text \<open>C40: a verifier made from a secret is well-formed and opens exactly with the secrets from which the same key is derived.\<close>

theorem Verify_Make:
  assumes "key_derivation L" and "salt \<noteq> []" and "CHR ''$'' \<notin> set salt" and "1 \<le> i" and "i < 2 ^ 63"
  shows "ValidateDjangoPBKDF2SHA256 (MakeDjangoPBKDF2SHA256 L secret salt i) = None
    \<and> (VerifyDjangoPBKDF2SHA256 L (MakeDjangoPBKDF2SHA256 L secret salt i) secret' = None
       \<longleftrightarrow> lb_pbkdf2 L secret' salt i 32 = lb_pbkdf2 L secret salt i 32)"
  by (rule Verify_Make_iff [OF assms])

section \<open>Authentication\<close>

text \<open>Whether the use of a credential is recorded, if the service has an audit log.\<close>

definition recorded :: "libs \<Rightarrow> 'p Service \<Rightarrow> string option \<Rightarrow> string \<Rightarrow> PassdbRequest \<Rightarrow> string \<Rightarrow> 'p world \<Rightarrow> bool" where
  "recorded L S rnd c req method w \<longleftrightarrow>
     (case sv_audit S of None \<Rightarrow> True
      | Some write \<Rightarrow> fst (write (passdb_event L rnd c req method ''success'' []) w) = Inr ())"

text \<open>Who may log in: an enabled mailbox, with the secret of its own verifier or of one of at most eight app passwords.\<close>

definition may_log_in ::
  "libs \<Rightarrow> accounts \<Rightarrow> (string \<Rightarrow> bool) \<Rightarrow> PassdbRequest \<Rightarrow> bool"
where
  "may_log_in L A logged req \<longleftrightarrow>
     pr_protocol req \<in> {''imap'', ''submission''} \<and> \<not> oidc_token (pr_secret req)
     \<and> (\<exists>m. fst A (ToLower (pr_username req)) = Some m \<and> mx_enabled m
          \<and> (if opens L (mx_verifier m) (pr_secret req) then logged ''mailbox_password''
             else length (snd A (ToLower (pr_username req))) \<le> 8
               \<and> (\<exists>v\<in>set (snd A (ToLower (pr_username req))). opens L v (pr_secret req)) \<and> logged ''app_password''))"

lemma passdb_ok:
  assumes "key_derivation L" and "mailboxAuth L S (normalizeAddress L (pr_username req))
      = map_option (\<lambda>m. (m, V)) M"
  shows "rsp_decision (fst (DovecotPassdb L S rnd c req w)) = DOK \<longleftrightarrow>
     \<not> sv_unavailable S \<and> pr_protocol req \<in> {''imap'', ''submission''} \<and> \<not> oidc_token (pr_secret req)
     \<and> (\<exists>m. M = Some m \<and> mx_enabled m
          \<and> (if opens L (mx_verifier m) (pr_secret req) then recorded L S (rnd 0) c req ''mailbox_password'' w
             else length V \<le> 8 \<and> (\<exists>v\<in>set V. opens L v (pr_secret req)) \<and> recorded L S (rnd 0) c req ''app_password'' w))"
  unfolding DovecotPassdb_def assms(2) Verify_opens [OF assms(1)]
  by (auto simp: auditPassdb_def recorded_def MaxAppPasswordVerifiers_def list_ex_iff split: option.splits prod.splits sum.splits)

lemma identity_fields [simp]:
  "sv_unavailable (apply_identity L op S) = sv_unavailable S" "sv_audit (apply_identity L op S) = sv_audit S"
  "sv_helper_token (apply_identity L op S) = sv_helper_token S" "sv_release_token (apply_identity L op S) = sv_release_token S"
  "sv_helper_enabled (apply_identity L op S) = sv_helper_enabled S" "sv_release_enabled (apply_identity L op S) = sv_release_enabled S"
  by (cases op; simp add: UpsertIdentityMailbox_def DeleteIdentityMailbox_def SetAppPasswordVerifiers_def Let_def)+

lemma identity_run_fields:
  "sv_unavailable (fold (apply_identity L) ops S) = sv_unavailable S" "sv_audit (fold (apply_identity L) ops S) = sv_audit S"
  by (induction ops arbitrary: S) auto

text \<open>C11: after any sequence of identity operations Dovecot is told that a user is authenticated exactly if the accounts these
  operations left let the user log in with this secret, the secret is not an OIDC token, and the use of the credential has been
  written to the audit log.\<close>

theorem DovecotPassdb_correct:
  assumes "mail_parser L" and "key_derivation L" and "tidy L S" and "list_all (\<lambda>op. simple_address (op_address op)) ops"
    and "simple_address (pr_username req)"
  shows "rsp_decision (fst (DovecotPassdb L (fold (apply_identity L) ops S) rnd c req w)) = DOK \<longleftrightarrow>
     \<not> sv_unavailable S
     \<and> may_log_in L (fold account_step ops (accounts S)) (\<lambda>method. recorded L S (rnd 0) c req method w) req"
proof -
  obtain M V where mv: "fold account_step ops (accounts S) = (M, V)" by fastforce
  let ?u = "pr_username req"
  have n: "normalizeAddress L ?u = ToLower ?u" using simple_normalize [OF assms(1,5)] .
  have "mailboxAuth L (fold (apply_identity L) ops S) (normalizeAddress L ?u) = map_option (\<lambda>m. (m, V (ToLower ?u))) (M (ToLower ?u))"
    using service.run_lookup [OF conjI [OF assms(1,3)] assms(4) simple_lower [OF assms(5)] mv] unfolding n by simp
  from passdb_ok [OF assms(2) this, of rnd c w]
  show ?thesis by (simp add: mv may_log_in_def recorded_def identity_run_fields)
qed

section \<open>Credentials of the queue routes\<close>

text \<open>Services made by configuring tokens, in any order and any number of times, and by identity operations.\<close>

inductive configured :: "'p Service \<Rightarrow> bool" where
  fresh: "\<not> sv_helper_enabled S \<Longrightarrow> \<not> sv_release_enabled S \<Longrightarrow> configured S"
| helper: "configured S \<Longrightarrow> ConfigurePostfixHelperToken token S = Inr S' \<Longrightarrow> configured S'"
| release: "configured S \<Longrightarrow> ConfigurePostfixReleaseToken token S = Inr S' \<Longrightarrow> configured S'"
| identity: "configured S \<Longrightarrow> configured (apply_identity L op S)"

lemma configured_distinct:
  "configured S \<Longrightarrow> sv_helper_enabled S \<Longrightarrow> sv_release_enabled S \<Longrightarrow> sv_helper_token S \<noteq> sv_release_token S"
  by (induction rule: configured.induct)
    (auto simp: ConfigurePostfixHelperToken_def ConfigurePostfixReleaseToken_def split: if_splits)

lemma one_credential:
  assumes "configured S" and "hq_auth r = hq_auth r'"
  shows "\<not> (authorizePostfixHelper S r \<and> authorizePostfixRelease S r')"
  using configured_distinct [OF assms(1)] assms(2)
  by (auto simp: authorizePostfixHelper_def authorizePostfixRelease_def authorizePostfixToken_def split: if_splits)

definition helper_paths :: "string list" where
  "helper_paths = [''/internal/v1/postfix/queue/register'', ''/internal/v1/postfix/queue/reconcile'', ''/internal/v1/postfix/queue/diagnostic'']"

definition release_paths :: "string list" where
  "release_paths = [''/internal/v1/postfix/queue/release-preview'', ''/internal/v1/postfix/queue/release'']"

lemma helper_refused:
  "hq_path r \<in> set helper_paths \<Longrightarrow> hq_method r = ''POST'' \<Longrightarrow> \<not> authorizePostfixHelper S r \<Longrightarrow> serve X L S rnd r w = (status_only 401, w)"
  by (auto simp: helper_paths_def serve_def serve_queue_def guarded_route_def Let_def)

lemma release_refused:
  "hq_path r \<in> set release_paths \<Longrightarrow> hq_method r = ''POST'' \<Longrightarrow> \<not> authorizePostfixRelease S r \<Longrightarrow> serve X L S rnd r w = (status_only 401, w)"
  by (auto simp: release_paths_def serve_def serve_queue_def guarded_route_def Let_def)

text \<open>C24: the credentials of delivery and release are separate. However the tokens of a service have been configured, a bearer
  token opens the delivery routes or the release routes, never both: one of the two requests is refused without any effect.\<close>

theorem credentials_separate:
  assumes "configured S" and "hq_method r = ''POST''" and "p \<in> set helper_paths" and "q \<in> set release_paths"
  shows "serve X L S rnd (r\<lparr>hq_path := p\<rparr>) w = (status_only 401, w) \<or> serve X L S rnd (r\<lparr>hq_path := q\<rparr>) w = (status_only 401, w)"
  using one_credential [OF assms(1), of "r\<lparr>hq_path := p\<rparr>" "r\<lparr>hq_path := q\<rparr>"]
    helper_refused [of "r\<lparr>hq_path := p\<rparr>" S X L rnd w] release_refused [of "r\<lparr>hq_path := q\<rparr>" S X L rnd w] assms(2-4)
  by auto

section \<open>Witnesses\<close>

text \<open>A key derivation that keeps the first bytes of the secret, and a mailbox with a password and one app password.\<close>

definition sample_libs :: libs where
  "sample_libs = \<lparr>lb_parse = (\<lambda>s. if plain_address s then Some s else None),
     lb_pbkdf2 = (\<lambda>secret salt i n. take n (secret @ replicate n CHR ''k''))\<rparr>"

definition sample_mailbox :: Mailbox where
  "sample_mailbox = \<lparr>mx_address = ''Ann@x.io'', mx_enabled = True, mx_home = ''/home/ann'', mx_uid = 1000, mx_gid = 1000, mx_quota = 1,
     mx_verifier = MakeDjangoPBKDF2SHA256 sample_libs ''open sesame'' ''salt'' 1000, mx_sieve = []\<rparr>"

definition sample_service :: "unit Service" where
  "sample_service = post_service\<lparr>sv_helper_enabled := False\<rparr>"

definition sample_operations :: "identity_op list" where
  "sample_operations = [Upsert sample_mailbox, Verifiers ''ann@X.io'' [MakeDjangoPBKDF2SHA256 sample_libs ''phone'' ''salt'' 1000],
     Remove ''bob@x.io'']"

lemma sample_service_facts:
  "mail_parser sample_libs" "key_derivation sample_libs" "tidy sample_libs sample_service" "\<not> sv_unavailable sample_service"
  "sv_audit sample_service = None" "accounts sample_service = (Map.empty, \<lambda>a. [])"
  by (auto simp: mail_parser_def key_derivation_def sample_libs_def tidy_def sample_service_def post_service_def accounts_def)

lemma sample_addresses:
  "simple_address ''Ann@x.io''" "simple_address ''ann@X.io''" "simple_address ''bob@x.io''" "simple_address ''ANN@x.io''"
  by code_simp+

lemma sample_names: "ToLower ''Ann@x.io'' = ''ann@x.io''" "ToLower ''ann@X.io'' = ''ann@x.io''" "ToLower ''bob@x.io'' = ''bob@x.io''"
  "ToLower ''ANN@x.io'' = ''ann@x.io''"
  by code_simp+

lemma sample_simple: "list_all (\<lambda>op. simple_address (op_address op)) sample_operations"
  using sample_addresses by (simp add: sample_operations_def sample_mailbox_def)

lemma sample_run:
  "fold account_step sample_operations (accounts sample_service)
     = ([''ann@x.io'' \<mapsto> sample_mailbox\<lparr>mx_address := ''ann@x.io''\<rparr>],
        (\<lambda>a. [])(''ann@x.io'' := [MakeDjangoPBKDF2SHA256 sample_libs ''phone'' ''salt'' 1000]))"
proof -
  have "mx_address sample_mailbox = ''Ann@x.io''" by (simp add: sample_mailbox_def)
  then show ?thesis by (auto simp: sample_operations_def sample_service_facts sample_names fun_eq_iff)
qed

theorem identity_refines_witness:
  "mailboxAuth sample_libs (fold (apply_identity sample_libs) sample_operations sample_service) ''ANN@x.io''
    = Some (sample_mailbox\<lparr>mx_address := ''ann@x.io''\<rparr>, [MakeDjangoPBKDF2SHA256 sample_libs ''phone'' ''salt'' 1000])"
  using identity_refines [OF sample_service_facts(1,3) sample_simple sample_addresses(4) sample_run] by (simp add: sample_names)

theorem Verify_Make_witness:
  "VerifyDjangoPBKDF2SHA256 sample_libs (MakeDjangoPBKDF2SHA256 sample_libs ''open sesame'' ''salt'' 1000) ''open sesame'' = None
   \<and> VerifyDjangoPBKDF2SHA256 sample_libs (MakeDjangoPBKDF2SHA256 sample_libs ''open sesame'' ''salt'' 1000) ''sesame'' \<noteq> None"
  using Verify_Make [OF sample_service_facts(2), of "''salt''" 1000 "''open sesame''" "''open sesame''"]
    Verify_Make [OF sample_service_facts(2), of "''salt''" 1000 "''open sesame''" "''sesame''"]
  by (simp add: sample_libs_def)

lemma sample_opens:
  "opens sample_libs (MakeDjangoPBKDF2SHA256 sample_libs s ''salt'' 1000) s' \<longleftrightarrow> lb_pbkdf2 sample_libs s' ''salt'' 1000 32 = lb_pbkdf2 sample_libs s ''salt'' 1000 32"
  using Verify_Make_iff [OF sample_service_facts(2), of "''salt''" 1000 s s'] Verify_opens [OF sample_service_facts(2)] by simp

theorem DovecotPassdb_correct_witness:
  "rsp_decision (fst (DovecotPassdb sample_libs (fold (apply_identity sample_libs) sample_operations sample_service) (\<lambda>k. None) ''c''
      \<lparr>pr_username = ''ANN@x.io'', pr_secret = ''phone'', pr_protocol = ''imap''\<rparr> (sample_world mail_db))) = DOK
   \<and> rsp_decision (fst (DovecotPassdb sample_libs (fold (apply_identity sample_libs) sample_operations sample_service) (\<lambda>k. None) ''c''
      \<lparr>pr_username = ''ANN@x.io'', pr_secret = ''guess'', pr_protocol = ''imap''\<rparr> (sample_world mail_db))) \<noteq> DOK"
proof -
  note th = DovecotPassdb_correct [OF sample_service_facts(1-3) sample_simple, of "\<lparr>pr_username = ''ANN@x.io'', pr_secret = s, pr_protocol = ''imap''\<rparr>" for s]
  have t: "\<not> oidc_token ''phone''" "\<not> oidc_token ''guess''" by code_simp+
  have k: "lb_pbkdf2 sample_libs ''phone'' ''salt'' 1000 32 \<noteq> lb_pbkdf2 sample_libs ''open sesame'' ''salt'' 1000 32"
    "lb_pbkdf2 sample_libs ''guess'' ''salt'' 1000 32 \<noteq> lb_pbkdf2 sample_libs ''open sesame'' ''salt'' 1000 32"
    "lb_pbkdf2 sample_libs ''guess'' ''salt'' 1000 32 \<noteq> lb_pbkdf2 sample_libs ''phone'' ''salt'' 1000 32"
    by (simp_all add: sample_libs_def)
  have m: "mx_enabled sample_mailbox" "mx_verifier sample_mailbox = MakeDjangoPBKDF2SHA256 sample_libs ''open sesame'' ''salt'' 1000"
    by (simp_all add: sample_mailbox_def)
  show ?thesis
    using th [of "''phone''"] th [of "''guess''"] sample_addresses(4) t
    by (simp add: may_log_in_def sample_run sample_names m sample_opens k sample_service_facts(4,5) recorded_def)
qed

text \<open>The helper token is configured and opens the diagnostic route, so it does not open the release route.\<close>

theorem credentials_separate_witness:
  "\<exists>S. ConfigurePostfixHelperToken post_token sample_service = Inr S
    \<and> serve ascii_external sample_libs S (\<lambda>k. None) \<lparr>hq_method = ''POST'', hq_path = ''/internal/v1/postfix/queue/release'',
        hq_auth = ''Bearer '' @ post_token, hq_correlation = ''c'', hq_body = empty_body\<rparr> (sample_world mail_db)
      = (status_only 401, sample_world mail_db)"
proof -
  let ?S = "sample_service\<lparr>sv_helper_token := sha256 post_token, sv_helper_enabled := True\<rparr>"
  have t: "TrimSpace post_token = post_token" by code_simp
  then have c: "ConfigurePostfixHelperToken post_token sample_service = Inr ?S"
    by (simp add: ConfigurePostfixHelperToken_def sample_service_def post_service_def)
  have "configured sample_service" by (rule configured.fresh) (simp_all add: sample_service_def post_service_def)
  then have cf: "configured ?S" using c by (rule configured.helper)
  define r where "r = \<lparr>hq_method = ''POST'', hq_path = [], hq_auth = ''Bearer '' @ post_token, hq_correlation = ''c'', hq_body = empty_body\<rparr>"
  have "authorizePostfixHelper ?S (r\<lparr>hq_path := ''/internal/v1/postfix/queue/diagnostic''\<rparr>)"
    by (simp add: r_def authorizePostfixHelper_def authorizePostfixToken_def HasPrefix_def TrimPrefix_def)
  then have "fst (serve ascii_external sample_libs ?S (\<lambda>k. None) (r\<lparr>hq_path := ''/internal/v1/postfix/queue/diagnostic''\<rparr>) (sample_world mail_db))
      \<noteq> status_only 401"
    by (auto simp: serve_def serve_queue_def guarded_route_def post_route_def malformed_def write_response_def r_def Let_def
        split: option.split prod.split)
  moreover have "hq_method r = ''POST''" "''/internal/v1/postfix/queue/diagnostic'' \<in> set helper_paths"
    "''/internal/v1/postfix/queue/release'' \<in> set release_paths"
    by (simp_all add: r_def helper_paths_def release_paths_def)
  ultimately have "serve ascii_external sample_libs ?S (\<lambda>k. None) (r\<lparr>hq_path := ''/internal/v1/postfix/queue/release''\<rparr>) (sample_world mail_db)
      = (status_only 401, sample_world mail_db)"
    using credentials_separate [OF cf] by (metis fst_conv)
  then show ?thesis using c by (auto simp: r_def)
qed

end
