(* ===== verification/Remote.thy ===== *)
theory Remote
  imports Gate
begin

text \<open>
  The Postfix boundary over HTTP: the helper that runs beside Postfix, \<^verbatim>\<open>internal/postfixgate/helper.go\<close>, and the client that the
  core uses as its boundary, \<^verbatim>\<open>internal/outboundpolicy/remote_postfix.go\<close>.

  A request body is given decoded: \<open>None\<close> if it is longer than 8 KiB, is not one JSON object or has an unknown field. A
  reply body is the value the helper encodes; the record \<open>helper_wire\<close> says whether the client can read all of it within
  64 KiB and what it decodes.
\<close>

section \<open>The helper\<close>

record 'p operator =
  op_snapshot :: "string \<Rightarrow> 'p \<Rightarrow> QueueSnapshot result \<times> 'p"
  op_flush :: "'p \<Rightarrow> go_error option \<times> 'p"
  op_retry :: "string \<Rightarrow> 'p \<Rightarrow> go_error option \<times> 'p"

record 'p Helper =
  hl_boundary :: "'p boundary"
  hl_operator :: "'p operator"
  hl_token :: string
  hl_release :: string

definition validPostfixHelperToken :: "string \<Rightarrow> bool" where
  "validPostfixHelperToken token \<longleftrightarrow> 32 \<le> length token \<and> length token \<le> 4096 \<and> TrimSpace token = token"

definition NewHelper :: "'p boundary \<Rightarrow> 'p operator \<Rightarrow> string \<Rightarrow> string \<Rightarrow> 'p Helper result" where
  "NewHelper bd operator token releaseToken =
     (if length token < 32 \<or> length token > 4096 \<or> TrimSpace token \<noteq> token
         \<or> length releaseToken < 32 \<or> length releaseToken > 4096 \<or> TrimSpace releaseToken \<noteq> releaseToken \<or> token = releaseToken
      then Inl (Err ''invalid Postfix helper configuration'')
      else Inr \<lparr>hl_boundary = bd, hl_operator = operator, hl_token = sha256 token, hl_release = sha256 releaseToken\<rparr>)"

record HelperRequest =
  hr_method :: string
  hr_path :: string
  hr_auth :: string
  hr_queue :: "string option"

datatype helper_body = NoBody | TextBody string | MetadataBody QueueMetadata | SnapshotBody QueueSnapshot

record HelperReply =
  hy_status :: nat
  hy_body :: helper_body

definition decodeRequest :: "HelperRequest \<Rightarrow> string \<Rightarrow> bool \<Rightarrow> HelperReply + string" where
  "decodeRequest r tokenHash optional =
     (if hr_method r \<noteq> ''POST'' then Inl \<lparr>hy_status = 405, hy_body = NoBody\<rparr>
      else if \<not> HasPrefix (hr_auth r) ''Bearer '' \<or> length (hr_auth r) > length ''Bearer '' + 4096
      then Inl \<lparr>hy_status = 401, hy_body = NoBody\<rparr>
      else if sha256 (TrimPrefix (hr_auth r) ''Bearer '') \<noteq> tokenHash then Inl \<lparr>hy_status = 401, hy_body = NoBody\<rparr>
      else case hr_queue r of
        None \<Rightarrow> Inl \<lparr>hy_status = 400, hy_body = NoBody\<rparr>
      | Some queueID \<Rightarrow> if queueID = [] \<and> \<not> optional then Inl \<lparr>hy_status = 400, hy_body = NoBody\<rparr> else Inr queueID)"

text \<open>A route without a result: 204, or 409 with a text.\<close>

definition mutation_route :: "HelperReply + string \<Rightarrow> (string \<Rightarrow> 'p \<Rightarrow> go_error option \<times> 'p) \<Rightarrow> string \<Rightarrow> 'p \<Rightarrow> HelperReply \<times> 'p" where
  "mutation_route request run failure p =
     (case request of
        Inl reply \<Rightarrow> (reply, p)
      | Inr queueID \<Rightarrow>
         (case run queueID p of
            (Some _, p1) \<Rightarrow> (\<lparr>hy_status = 409, hy_body = TextBody failure\<rparr>, p1)
          | (None, p1) \<Rightarrow> (\<lparr>hy_status = 204, hy_body = NoBody\<rparr>, p1)))"

definition helper_inspect :: "'p Helper \<Rightarrow> HelperRequest \<Rightarrow> 'p \<Rightarrow> HelperReply \<times> 'p" where
  "helper_inspect H r p =
     (case decodeRequest r (hl_token H) False of
        Inl reply \<Rightarrow> (reply, p)
      | Inr queueID \<Rightarrow>
         (case bd_inspect (hl_boundary H) queueID p of
            (Inl _, p1) \<Rightarrow> (\<lparr>hy_status = 409, hy_body = TextBody ''queue inspection failed''\<rparr>, p1)
          | (Inr metadata, p1) \<Rightarrow> (\<lparr>hy_status = 200, hy_body = MetadataBody metadata\<rparr>, p1)))"

definition helper_summary :: "'p Helper \<Rightarrow> HelperRequest \<Rightarrow> 'p \<Rightarrow> HelperReply \<times> 'p" where
  "helper_summary H r p =
     (case decodeRequest r (hl_token H) True of
        Inl reply \<Rightarrow> (reply, p)
      | Inr queueID \<Rightarrow>
         (case op_snapshot (hl_operator H) queueID p of
            (Inl e, p1) \<Rightarrow>
              (if e = ErrQueueIDNotFound then \<lparr>hy_status = 404, hy_body = TextBody ''queue ID not found''\<rparr>
               else \<lparr>hy_status = 409, hy_body = TextBody ''queue snapshot failed''\<rparr>, p1)
          | (Inr summary, p1) \<Rightarrow> (\<lparr>hy_status = 200, hy_body = SnapshotBody summary\<rparr>, p1)))"

definition helper_flush :: "'p Helper \<Rightarrow> HelperRequest \<Rightarrow> 'p \<Rightarrow> HelperReply \<times> 'p" where
  "helper_flush H r p =
     (case decodeRequest r (hl_release H) True of
        Inl reply \<Rightarrow> (reply, p)
      | Inr queueID \<Rightarrow>
          if queueID \<noteq> [] then (\<lparr>hy_status = 400, hy_body = NoBody\<rparr>, p)
          else mutation_route (Inr queueID) (\<lambda>_. op_flush (hl_operator H)) ''queue flush failed'' p)"

text \<open>\<open>Helper.Handler\<close>.\<close>

definition helper_serve :: "'p Helper \<Rightarrow> HelperRequest \<Rightarrow> 'p \<Rightarrow> HelperReply \<times> 'p" where
  "helper_serve H r p =
     (let path = hr_path r in
      if path = ''/v1/queue/inspect'' then helper_inspect H r p
      else if path = ''/v1/queue/hold''
      then mutation_route (decodeRequest r (hl_token H) False) (bd_hold (hl_boundary H)) ''queue hold failed'' p
      else if path = ''/v1/queue/release''
      then mutation_route (decodeRequest r (hl_release H) False) (bd_release (hl_boundary H)) ''queue release failed'' p
      else if path = ''/v1/queue/summary'' then helper_summary H r p
      else if path = ''/v1/queue/flush'' then helper_flush H r p
      else if path = ''/v1/queue/retry''
      then mutation_route (decodeRequest r (hl_release H) False) (op_retry (hl_operator H)) ''queue retry failed'' p
      else (\<lparr>hy_status = 404, hy_body = TextBody ''404 page not found''\<rparr>, p))"

section \<open>The client\<close>

record RemotePostfixBoundary =
  rb_token :: string
  rb_release :: string

definition newRemotePostfixBoundary :: "parsed_url option \<Rightarrow> string \<Rightarrow> string \<Rightarrow> RemotePostfixBoundary result" where
  "newRemotePostfixBoundary parsed token releaseToken =
     (case parsed of
        None \<Rightarrow> Inl (Err ''invalid Postfix helper URL'')
      | Some u \<Rightarrow>
          if pu_scheme u \<noteq> ''http'' \<and> pu_scheme u \<noteq> ''https'' \<or> pu_host u = [] \<or> pu_user u \<or> pu_query u \<noteq> [] \<or> pu_fragment u \<noteq> []
             \<or> pu_path u \<noteq> []
          then Inl (Err ''invalid Postfix helper URL'')
          else if \<not> validPostfixHelperToken token then Inl (Err ''invalid Postfix helper token'')
          else Inr \<lparr>rb_token = token, rb_release = releaseToken\<rparr>)"

definition NewRemotePostfixBoundary :: "parsed_url option \<Rightarrow> string \<Rightarrow> RemotePostfixBoundary result" where
  "NewRemotePostfixBoundary parsed token = newRemotePostfixBoundary parsed token []"

definition NewRemotePostfixBoundaryWithRelease :: "parsed_url option \<Rightarrow> string \<Rightarrow> string \<Rightarrow> RemotePostfixBoundary result" where
  "NewRemotePostfixBoundaryWithRelease parsed token releaseToken =
     (if \<not> validPostfixHelperToken releaseToken \<or> releaseToken = token then Inl (Err ''invalid Postfix release token'')
      else newRemotePostfixBoundary parsed token releaseToken)"

text \<open>The numbers of a decoded snapshot may be negative.\<close>

record snapshot_fields =
  sf_active :: int
  sf_deferred :: int
  sf_held :: int
  sf_total :: int
  sf_digest :: string

record helper_wire =
  hw_fits :: "helper_body \<Rightarrow> bool"
  hw_metadata :: "helper_body \<Rightarrow> QueueMetadata option"
  hw_snapshot :: "helper_body \<Rightarrow> snapshot_fields option"

text \<open>Documented behaviour: what the client can read decodes to what the helper has encoded, if its texts are valid UTF-8.\<close>

definition helper_exact :: "helper_wire \<Rightarrow> bool" where
  "helper_exact W \<longleftrightarrow>
     (\<forall>m. hw_fits W (MetadataBody m) \<and> list_all ValidString (qm_queue_id m # qm_fingerprint m # qm_sender m # qm_recipients m) \<longrightarrow>
        hw_metadata W (MetadataBody m) = Some m)
     \<and> (\<forall>s. hw_fits W (SnapshotBody s) \<and> ValidString (qs_digest s) \<longrightarrow>
        hw_snapshot W (SnapshotBody s) = Some \<lparr>sf_active = int (qs_active s), sf_deferred = int (qs_deferred s), sf_held = int (qs_held s),
          sf_total = int (qs_total s), sf_digest = qs_digest s\<rparr>)"

fun blank_body :: "helper_body \<Rightarrow> bool" where
  "blank_body NoBody = True"
| "blank_body (TextBody t) = (TrimSpace t = [])"
| "blank_body _ = False"

type_synonym 'p helper_http = "HelperRequest \<Rightarrow> 'p \<Rightarrow> HelperReply option \<times> 'p"

text \<open>What the caller wants decoded: nothing, in which case the body has to be blank, or a value.\<close>

definition want_nothing :: "helper_body \<Rightarrow> unit result" where
  "want_nothing b = (if blank_body b then Inr () else Inl (Err ''Postfix helper mutation response was not empty''))"

definition want_value :: "'a option \<Rightarrow> 'a result" where
  "want_value decoded = (case decoded of None \<Rightarrow> Inl (Err ''Postfix helper response invalid'') | Some v \<Rightarrow> Inr v)"

text \<open>The exchange that \<open>call\<close> and \<open>callOptional\<close> share, from the request to the status check.\<close>

definition exchange ::
  "helper_wire \<Rightarrow> 'p helper_http \<Rightarrow> string \<Rightarrow> string \<Rightarrow> string \<Rightarrow> (helper_body \<Rightarrow> 'a result) \<Rightarrow> 'p \<Rightarrow> 'a result \<times> 'p"
where
  "exchange W http path token queueID out p =
     (case http \<lparr>hr_method = ''POST'', hr_path = path, hr_auth = ''Bearer '' @ token, hr_queue = Some queueID\<rparr> p of
        (None, p1) \<Rightarrow> (Inl (Err ''Postfix helper unavailable''), p1)
      | (Some reply, p1) \<Rightarrow>
          if \<not> hw_fits W (hy_body reply) then (Inl (Err ''Postfix helper response invalid''), p1)
          else if hy_status reply < 200 \<or> hy_status reply \<ge> 300
          then (Inl (if path = ''/v1/queue/summary'' \<and> hy_status reply = 404 then ErrQueueIDNotFound
                     else Err ''Postfix helper rejected request''), p1)
          else (out (hy_body reply), p1))"

definition remote_call ::
  "helper_wire \<Rightarrow> 'p helper_http \<Rightarrow> RemotePostfixBoundary \<Rightarrow> string \<Rightarrow> string \<Rightarrow> (helper_body \<Rightarrow> 'a result) \<Rightarrow> 'p \<Rightarrow> 'a result \<times> 'p"
where
  "remote_call W http R path queueID out p =
     (if \<not> validLongQueueID queueID
         \<or> path \<noteq> ''/v1/queue/inspect'' \<and> path \<noteq> ''/v1/queue/hold'' \<and> path \<noteq> ''/v1/queue/release''
      then (Inl (Err ''invalid Postfix helper request''), p)
      else if path = ''/v1/queue/release''
      then (if \<not> validPostfixHelperToken (rb_release R) then (Inl (Err ''Postfix release credential unavailable''), p)
            else exchange W http path (rb_release R) queueID out p)
      else exchange W http path (rb_token R) queueID out p)"

definition callOptional ::
  "helper_wire \<Rightarrow> 'p helper_http \<Rightarrow> RemotePostfixBoundary \<Rightarrow> string \<Rightarrow> string \<Rightarrow> (helper_body \<Rightarrow> 'a result) \<Rightarrow> 'p \<Rightarrow> 'a result \<times> 'p"
where
  "callOptional W http R path queueID out p =
     (if queueID \<noteq> [] \<and> \<not> validLongQueueID queueID
         \<or> path \<noteq> ''/v1/queue/summary'' \<and> path \<noteq> ''/v1/queue/flush'' \<and> path \<noteq> ''/v1/queue/retry''
      then (Inl (Err ''invalid Postfix helper request''), p)
      else if path \<noteq> ''/v1/queue/summary''
      then (if \<not> validPostfixHelperToken (rb_release R) then (Inl (Err ''Postfix release credential unavailable''), p)
            else exchange W http path (rb_release R) queueID out p)
      else exchange W http path (rb_token R) queueID out p)"

abbreviation error_of :: "'a result \<times> 'p \<Rightarrow> go_error option \<times> 'p" where
  "error_of x \<equiv> (case x of (Inl e, p) \<Rightarrow> (Some e, p) | (Inr _, p) \<Rightarrow> (None, p))"

definition remoteInspect ::
  "external \<Rightarrow> helper_wire \<Rightarrow> 'p helper_http \<Rightarrow> RemotePostfixBoundary \<Rightarrow> string \<Rightarrow> 'p \<Rightarrow> QueueMetadata result \<times> 'p"
where
  "remoteInspect X W http R queueID p =
     (case remote_call W http R ''/v1/queue/inspect'' queueID (want_value \<circ> hw_metadata W) p of
        (Inl e, p1) \<Rightarrow> (Inl e, p1)
      | (Inr metadata, p1) \<Rightarrow>
         (case normalizeQueueRegistration X
                 \<lparr>qreg_queue_id = qm_queue_id metadata, qreg_fingerprint = qm_fingerprint metadata, qreg_sender = qm_sender metadata,
                  qreg_recipients = qm_recipients metadata,
                  qreg_sources = [QueueSource SourceSystemSender ''validation-only'']\<rparr> of
            Inl _ \<Rightarrow> (Inl (Err ''Postfix helper returned invalid queue metadata''), p1)
          | Inr normalized \<Rightarrow>
              if qr_queue_id normalized \<noteq> queueID \<or> qr_fingerprint normalized \<noteq> qm_fingerprint metadata
                 \<or> qr_sender normalized \<noteq> qm_sender metadata \<or> qr_recipients normalized \<noteq> qm_recipients metadata
              then (Inl (Err ''Postfix helper returned invalid queue metadata''), p1)
              else (Inr metadata, p1)))"

definition remoteHold :: "helper_wire \<Rightarrow> 'p helper_http \<Rightarrow> RemotePostfixBoundary \<Rightarrow> string \<Rightarrow> 'p \<Rightarrow> go_error option \<times> 'p" where
  "remoteHold W http R queueID p = error_of (remote_call W http R ''/v1/queue/hold'' queueID want_nothing p)"

definition remoteRelease :: "helper_wire \<Rightarrow> 'p helper_http \<Rightarrow> RemotePostfixBoundary \<Rightarrow> string \<Rightarrow> 'p \<Rightarrow> go_error option \<times> 'p" where
  "remoteRelease W http R queueID p = error_of (remote_call W http R ''/v1/queue/release'' queueID want_nothing p)"

definition remoteSnapshot ::
  "helper_wire \<Rightarrow> 'p helper_http \<Rightarrow> RemotePostfixBoundary \<Rightarrow> string \<Rightarrow> 'p \<Rightarrow> QueueSnapshot result \<times> 'p"
where
  "remoteSnapshot W http R queueID p =
     (if queueID \<noteq> [] \<and> \<not> validLongQueueID queueID then (Inl (Err ''invalid Postfix queue selector''), p)
      else case callOptional W http R ''/v1/queue/summary'' queueID (want_value \<circ> hw_snapshot W) p of
        (Inl e, p1) \<Rightarrow> (Inl e, p1)
      | (Inr s, p1) \<Rightarrow>
          if sf_total s < 0 \<or> sf_active s < 0 \<or> sf_deferred s < 0 \<or> sf_held s < 0
             \<or> sf_total s \<noteq> sf_active s + sf_deferred s + sf_held s \<or> length (sf_digest s) \<noteq> 64
          then (Inl (Err ''Postfix helper returned invalid queue snapshot''), p1)
          else (Inr \<lparr>qs_active = nat (sf_active s), qs_deferred = nat (sf_deferred s), qs_held = nat (sf_held s),
                     qs_total = nat (sf_total s), qs_digest = sf_digest s\<rparr>, p1))"

definition remoteFlush :: "helper_wire \<Rightarrow> 'p helper_http \<Rightarrow> RemotePostfixBoundary \<Rightarrow> 'p \<Rightarrow> go_error option \<times> 'p" where
  "remoteFlush W http R p = error_of (callOptional W http R ''/v1/queue/flush'' [] want_nothing p)"

definition remoteRetry :: "helper_wire \<Rightarrow> 'p helper_http \<Rightarrow> RemotePostfixBoundary \<Rightarrow> string \<Rightarrow> 'p \<Rightarrow> go_error option \<times> 'p" where
  "remoteRetry W http R queueID p =
     (if \<not> validLongQueueID queueID then (Some (Err ''invalid Postfix retry request''), p)
      else case error_of (callOptional W http R ''/v1/queue/retry'' queueID want_nothing p) of
        (None, p1) \<Rightarrow> (None, p1)
      | (Some e, p1) \<Rightarrow>
         (case remoteSnapshot W http R queueID p1 of
            (Inl snapshotErr, p2) \<Rightarrow> (if snapshotErr = ErrQueueIDNotFound then None else Some e, p2)
          | (Inr _, p2) \<Rightarrow> (Some e, p2)))"

text \<open>The boundary of the core.\<close>

definition remote_boundary :: "external \<Rightarrow> helper_wire \<Rightarrow> 'p helper_http \<Rightarrow> RemotePostfixBoundary \<Rightarrow> 'p boundary" where
  "remote_boundary X W http R =
     \<lparr>bd_inspect = remoteInspect X W http R, bd_hold = remoteHold W http R, bd_release = remoteRelease W http R\<rparr>"

section \<open>Client and helper together\<close>

definition postfix_operator :: "external \<Rightarrow> 'p PostfixBoundary \<Rightarrow> 'p operator" where
  "postfix_operator X b = \<lparr>op_snapshot = Snapshot X b, op_flush = Flush b, op_retry = Retry X b\<rparr>"

text \<open>\<open>runHelper\<close> up to the start of the server, with the same boundary in all roles.\<close>

definition runHelper :: "external \<Rightarrow> 'p runner \<Rightarrow> secret_env \<Rightarrow> secret_env \<Rightarrow> string \<Rightarrow> 'p Helper result" where
  "runHelper X runner tokenEnv releaseEnv instanceName =
     (case configuredGateSecret tokenEnv ''Postfix helper token'' of
        Inl e \<Rightarrow> Inl e
      | Inr token \<Rightarrow>
         (case configuredGateSecret releaseEnv ''Postfix release token'' of
            Inl e \<Rightarrow> Inl e
          | Inr releaseToken \<Rightarrow>
              if TrimSpace instanceName = [] then Inl (Err ''GOTTH_MAIL_POSTFIX_INSTANCE is required'')
              else
                let b = \<lparr>pb_runner = runner, pb_postqueue = ''/usr/sbin/postqueue'', pb_postsuper = ''/usr/sbin/postsuper'',
                         pb_instance = TrimSpace instanceName, pb_max_output = 8 * 2 ^ 20\<rparr> in
                NewHelper (postfix_boundary X b) (postfix_operator X b) token releaseToken))"

text \<open>The network between them may lose a request or a reply.\<close>

definition helper_net :: "(HelperRequest \<Rightarrow> 'p \<Rightarrow> loss) \<Rightarrow> 'p Helper \<Rightarrow> 'p helper_http" where
  "helper_net net H r p =
     (if net r p = RequestLost then (None, p)
      else case helper_serve H r p of (reply, p1) \<Rightarrow> (if net r p = ReplyLost then None else Some reply, p1))"

end
