(* ===== verification/Remote_Facts.thy ===== *)
theory Remote_Facts
  imports Daemon_Facts Remote
begin

text \<open>
  The Postfix boundary over HTTP follows the local boundary: what the client reports has happened beside Postfix, and an error
  means that the local operation has run or has not. Facts about the core that hold for any boundary then hold for Postfix itself.
\<close>

section \<open>Following an operation\<close>

text \<open>
  An operation over the network follows the local one: it gives the same result with the same effect, or it fails, and then it has
  had the effect of the local operation or none. On a perfect network it fails only if the local operation does.
\<close>

definition follows :: "bool \<Rightarrow> ('a \<Rightarrow> bool) \<Rightarrow> ('p \<Rightarrow> 'a \<times> 'p) \<Rightarrow> ('p \<Rightarrow> 'a \<times> 'p) \<Rightarrow> bool" where
  "follows perfect failed near remote \<longleftrightarrow>
     (\<forall>p. (remote p = near p \<or> failed (fst (remote p)) \<and> snd (remote p) \<in> {p, snd (near p)})
        \<and> (perfect \<longrightarrow> snd (remote p) = snd (near p) \<and> failed (fst (remote p)) = failed (fst (near p))))"

definition perfect :: "helper_wire \<Rightarrow> (HelperRequest \<Rightarrow> 'p \<Rightarrow> loss) \<Rightarrow> bool" where
  "perfect W net \<longleftrightarrow> (\<forall>r p. net r p = Delivered) \<and> (\<forall>body. hw_fits W body)"

definition helper_request :: "string \<Rightarrow> string \<Rightarrow> string \<Rightarrow> HelperRequest" where
  "helper_request path token q = \<lparr>hr_method = ''POST'', hr_path = path, hr_auth = ''Bearer '' @ token, hr_queue = Some q\<rparr>"

lemma decode_authentic:
  "length token \<le> 4096 \<Longrightarrow> q \<noteq> [] \<or> optional \<Longrightarrow> decodeRequest (helper_request path token q) (sha256 token) optional = Inr q"
  by (auto simp: helper_request_def decodeRequest_def HasPrefix_def TrimPrefix_def)

lemma helper_request_path [simp]: "hr_path (helper_request path token q) = path"
  by (simp add: helper_request_def)

lemmas exchange_request = exchange_def [folded helper_request_def]

lemma exchange_mutation:
  assumes "\<And>p. helper_serve H (helper_request path token q) p = mutation_route (Inr q) run failure p"
  shows "follows (perfect W net) (\<lambda>e. e \<noteq> None) (run q) (\<lambda>p. error_of (exchange W (helper_net net H) path token q want_nothing p))"
  unfolding follows_def
proof (rule allI)
  fix p
  obtain e p1 where r: "run q p = (e, p1)" by fastforce
  show "(error_of (exchange W (helper_net net H) path token q want_nothing p) = run q p
      \<or> fst (error_of (exchange W (helper_net net H) path token q want_nothing p)) \<noteq> None
        \<and> snd (error_of (exchange W (helper_net net H) path token q want_nothing p)) \<in> {p, snd (run q p)})
    \<and> (perfect W net \<longrightarrow> snd (error_of (exchange W (helper_net net H) path token q want_nothing p)) = snd (run q p)
        \<and> (fst (error_of (exchange W (helper_net net H) path token q want_nothing p)) \<noteq> None) = (fst (run q p) \<noteq> None))"
    using r by (cases e) (auto simp: exchange_request helper_net_def assms mutation_route_def want_nothing_def perfect_def)
qed

lemma follows_cong: "follows P failed near remote \<Longrightarrow> (\<And>p. near' p = near p) \<Longrightarrow> (\<And>p. remote' p = remote p) \<Longrightarrow> follows P failed near' remote'"
  by (simp add: follows_def)

section \<open>Observations\<close>

lemma observed_registration:
  assumes X: "idna_lookup X" and "Inspect X b q p = (Inr m, p')"
  shows "\<exists>n. normalizeQueueRegistration X
      \<lparr>qreg_queue_id = qm_queue_id m, qreg_fingerprint = qm_fingerprint m, qreg_sender = qm_sender m, qreg_recipients = qm_recipients m,
       qreg_sources = [QueueSource SourceSystemSender ''validation-only'']\<rparr> = Inr n
    \<and> qr_queue_id n = q \<and> qr_fingerprint n = qm_fingerprint m \<and> qr_sender n = qm_sender m \<and> qr_recipients n = qm_recipients m"
proof -
  note ob = observed_message [OF X assms(2)]
  obtain i ls where "inspectLines X i q ls None = Inr m"
    using assms(2) by (auto simp: Inspect_def split: if_splits sum.splits prod.splits)
  from inspectLines_Inr [OF this] obtain e where "queueMetadataFromEntry X i e = Inr m" by auto
  then obtain raw where r: "canonicalQueueRecipients X raw = Inr (qm_recipients m)"
    and s: "normalizePostqueueSender X (pe_sender e) = Inr (qm_sender m)"
    and f: "QueueArrivalFingerprint X i (pe_queue_id e) (pe_arrival_time e) (pe_message_size e) (qm_sender m) (qm_recipients m) = Inr (qm_fingerprint m)"
    by (auto simp: queueMetadataFromEntry_def Let_def split: if_splits sum.splits)
  obtain vs where "digestStrings vs = qm_fingerprint m" using f by (auto simp: QueueArrivalFingerprint_def split: if_splits sum.splits)
  then have fp: "validLowerHexDigest (qm_fingerprint m)" using validLowerHexDigest_digestStrings by metis
  obtain rs sender where rs: "canonicalQueueRecipients X (qm_recipients m) = Inr rs" and sn: "normalizePostqueueSender X (qm_sender m) = Inr sender"
    using f by (auto simp: QueueArrivalFingerprint_def split: if_splits sum.splits)
  obtain pairs where pr: "map (normalizeQueueRecipient X) (qm_recipients m) = map Inr pairs"
    and l: "qm_recipients m \<noteq> []" "length (qm_recipients m) \<le> maxQueueRecipients"
    using rs by (auto simp: canonicalQueueRecipients_def mapR_Inr split: if_splits sum.splits)
  have fst: "map fst pairs = qm_recipients m"
  proof (rule nth_equalityI)
    show len: "length (map fst pairs) = length (qm_recipients m)" using pr by (metis length_map)
    fix k assume k: "k < length (map fst pairs)"
    then have "normalizeQueueRecipient X (qm_recipients m ! k) = Inr (pairs ! k)" using pr len by (metis length_map nth_map)
    moreover obtain d where "canonical_address X (qm_recipients m ! k) d" using ob(3) [of "qm_recipients m ! k"] k len by auto
    ultimately have "fst (pairs ! k) = qm_recipients m ! k" using canonical_address_same [OF X] by (metis prod.collapse)
    then show "map fst pairs ! k = qm_recipients m ! k" using k by simp
  qed
  have "\<exists>xs. sorted_set xs = qm_recipients m" using r by (auto simp: canonicalQueueRecipients_def split: if_splits sum.splits)
  then obtain xs where "qm_recipients m = sorted_set xs" by metis
  then have st: "sorted_set (qm_recipients m) = qm_recipients m" by (simp add: sorted_set_fixed)
  have "normalizeQueueSender X (qm_sender m) = Inr (qm_sender m)"
  proof (cases "qm_sender m = ''<>''")
    case False
    then obtain raw' d where "normalizeQueueRecipient X raw' = Inr (qm_sender m, d)"
      using s by (auto simp: normalizePostqueueSender_def normalizeQueueSender_def split: if_splits sum.splits)
    note c = normalizeQueueRecipient_canonical [OF X this]
    from c have "CHR ''@'' \<in> set (qm_sender m)" by (auto simp: canonical_address_def)
    then have ne: "qm_sender m \<noteq> []" "qm_sender m \<noteq> ''MAILER-DAEMON''" by auto
    then obtain c' d' where n: "normalizeQueueRecipient X (qm_sender m) = Inr (c', d')"
      using sn False by (auto simp: normalizePostqueueSender_def normalizeQueueSender_def split: if_splits sum.splits)
    then show ?thesis using canonical_address_same [OF X c n] False by (simp add: normalizeQueueSender_def)
  qed (simp add: normalizeQueueSender_def)
  moreover have "valid_source (QueueSource SourceSystemSender ''validation-only'')" by code_simp
  ultimately show ?thesis
    unfolding normalizeQueueRegistration_Inr using ob(1,2) fp l pr fst st
    by (intro exI [of _ "\<lparr>qr_queue_id = q, qr_fingerprint = qm_fingerprint m, qr_sender = qm_sender m,
             qr_recipient_digest = digestStrings (qm_recipients m), qr_source_digest = digestSources [QueueSource SourceSystemSender ''validation-only''],
             qr_hold_state = HoldPending, qr_reason = [], qr_revisions = [], qr_attempts = 0, qr_error_code = [], qr_first_seen = 0, qr_updated = 0,
             qr_recipients = qm_recipients m, qr_sources = [QueueSource SourceSystemSender ''validation-only'']\<rparr>"])
      (auto simp: maxQueueSources_def sorted_set_fixed intro!: exI [of _ pairs])
qed

section \<open>The remote boundary\<close>

text \<open>A client and a helper with the same tokens, the helper working on the boundary \<open>b\<close>.\<close>

definition paired :: "external \<Rightarrow> 'p PostfixBoundary \<Rightarrow> 'p Helper \<Rightarrow> RemotePostfixBoundary \<Rightarrow> bool" where
  "paired X b H R \<longleftrightarrow> hl_boundary H = postfix_boundary X b \<and> hl_operator H = postfix_operator X b
     \<and> hl_token H = sha256 (rb_token R) \<and> hl_release H = sha256 (rb_release R)
     \<and> validPostfixHelperToken (rb_token R) \<and> validPostfixHelperToken (rb_release R)"

lemma paired_new:
  assumes "NewHelper (postfix_boundary X b) (postfix_operator X b) token release = Inr H"
    and "NewRemotePostfixBoundaryWithRelease u token release = Inr R"
  shows "paired X b H R"
  using assms
  by (auto simp: paired_def NewHelper_def NewRemotePostfixBoundaryWithRelease_def newRemotePostfixBoundary_def split: if_splits option.splits)

lemma served:
  assumes "paired X b H R" and "q \<noteq> []"
  shows "helper_serve H (helper_request ''/v1/queue/hold'' (rb_token R) q) p = mutation_route (Inr q) (Hold b) ''queue hold failed'' p"
    and "helper_serve H (helper_request ''/v1/queue/release'' (rb_release R) q) p = mutation_route (Inr q) (ReleaseMessage b) ''queue release failed'' p"
    and "helper_serve H (helper_request ''/v1/queue/retry'' (rb_release R) q) p = mutation_route (Inr q) (Retry X b) ''queue retry failed'' p"
    and "helper_serve H (helper_request ''/v1/queue/inspect'' (rb_token R) q) p =
      (case Inspect X b q p of (Inl _, p1) \<Rightarrow> (\<lparr>hy_status = 409, hy_body = TextBody ''queue inspection failed''\<rparr>, p1)
       | (Inr m, p1) \<Rightarrow> (\<lparr>hy_status = 200, hy_body = MetadataBody m\<rparr>, p1))"
  using assms decode_authentic [of "rb_token R" q False] decode_authentic [of "rb_release R" q False]
  by (simp_all add: helper_serve_def helper_inspect_def paired_def validPostfixHelperToken_def postfix_boundary_def postfix_operator_def)

lemma served_optional:
  assumes "paired X b H R"
  shows "helper_serve H (helper_request ''/v1/queue/flush'' (rb_release R) []) p = mutation_route (Inr []) (\<lambda>_. Flush b) ''queue flush failed'' p"
    and "helper_serve H (helper_request ''/v1/queue/summary'' (rb_token R) q) p =
      (case Snapshot X b q p of
         (Inl e, p1) \<Rightarrow> (if e = ErrQueueIDNotFound then \<lparr>hy_status = 404, hy_body = TextBody ''queue ID not found''\<rparr>
               else \<lparr>hy_status = 409, hy_body = TextBody ''queue snapshot failed''\<rparr>, p1)
       | (Inr s, p1) \<Rightarrow> (\<lparr>hy_status = 200, hy_body = SnapshotBody s\<rparr>, p1))"
  using assms decode_authentic [of "rb_token R" q True] decode_authentic [of "rb_release R" "[]" True]
  by (simp_all add: helper_serve_def helper_flush_def helper_summary_def paired_def validPostfixHelperToken_def postfix_operator_def)

lemma valid_not_empty: "validLongQueueID q \<Longrightarrow> q \<noteq> []"
  by (auto simp: validLongQueueID_def)

lemma follows_refused:
  "(\<And>p. failed (fst (near p)) \<and> snd (near p) = p) \<Longrightarrow> (\<And>p. failed (fst (remote p)) \<and> snd (remote p) = p) \<Longrightarrow> follows P failed near remote"
  by (simp add: follows_def)

lemma remoteHold_follows:
  assumes "paired X b H R"
  shows "follows (perfect W net) (\<lambda>e. e \<noteq> None) (Hold b q) (remoteHold W (helper_net net H) R q)"
proof (cases "validLongQueueID q")
  case True
  show ?thesis
    by (rule follows_cong [OF exchange_mutation [OF served(1) [OF assms valid_not_empty [OF True]]]])
      (use True in \<open>simp_all add: remoteHold_def remote_call_def\<close>)
qed (auto intro!: follows_refused simp: Hold_def remoteHold_def remote_call_def)

lemma remoteRelease_follows:
  assumes "paired X b H R"
  shows "follows (perfect W net) (\<lambda>e. e \<noteq> None) (ReleaseMessage b q) (remoteRelease W (helper_net net H) R q)"
proof (cases "validLongQueueID q")
  case True
  show ?thesis
    by (rule follows_cong [OF exchange_mutation [OF served(2) [OF assms valid_not_empty [OF True]]]])
      (use True assms in \<open>simp_all add: remoteRelease_def remote_call_def paired_def\<close>)
qed (auto intro!: follows_refused simp: ReleaseMessage_def remoteRelease_def remote_call_def)

lemma remoteFlush_follows:
  assumes "paired X b H R"
  shows "follows (perfect W net) (\<lambda>e. e \<noteq> None) (Flush b) (remoteFlush W (helper_net net H) R)"
  by (rule follows_cong [OF exchange_mutation [OF served_optional(1) [OF assms]]])
    (use assms in \<open>simp_all add: remoteFlush_def callOptional_def paired_def\<close>)

lemma remoteInspect_follows:
  assumes X: "idna_lookup X" and W: "helper_exact W" and pr: "paired X b H R"
  shows "follows (perfect W net) isl (Inspect X b q) (remoteInspect X W (helper_net net H) R q)"
proof (cases "validLongQueueID q")
  case True
  note sv = served(4) [OF pr valid_not_empty [OF True]]
  show ?thesis unfolding follows_def
  proof (rule allI)
    fix p
    let ?n = "net (helper_request ''/v1/queue/inspect'' (rb_token R) q) p"
    let ?rem = "remoteInspect X W (helper_net net H) R q p"
    have rem: "(\<exists>e. ?rem = (Inl e, p)) \<and> ?n = RequestLost \<or> (\<exists>e. ?rem = (Inl e, snd (Inspect X b q p))) \<and> (?n = ReplyLost \<or> isl (fst (Inspect X b q p))
        \<or> \<not> hw_fits W (MetadataBody (projr (fst (Inspect X b q p))))) \<or> ?rem = Inspect X b q p"
    proof (cases "Inspect X b q p")
      case (Pair res p1)
      show ?thesis
      proof (cases res)
        case (Inl e)
        then show ?thesis using True Pair
          by (cases ?n) (auto simp: remoteInspect_def remote_call_def exchange_request helper_net_def sv)
      next
        case (Inr m)
        note i = Pair [unfolded Inr]
        have "list_all ValidString (qm_queue_id m # qm_fingerprint m # qm_sender m # qm_recipients m)"
          using observed_message [OF X i] canonical_address_plain(2) long_queue_text by (auto simp: list_all_iff)
        then have d: "hw_fits W (MetadataBody m) \<Longrightarrow> hw_metadata W (MetadataBody m) = Some m" using W by (simp add: helper_exact_def)
        show ?thesis using True i d observed_registration [OF X i] 
          by (cases ?n) (auto simp: remoteInspect_def remote_call_def exchange_request helper_net_def sv want_value_def)
      qed
    qed
    show "(?rem = Inspect X b q p \<or> isl (fst ?rem) \<and> snd ?rem \<in> {p, snd (Inspect X b q p)})
        \<and> (perfect W net \<longrightarrow> snd ?rem = snd (Inspect X b q p) \<and> isl (fst ?rem) = isl (fst (Inspect X b q p)))"
      using rem by (auto simp: perfect_def)
  qed
qed (auto intro!: follows_refused simp: Inspect_def remoteInspect_def remote_call_def)

lemma snapshotLines_counts:
  "snapshotLines X i q ls (a, d, h) es = Inr ((a', d', h'), es') \<Longrightarrow> a + d + h = length es \<Longrightarrow> a' + d' + h' = length es'"
proof (induction ls arbitrary: a d h es)
  case (Cons l ls)
  show ?case using Cons.prems by (auto split: if_splits option.splits sum.splits simp: Let_def intro: Cons.IH)
qed simp

lemma snapshot_shape:
  assumes "Snapshot X b q p = (Inr s, p')"
  shows "qs_total s = qs_active s + qs_deferred s + qs_held s" and "length (qs_digest s) = 64" and "ValidString (qs_digest s)"
proof -
  have "\<exists>i ls vs. snapshotLines X i q ls (0, 0, 0) [] = Inr ((qs_active s, qs_deferred s, qs_held s), vs) \<and> qs_total s = length vs
      \<and> qs_digest s = digestStrings (''gotth-mail/postfix-snapshot/v1'' # sort vs)"
    using assms by (fastforce simp: Snapshot_def split: if_splits sum.splits prod.splits)
  then obtain i ls vs where l: "snapshotLines X i q ls (0, 0, 0) [] = Inr ((qs_active s, qs_deferred s, qs_held s), vs)" "qs_total s = length vs"
    and d: "qs_digest s = digestStrings (''gotth-mail/postfix-snapshot/v1'' # sort vs)"
    by blast
  from snapshotLines_counts [OF l(1)] l(2) show "qs_total s = qs_active s + qs_deferred s + qs_held s" by simp
  have v: "validLowerHexDigest (qs_digest s)" using d validLowerHexDigest_digestStrings by metis
  then show "length (qs_digest s) = 64" by (simp add: validLowerHexDigest_def)
  show "ValidString (qs_digest s)" by (rule validLowerHex_text [OF v])
qed

lemma remoteSnapshot_follows:
  assumes W: "helper_exact W" and pr: "paired X b H R"
  shows "follows (perfect W net) isl (Snapshot X b q) (remoteSnapshot W (helper_net net H) R q)"
proof (cases "q = [] \<or> validLongQueueID q")
  case True
  note sv = served_optional(2) [OF pr]
  show ?thesis unfolding follows_def
  proof (rule allI)
    fix p
    let ?n = "net (helper_request ''/v1/queue/summary'' (rb_token R) q) p"
    let ?rem = "remoteSnapshot W (helper_net net H) R q p"
    have rem: "(\<exists>e. ?rem = (Inl e, p)) \<and> ?n = RequestLost \<or> (\<exists>e. ?rem = (Inl e, snd (Snapshot X b q p))) \<and> (?n = ReplyLost \<or> isl (fst (Snapshot X b q p))
        \<or> \<not> hw_fits W (SnapshotBody (projr (fst (Snapshot X b q p))))) \<or> ?rem = Snapshot X b q p"
    proof (cases "Snapshot X b q p")
      case (Pair res p1)
      show ?thesis
      proof (cases res)
        case (Inl e)
        then show ?thesis using True Pair
          by (cases ?n) (auto simp: remoteSnapshot_def callOptional_def exchange_request helper_net_def sv)
      next
        case (Inr s)
        note i = snapshot_shape [OF Pair [unfolded Inr]]
        have d: "hw_fits W (SnapshotBody s) \<Longrightarrow> hw_snapshot W (SnapshotBody s) = Some \<lparr>sf_active = int (qs_active s), sf_deferred = int (qs_deferred s),
            sf_held = int (qs_held s), sf_total = int (qs_total s), sf_digest = qs_digest s\<rparr>"
          using W i(3) by (simp add: helper_exact_def)
        show ?thesis using True Pair Inr d i
          by (cases ?n) (auto simp: remoteSnapshot_def callOptional_def exchange_request helper_net_def sv want_value_def)
      qed
    qed
    show "(?rem = Snapshot X b q p \<or> isl (fst ?rem) \<and> snd ?rem \<in> {p, snd (Snapshot X b q p)})
        \<and> (perfect W net \<longrightarrow> snd ?rem = snd (Snapshot X b q p) \<and> isl (fst ?rem) = isl (fst (Snapshot X b q p)))"
      using rem by (auto simp: perfect_def)
  qed
qed (auto intro!: follows_refused simp: Snapshot_def remoteSnapshot_def)


lemma followsD: "follows P failed near remote \<Longrightarrow> remote p = (x, p') \<Longrightarrow> near p = (x, p') \<or> failed x \<and> p' \<in> {p, snd (near p)}"
  unfolding follows_def by (drule spec [of _ p]) auto

lemma remoteSnapshot_absent:
  assumes pr: "paired X b H R" and "remoteSnapshot W (helper_net net H) R q p = (Inl ErrQueueIDNotFound, p')"
  shows "fst (Snapshot X b q p) = Inl ErrQueueIDNotFound"
proof -
  obtain res p1 where s: "Snapshot X b q p = (res, p1)" by fastforce
  let ?n = "net (helper_request ''/v1/queue/summary'' (rb_token R) q) p"
  show ?thesis using assms(2) s
    by (cases ?n; cases res)
      (auto simp: remoteSnapshot_def callOptional_def exchange_request helper_net_def served_optional(2) [OF pr] want_value_def
        split: if_splits option.splits)
qed

text \<open>A retry reported as done has been done, or the message had left the queue.\<close>

theorem remoteRetry_done:
  assumes pr: "paired X b H R" and "remoteRetry W (helper_net net H) R q p = (None, p')"
  shows "\<exists>p1. Retry X b q p = (None, p1) \<or> p1 \<in> {p, snd (Retry X b q p)} \<and> fst (Snapshot X b q p1) = Inl ErrQueueIDNotFound"
proof -
  have q: "validLongQueueID q" using assms(2) by (auto simp: remoteRetry_def split: if_splits)
  let ?x = "\<lambda>p. error_of (exchange W (helper_net net H) ''/v1/queue/retry'' (rb_release R) q want_nothing p)"
  have c: "callOptional W (helper_net net H) R ''/v1/queue/retry'' q want_nothing p = exchange W (helper_net net H) ''/v1/queue/retry'' (rb_release R) q want_nothing p"
    using q pr by (simp add: callOptional_def paired_def)
  note f = exchange_mutation [where W = W and net = net, OF served(3) [OF pr valid_not_empty [OF q]]]
  obtain e p1 where e: "?x p = (e, p1)" by fastforce
  show ?thesis
  proof (cases e)
    case None
    then show ?thesis using followsD [OF f e] by auto
  next
    case (Some err)
    then obtain p2 where s: "remoteSnapshot W (helper_net net H) R q p1 = (Inl ErrQueueIDNotFound, p2)"
      using assms(2) q e c by (auto simp: remoteRetry_def split: prod.splits sum.splits if_splits)
    have p1: "p1 \<in> {p, snd (Retry X b q p)}" using followsD [OF f e] by auto
    then show ?thesis using remoteSnapshot_absent [OF pr s] by blast
  qed
qed

section \<open>The core on the remote boundary\<close>

lemma last_observed_remote:
  assumes "idna_lookup X" and "helper_exact W" and "paired X b H R"
    and "last_observed X (remote_boundary X W (helper_net net H) R) r held w"
  shows "last_observed X (postfix_boundary X b) r held w"
proof -
  obtain p m where i: "remoteInspect X W (helper_net net H) R (qr_queue_id r) p = (Inr m, w_postfix w)" "qm_held m = held" "matchesQueueMetadata X r m"
    using assms(4) by (auto simp: last_observed_def remote_boundary_def)
  have "Inspect X b (qr_queue_id r) p = (Inr m, w_postfix w)"
    using followsD [OF remoteInspect_follows [OF assms(1-3)] i(1)] by simp
  then show ?thesis using i(2,3) by (auto simp: last_observed_def postfix_boundary_def)
qed

text \<open>A hold that the core reports over the network is one that Postfix showed locally.\<close>

theorem Reconcile_remote:
  assumes "idna_lookup X" and "helper_exact W" and "paired X b H R" and "alone w" and "queue_inv X (w_db w)"
    and "Reconcile_queue X (remote_boundary X W (helper_net net H) R) actor correlationID queueID w = ((Some (stored, changed), None), w')"
  shows "loadQueueRecord X (w_db w') queueID = Inr stored \<and> qr_hold_state stored = HoldApplied
    \<and> (\<exists>r. loadQueueRecord X (w_db w) queueID = Inr r \<and> last_observed X (postfix_boundary X b) r True w')"
  using Reconcile_held [OF assms(4-6)] last_observed_remote [OF assms(1-3)] by blast

section \<open>Witness\<close>

definition open_wire :: helper_wire where
  "open_wire = \<lparr>hw_fits = (\<lambda>b. True), hw_metadata = (\<lambda>b. case b of MetadataBody m \<Rightarrow> Some m | _ \<Rightarrow> None),
     hw_snapshot = (\<lambda>b. case b of SnapshotBody s \<Rightarrow> Some \<lparr>sf_active = int (qs_active s), sf_deferred = int (qs_deferred s),
       sf_held = int (qs_held s), sf_total = int (qs_total s), sf_digest = qs_digest s\<rparr> | _ \<Rightarrow> None)\<rparr>"

abbreviation post_release :: string where "post_release \<equiv> replicate 32 CHR ''r''"

abbreviation post_remote :: RemotePostfixBoundary where "post_remote \<equiv> \<lparr>rb_token = post_token, rb_release = post_release\<rparr>"

abbreviation post_helper :: "unit Helper" where
  "post_helper \<equiv> \<lparr>hl_boundary = postfix_boundary ascii_external (delivery_boundary post_env post_host),
     hl_operator = postfix_operator ascii_external (delivery_boundary post_env post_host), hl_token = sha256 post_token, hl_release = sha256 post_release\<rparr>"


end
