(* ===== verification/Spec2Isabelle.thy ===== *)
theory Spec2Isabelle
  imports Activation_Facts Authz Remote_Facts
begin

text \<open>
  A verification of the outbound mail policy of gotth-mail and of the programs around it.

  \<^bold>\<open>The program.\<close> gotth-mail is the control plane of a mail server. A domain may be confined, so that its users, aliases and
  automatic senders may send only inside the domain. Postfix asks the core for a decision when it accepts a message
  (submission) and, through the delivery gate, before every hand-over to the outbound relay (transport). The core stores for
  every queued message where it came from (its provenance), puts messages on hold that a changed policy forbids, and releases
  them when an administrator confirms it. Dovecot asks the same core who may log in.

  The parts and their theories, from the bottom up (paths are below \<^verbatim>\<open>src/\<close>):

  \<^item> \<open>Go_Prelude\<close>, \<open>Digest\<close>, \<open>Text_Codec\<close>: what the sources use of the Go library. Strings are lists of bytes; \<open>TrimSpace\<close>, UTF-8
    validity, \<open>plain_address\<close> (\<open>net/mail.ParseAddress\<close>), decimal numbers, base 64, SHA-256 on 32-bit words, hexadecimal. Errors are
    values of \<open>go_error\<close>; a panic is \<open>PanicError\<close>.
  \<^item> \<open>Policy\<close>, \<open>Canonical\<close>: \<^verbatim>\<open>internal/outboundpolicy/policy.go\<close>, \<^verbatim>\<open>authority.go\<close>, \<^verbatim>\<open>automatic.go\<close>. \<open>Evaluate\<close> decides one
    recipient; it is shown equal to a specification over sets, and canonical addresses and domains are characterised. The record
    \<open>external\<close> holds what is not in the sources: the IDNA lookup profile, the collation of the database and its class of control
    characters, with the hypotheses \<open>idna_lookup\<close> and \<open>bytewise\<close>.
  \<^item> \<open>Audit_Log\<close>: \<^verbatim>\<open>internal/audit/audit.go\<close>; what redaction removes and what it keeps.
  \<^item> \<open>Store\<close>: the tables of \<^verbatim>\<open>migrations/\<close> that the policy uses, as lists of rows with their CHECK constraints and keys, and
    programs over them. A world has a database, the state of Postfix, a clock, failures of statements and commits, and what other
    sessions do between two statements (\<open>run_tx\<close>, \<open>run_query\<close>).
  \<^item> \<open>Queue\<close>, \<open>Queue_Facts\<close>: \<^verbatim>\<open>queue.go\<close>; registration and loading of a message, its digests, their round trip and what the
    digests bind.
  \<^item> \<open>Postfix\<close>: \<^verbatim>\<open>postfix.go\<close>; postqueue and postsuper through a bounded command runner.
  \<^item> \<open>Reconcile\<close>: \<^verbatim>\<open>reconcile.go\<close>; recording that a message must be held, and holding it.
  \<^item> \<open>Expansion\<close>, \<open>Expansion_Facts\<close>, \<open>Expansion_Graph\<close>: the alias expansion of \<^verbatim>\<open>admission.go\<close>, shown to compute the leaves and
    the sources of an alias graph.
  \<^item> \<open>Enforcement\<close>, \<open>Enforcement_Facts\<close>: \<^verbatim>\<open>decision.go\<close> and the admission of a message; an \<open>ok\<close> means that the policy in force
    confines the recipient under all sources of the message (\<open>confined\<close>).
  \<^item> \<open>Release\<close>, \<open>Release_Facts\<close>: \<^verbatim>\<open>release.go\<close>; a release is permitted by policy, confirmed for the present state, and seen in
    Postfix.
  \<^item> \<open>Activation\<close>, \<open>Activation_Facts\<close>: \<^verbatim>\<open>admin.go\<close>; a change of scope applies to the state it was confirmed for and settles
    every affected message.
  \<^item> \<open>Hold_Machine\<close>, \<open>Guarantee\<close>, \<open>Queue_Runs\<close>: the queue as an abstract state machine. Every transaction is a step of it
    (a refinement); a rely-guarantee layer carries invariants through whole operations; and every run of operations of several
    sessions, with lost commits, keeps the queue consistent.
  \<^item> \<open>Daemon\<close>, \<open>Daemon_HTTP\<close>, \<open>Daemon_Facts\<close>: \<^verbatim>\<open>internal/daemon\<close>, the service that Postfix, Dovecot and Rspamd query, and its
    HTTP routes; accounts, passwords and the separation of the two queue credentials.
  \<^item> \<open>Gate\<close>, \<open>Gate_Facts\<close>: \<^verbatim>\<open>internal/postfixgate/gate.go\<close>, \<^verbatim>\<open>control.go\<close> and the delivery command of
    \<^verbatim>\<open>cmd/gotth-mail-postfix-gate\<close>, composed with the daemon and the Postfix boundary; nothing reaches the relay unless the
    policy in force allows it.
  \<^item> \<open>Remote\<close>, \<open>Remote_Facts\<close>: \<^verbatim>\<open>internal/postfixgate/helper.go\<close> and \<^verbatim>\<open>outboundpolicy/remote_postfix.go\<close>, the boundary that
    the core uses when Postfix runs on another host; it follows the local boundary.
  \<^item> \<open>Authz\<close>: \<^verbatim>\<open>internal/authz/authz.go\<close>; the authorizer against a rule-based specification.

  \<^bold>\<open>How code becomes definitions.\<close> A Go function is a HOL function of the same name; a method takes its receiver as an argument,
  and a method whose name is used twice carries a prefix or suffix (\<open>Load\<close>, \<open>Release_queue\<close>, \<open>controlDecide\<close>, \<open>remoteHold\<close>).
  A struct is a record, a map an association list, an error return a sum or an option, a loop a recursive function over the
  list it runs through. Code with effects takes and returns the world. A transaction body is a function on the database
  (suffix \<open>_tx\<close>) that \<open>run_tx\<close> runs, commits or rolls back.

  \<^bold>\<open>Bounds.\<close> All loops run over the data they are given. The two exceptions are bounded by the code itself: the alias loader and the
  alias walk (\<open>expandLayers\<close>, \<open>walkExpansionGraph\<close>) carry what is left of the code's own depth limit as a number, so running out of it
  is the error that the code returns; that this limit suffices for every acyclic graph within the limits is
  \<open>expandOriginal_succeeds\<close>. Revisions, sizes and counters are integers and naturals where the code cannot overflow them;
  SHA-256 works on 32-bit words; the iteration count of a password verifier is checked against the range of a 64-bit integer.

  \<^bold>\<open>Assumptions.\<close> They are premises of the theorems that need them. \<open>idna_lookup\<close> and \<open>bytewise\<close> are described above.
  \<open>mail_parser\<close> and \<open>key_derivation\<close> say that a bare address parses to itself and that a derived key has the requested length.
  \<open>json_exact\<close> and \<open>helper_exact\<close> say that valid UTF-8 survives JSON. \<open>still\<close> and \<open>alone\<close> say that no other session writes during
  an operation; theorems without them hold under interference. SHA-256 is never assumed to be injective: where a statement
  depends on it, the conclusion is the property or an explicit collision. \<open>ToLower\<close> and \<open>EqualFold\<close> work on ASCII letters, which
  is exact for the addresses and domains the code compares after IDNA; other letters are left as they are.

  \<^bold>\<open>Not modelled.\<close> Time limits, contexts, mutexes and log output; the HTTP, SMTP, SQL and JSON libraries beyond the behaviour
  named above; TLS. Of the sources: \<^verbatim>\<open>outboundpolicy/backup.go\<close> (export and import of the tables as files); the web mail client, the
  administration pages and the JSON API (\<^verbatim>\<open>internal/webmail\<close>, \<^verbatim>\<open>httpui\<close>, \<^verbatim>\<open>api\<close>, \<^verbatim>\<open>frontauth\<close>, \<^verbatim>\<open>admin\<close>), which render and
  forward; identity provisioning and its tokens (\<^verbatim>\<open>identity\<close>, \<^verbatim>\<open>identityadopt\<close>, \<^verbatim>\<open>scimstore\<close>, \<^verbatim>\<open>scimtoken\<close>, \<^verbatim>\<open>rolebinding\<close>,
  \<^verbatim>\<open>authn\<close>), which work on tables of their own; notifications and extensions (\<^verbatim>\<open>notification\<close>, \<^verbatim>\<open>notifyruntime\<close>,
  \<^verbatim>\<open>extensionsadmin\<close>, \<^verbatim>\<open>extensionsruntime\<close>, \<^verbatim>\<open>plugin\<close>); operations and rendering (\<^verbatim>\<open>ops\<close>, \<^verbatim>\<open>diag\<close>, \<^verbatim>\<open>render\<close>, \<^verbatim>\<open>apply\<close>, \<^verbatim>\<open>config\<close>,
  \<^verbatim>\<open>store\<close>, \<^verbatim>\<open>version\<close>); the other commands, which start servers; generated protocol code.
\<close>

end
